theory Spec2Isabelle
  imports Main
begin

section \<open>Missed-deposit scan of the confirmed-native worker\<close>

text \<open>
  A shallow embedding of \<^verbatim>\<open>confirmed-native-extra-solution-2.ts\<close>: the Etherscan page
  fetch with its zod schema, \<^verbatim>\<open>scanTxid\<close>, and the per-order callback of
  \<^verbatim>\<open>runScanByOrderId\<close> with its page loop. Exceptions are values of type \<open>error\<close>,
  the logger, the explorer requests, the node lookups and the credit calls are recorded in
  an explicit world state, and the \<^verbatim>\<open>while\<close> loop takes fuel.
\<close>

subsection \<open>Exceptions\<close>

datatype error =
    AxiosError string
  | ZodError
  | InvalidArgument string
  | TypeError string
  | AssertionError string
  | Error string

subsection \<open>Decimal and hexadecimal numerals\<close>

text \<open>
  \<^verbatim>\<open>BigNumber.prototype.toString()\<close> of ethers prints an integer in decimal, without
  leading zeros. Transaction quantities come from the node as unsigned hex quantities, so
  they are natural numbers here.
\<close>

definition digitChar :: "nat \<Rightarrow> char" where
  "digitChar d = ''0123456789'' ! d"

function toString :: "nat \<Rightarrow> string" where
  "toString n = (if n < 10 then [digitChar n] else toString (n div 10) @ [digitChar (n mod 10)])"
  by pat_completeness auto
termination
  by (relation "measure id") auto

declare toString.simps [simp del]

definition isDigit :: "char \<Rightarrow> bool" where
  "isDigit c = (c \<in> set ''0123456789'')"

definition isHexDigit :: "char \<Rightarrow> bool" where
  "isHexDigit c = (c \<in> set ''0123456789abcdefABCDEF'')"

definition digitVal :: "char \<Rightarrow> nat" where
  "digitVal c =
     (case map_of (zip ''0123456789'' [0, 1, 2, 3, 4, 5, 6, 7, 8, 9]) c of
        Some d \<Rightarrow> d
      | None \<Rightarrow> 0)"

definition hexVal :: "char \<Rightarrow> nat" where
  "hexVal c =
     (case map_of (zip ''0123456789abcdefABCDEF''
             [0, 1, 2, 3, 4, 5, 6, 7, 8, 9, 10, 11, 12, 13, 14, 15, 10, 11, 12, 13, 14, 15]) c of
        Some d \<Rightarrow> d
      | None \<Rightarrow> 0)"

definition fromDigits :: "nat \<Rightarrow> (char \<Rightarrow> nat) \<Rightarrow> string \<Rightarrow> nat" where
  "fromDigits base val s = foldl (\<lambda>acc c. acc * base + val c) 0 s"

text \<open>
  \<^verbatim>\<open>ethers.BigNumber.from\<close> on a string (ethers v5): a string that matches
  \<^verbatim>\<open>/^-?0x[0-9a-f]+$/i\<close> is kept as a hex string, one that matches \<^verbatim>\<open>/^-?[0-9]+$/\<close>
  is read in base 10, and any other string throws \<^verbatim>\<open>invalid BigNumber string\<close>. The
  regular expression for hex strings ignores case, but \<^verbatim>\<open>toHex\<close> puts \<^verbatim>\<open>0x\<close> in front
  of a string that does not begin with a lower-case \<^verbatim>\<open>0x\<close>, so after the prefix \<^verbatim>\<open>0X\<close>
  the hex string kept is \<^verbatim>\<open>0xX...\<close>, and bn.js throws \<^verbatim>\<open>Invalid character\<close> when the
  number is first used. Every BigNumber that this program makes from a string is used at
  once (\<^verbatim>\<open>.gt(0)\<close> in the page filter, \<^verbatim>\<open>formatEther\<close>), so the exception is raised
  here. Hex digits may be of either case.
\<close>

definition isHexNumeral :: "string \<Rightarrow> bool" where
  "isHexNumeral s =
     ((take 2 s = ''0x'' \<or> take 2 s = ''0X'') \<and> drop 2 s \<noteq> [] \<and> list_all isHexDigit (drop 2 s))"

definition isDecimalNumeral :: "string \<Rightarrow> bool" where
  "isDecimalNumeral s = (s \<noteq> [] \<and> list_all isDigit s)"

definition unsignedPart :: "string \<Rightarrow> string" where
  "unsignedPart s = (case s of [] \<Rightarrow> [] | c # r \<Rightarrow> if c = CHR ''-'' then r else s)"

definition isNegative :: "string \<Rightarrow> bool" where
  "isNegative s = (case s of [] \<Rightarrow> False | c # r \<Rightarrow> c = CHR ''-'')"

definition BigNumber_from :: "string \<Rightarrow> error + int" where
  "BigNumber_from s =
     (let body = unsignedPart s;
          sign = (if isNegative s then - 1 else 1)
      in if isHexNumeral body
         then (if take 2 body = ''0x''
               then Inr (sign * int (fromDigits 16 hexVal (drop 2 body)))
               else Inl (Error ''Invalid character''))
         else if isDecimalNumeral body then Inr (sign * int (fromDigits 10 digitVal body))
         else Inl (InvalidArgument ''invalid BigNumber string''))"

text \<open>
  \<^verbatim>\<open>ethers.utils.formatEther(v)\<close> is \<^verbatim>\<open>formatFixed(v, 18)\<close>: the fraction
  \<^verbatim>\<open>|v| mod 10^18\<close> is padded on the left to 18 digits, the regular expression
  \<^verbatim>\<open>/^([0-9]*[1-9]|0)(0*)/\<close> drops its trailing zeros (keeping one digit), and the result
  is \<^verbatim>\<open>whole + "." + fraction\<close> with the sign in front.
\<close>

definition stripTrailingZeros :: "string \<Rightarrow> string" where
  "stripTrailingZeros s =
     (let t = rev (dropWhile (\<lambda>c. c = CHR ''0'') (rev s)) in if t = [] then ''0'' else t)"

definition padFraction :: "string \<Rightarrow> string" where
  "padFraction s = replicate (18 - length s) (CHR ''0'') @ s"

definition formatEther :: "int \<Rightarrow> string" where
  "formatEther v =
     (let negative = v < 0;
          a = nat \<bar>v\<bar>;
          fraction = stripTrailingZeros (padFraction (toString (a mod 10 ^ 18)));
          whole = toString (a div 10 ^ 18);
          r = whole @ ''.'' @ fraction
      in if negative then CHR ''-'' # r else r)"

text \<open>\<^verbatim>\<open>formatEther\<close> on a string argument converts it with \<^verbatim>\<open>BigNumber.from\<close> first.\<close>

definition formatEther_string :: "string \<Rightarrow> error + string" where
  "formatEther_string s =
     (case BigNumber_from s of Inl e \<Rightarrow> Inl e | Inr v \<Rightarrow> Inr (formatEther v))"

text \<open>
  Modelled from the spec: \<^verbatim>\<open>ns.sum\<close> and \<^verbatim>\<open>ns.times\<close> of \<^verbatim>\<open>@sideshift/shared\<close> (a
  wrapper of bignumber.js for arithmetic on strings) are not part of the sources. The
  specification describes them as exact decimal-string arithmetic: both operands are read
  as decimal numerals and the exact result is printed in decimal. An operand that is not a
  decimal numeral gives \<^verbatim>\<open>NaN\<close>.
\<close>

definition ns_parse :: "string \<Rightarrow> nat option" where
  "ns_parse s = (if isDecimalNumeral s then Some (fromDigits 10 digitVal s) else None)"

definition ns_sum :: "string \<Rightarrow> string \<Rightarrow> string" where
  "ns_sum a b =
     (case ns_parse a of
        None \<Rightarrow> ''NaN''
      | Some x \<Rightarrow> (case ns_parse b of None \<Rightarrow> ''NaN'' | Some y \<Rightarrow> toString (x + y)))"

definition ns_times :: "string \<Rightarrow> string \<Rightarrow> string" where
  "ns_times a b =
     (case ns_parse a of
        None \<Rightarrow> ''NaN''
      | Some x \<Rightarrow> (case ns_parse b of None \<Rightarrow> ''NaN'' | Some y \<Rightarrow> toString (x * y)))"

text \<open>
  \<^verbatim>\<open>String.prototype.toLowerCase\<close> on the ASCII letters; addresses are hexadecimal
  strings, every other character is left as it is.
\<close>

definition toLowerChar :: "char \<Rightarrow> char" where
  "toLowerChar c =
     (case map_of (zip ''ABCDEFGHIJKLMNOPQRSTUVWXYZ'' ''abcdefghijklmnopqrstuvwxyz'') c of
        Some l \<Rightarrow> l
      | None \<Rightarrow> c)"

definition toLowerCase :: "string \<Rightarrow> string" where
  "toLowerCase s = map toLowerChar s"

subsection \<open>The Explorer Client\<close>

text \<open>
  JSON values, and the response object that axios resolves to. The zod schema
  \<^verbatim>\<open>accountTxListResultSchema\<close> is an array of objects with four string fields; zod
  strips the other keys of an object.
\<close>

datatype json =
    JNull
  | JBool bool
  | JNumber int
  | JString string
  | JArray "json list"
  | JObject "(string \<times> json) list"

record etherscanTx =
  es_hash :: string
  es_from :: string
  es_to :: string
  es_value :: string

record axiosResponse =
  data :: json
  status :: nat
  statusText :: string
  headers :: json

text \<open>
  The value bound to \<^verbatim>\<open>res\<close> in \<^verbatim>\<open>.then(res => ...)\<close>: an object with the keys
  \<^verbatim>\<open>data\<close>, \<^verbatim>\<open>status\<close>, \<^verbatim>\<open>statusText\<close>, \<^verbatim>\<open>headers\<close> (and \<^verbatim>\<open>config\<close>,
  \<^verbatim>\<open>request\<close>, objects as well).
\<close>

definition responseObject :: "axiosResponse \<Rightarrow> json" where
  "responseObject res =
     JObject [(''data'', data res), (''status'', JNumber (int (status res))),
              (''statusText'', JString (statusText res)), (''headers'', headers res)]"

definition stringField :: "(string \<times> json) list \<Rightarrow> string \<Rightarrow> string option" where
  "stringField props k = (case map_of props k of Some (JString s) \<Rightarrow> Some s | _ \<Rightarrow> None)"

definition txObject_parse :: "json \<Rightarrow> error + etherscanTx" where
  "txObject_parse j =
     (case j of
        JObject props \<Rightarrow>
          (case stringField props ''hash'' of None \<Rightarrow> Inl ZodError | Some h \<Rightarrow>
          (case stringField props ''from'' of None \<Rightarrow> Inl ZodError | Some f \<Rightarrow>
          (case stringField props ''to'' of None \<Rightarrow> Inl ZodError | Some t \<Rightarrow>
          (case stringField props ''value'' of None \<Rightarrow> Inl ZodError | Some v \<Rightarrow>
             Inr \<lparr>es_hash = h, es_from = f, es_to = t, es_value = v\<rparr>))))
      | _ \<Rightarrow> Inl ZodError)"

fun txObjects_parse :: "json list \<Rightarrow> error + etherscanTx list" where
  "txObjects_parse [] = Inr []"
| "txObjects_parse (j # js) =
     (case txObject_parse j of
        Inl e \<Rightarrow> Inl e
      | Inr t \<Rightarrow> (case txObjects_parse js of Inl e \<Rightarrow> Inl e | Inr ts \<Rightarrow> Inr (t # ts)))"

definition accountTxListResultSchema_parse :: "json \<Rightarrow> error + etherscanTx list" where
  "accountTxListResultSchema_parse j =
     (case j of JArray js \<Rightarrow> txObjects_parse js | _ \<Rightarrow> Inl ZodError)"

definition pageSize :: nat where
  "pageSize = 100"

definition txListUrl :: "string \<Rightarrow> string \<Rightarrow> nat \<Rightarrow> nat \<Rightarrow> string" where
  "txListUrl apiKey address startblock page =
     ''https://api.etherscan.io/api?module=account&action=txlist&address='' @ address
     @ ''&startblock='' @ toString startblock @ ''&page='' @ toString page
     @ ''&offset='' @ toString pageSize @ ''&sort=desc&apikey='' @ apiKey"

text \<open>
  \<^verbatim>\<open>getEtherScanTxListForAddress\<close>: the HTTP GET is a parameter (\<open>Inl\<close> when axios
  rejects: network failure or a non-success status). The schema is applied to \<^verbatim>\<open>res\<close>,
  the response object, as the source does.
\<close>

definition getEtherScanTxListForAddress ::
  "(string \<Rightarrow> error + axiosResponse) \<Rightarrow> string \<Rightarrow> string \<Rightarrow> nat \<Rightarrow> nat \<Rightarrow> error + etherscanTx list" where
  "getEtherScanTxListForAddress httpGet apiKey address startblock page =
     (case httpGet (txListUrl apiKey address startblock page) of
        Inl e \<Rightarrow> Inl e
      | Inr res \<Rightarrow> accountTxListResultSchema_parse (responseObject res))"

subsection \<open>Orders, transactions and the world\<close>

record deposit_address =
  address :: string

text \<open>
  A row of the \<^verbatim>\<open>Order\<close> table: \<^verbatim>\<open>createdAt\<close> is a \<^verbatim>\<open>Date\<close>, read with
  \<^verbatim>\<open>getTime()\<close> as milliseconds since the epoch; \<^verbatim>\<open>depositAddress\<close> is nullable.
\<close>

record Order =
  order_id :: string
  depositAddress :: "deposit_address option"
  depositMethod :: string
  createdAt :: int
  createdAtBlockNumber :: nat

text \<open>
  The \<^verbatim>\<open>TransactionResponse\<close> of ethers: \<^verbatim>\<open>blockHash\<close>, \<^verbatim>\<open>blockNumber\<close>, \<^verbatim>\<open>to\<close> and
  \<^verbatim>\<open>gasPrice\<close> may be absent. \<^verbatim>\<open>hash\<close> is a string, so the guard
  \<^verbatim>\<open>typeof txid !== 'string'\<close> of \<^verbatim>\<open>scanTxid\<close> never fires.
\<close>

record transaction =
  tx_hash :: string
  tx_blockHash :: "string option"
  tx_blockNumber :: "nat option"
  tx_from :: string
  tx_to :: "string option"
  tx_value :: nat
  tx_gasLimit :: nat
  tx_gasPrice :: "nat option"

record block =
  timestamp :: nat

record deposit_method =
  method_id :: string
  asset :: string

record depositRequest =
  orderId :: string
  txid :: string
  amount :: string
  uniqueId :: string

datatype log_level = Info | Warn | ErrorLevel

datatype log_message =
    ProcessingQueuedTask string
  | OrderNotFound string
  | OrderHasNoDepositAddress string
  | ErrorFetchingTxs error string
  | FoundTransactions nat string
  | TransactionNotFound string
  | TransactionHasNoBlockNumber string
  | IgnoringTxBeforeOrder string string
  | ScanningTx string
  | StoredDeposit string string string string
  | EtherscanNotConfigured

text \<open>
  The application context. The node provider answers \<^verbatim>\<open>getTransaction\<close> with a
  transaction or \<^verbatim>\<open>null\<close> and \<^verbatim>\<open>getBlock\<close> with a block or \<^verbatim>\<open>null\<close>; \<open>db\<close> is the
  \<^verbatim>\<open>Order\<close> table in storage order. \<^verbatim>\<open>getEthereumNativeDepositUniqueId\<close> is imported
  from \<^verbatim>\<open>./shared\<close>, which is not part of the sources: it is a parameter. The order
  table, the node and the credit service are taken to answer every call; only the HTTP
  request to the explorer can fail. How long they take to answer decides when each of the
  mappers that \<^verbatim>\<open>pMap\<close> runs concurrently settles: \<open>settleTime\<close> is the time at which
  the mapper started for a transaction hash returns or throws.
\<close>

record app_context =
  etherscanApiKey :: string
  account :: string
  nativeMethod :: deposit_method
  db :: "Order list"
  getTransaction :: "string \<Rightarrow> transaction option"
  getBlock :: "nat \<Rightarrow> block option"
  axios_get :: "string \<Rightarrow> error + axiosResponse"
  getEthereumNativeDepositUniqueId :: "deposit_method \<Rightarrow> string \<Rightarrow> string"
  settleTime :: "string \<Rightarrow> nat"

text \<open>
  What the scan changes or emits: the deposit records held by the credit service, the
  requests sent to it, the logger's lines, the explorer pages asked for
  (address, start block, page), and the transaction hashes that the mappers of \<^verbatim>\<open>pMap\<close>
  asked the node for.
\<close>

record world =
  deposits :: "depositRequest list"
  requests :: "depositRequest list"
  logs :: "(log_level \<times> log_message) list"
  fetched :: "(string \<times> nat \<times> nat) list"
  lookups :: "string list"

definition logger :: "log_level \<Rightarrow> log_message \<Rightarrow> world \<Rightarrow> world" where
  "logger lvl m w = w\<lparr>logs := logs w @ [(lvl, m)]\<rparr>"

text \<open>
  Modelled from the spec: \<^verbatim>\<open>maybeInternalCreateDeposit\<close> is a GraphQL mutation of the
  credit service, not part of the sources. The specification's Credit Sink
  (\<^verbatim>\<open>creditIfAbsent\<close>) applies at most one record per dedup key and answers whether it
  applied the request.
\<close>

definition maybeInternalCreateDeposit :: "depositRequest \<Rightarrow> world \<Rightarrow> bool \<times> world" where
  "maybeInternalCreateDeposit req w =
     (let w1 = w\<lparr>requests := requests w @ [req]\<rparr>
      in if uniqueId req \<in> uniqueId ` set (deposits w) then (False, w1)
         else (True, w1\<lparr>deposits := deposits w @ [req]\<rparr>))"

subsection \<open>scanTxid\<close>

definition fetchOrderForAddress :: "app_context \<Rightarrow> string \<Rightarrow> Order option" where
  "fetchOrderForAddress ctx a =
     find (\<lambda>row. depositMethod row = method_id (nativeMethod ctx)
                \<and> (case depositAddress row of None \<Rightarrow> False | Some da \<Rightarrow> address da = a))
          (db ctx)"

text \<open>
  \<^verbatim>\<open>!+tx.value\<close> converts the BigNumber through its decimal string to a number, which is
  zero exactly when the value is zero. The result \<open>Inr b\<close> is the boolean that
  \<^verbatim>\<open>scanTxid\<close> returns, \<open>Inl e\<close> an exception thrown.
\<close>

definition scanTxid :: "app_context \<Rightarrow> transaction \<Rightarrow> world \<Rightarrow> (error + bool) \<times> world" where
  "scanTxid ctx tx w =
     (if tx_from tx = [] then (Inl (AssertionError ''from missing''), w)
      else case tx_blockHash tx of
        None \<Rightarrow> (Inl (Error ''blockHash must be string''), w)
      | Some blockHash \<Rightarrow>
        (case tx_to tx of
           None \<Rightarrow> (Inr False, w)
         | Some to \<Rightarrow>
           if to = [] then (Inr False, w)
           else if toLowerCase to \<noteq> toLowerCase (account ctx) then (Inr False, w)
           else if tx_value tx = 0 then (Inr False, w)
           else (case tx_gasPrice tx of
             None \<Rightarrow> (Inl (Error ''Unsupported EIP-1559 sweep transaction''), w)
           | Some gasPrice \<Rightarrow>
             (let total = ns_sum (toString (tx_value tx))
                            (ns_times (toString (tx_gasLimit tx)) (toString gasPrice))
              in case fetchOrderForAddress ctx (tx_from tx) of
                None \<Rightarrow> (Inr False, w)
              | Some order \<Rightarrow>
                (let valueAsEther = formatEther (int (tx_value tx))
                 in case formatEther_string total of
                   Inl e \<Rightarrow> (Inl e, w)
                 | Inr totalAsEther \<Rightarrow>
                   (case maybeInternalCreateDeposit
                           \<lparr>orderId = order_id order, txid = tx_hash tx, amount = totalAsEther,
                            uniqueId = getEthereumNativeDepositUniqueId ctx (nativeMethod ctx) (tx_hash tx)\<rparr> w of
                      (wasCredited, w1) \<Rightarrow>
                        if \<not> wasCredited then (Inr False, w1)
                        else (Inr True,
                              logger Info (StoredDeposit (tx_hash tx) valueAsEther
                                 (asset (nativeMethod ctx)) (order_id order)) w1)))))))"

subsection \<open>The per-order scan of runScanByOrderId\<close>

text \<open>
  The mapper given to \<^verbatim>\<open>pMap\<close> (source lines 203 to 237). When it is started it runs
  up to its first \<^verbatim>\<open>await\<close>: it asks the node for the transaction (\<open>askNode\<close>). The rest,
  from the node's answer on, is \<open>txMapper\<close>. \<^verbatim>\<open>!ethersTx.blockNumber\<close> holds for an
  absent block number and for block number 0; reading \<^verbatim>\<open>block.timestamp\<close> of a
  \<^verbatim>\<open>null\<close> block is a TypeError.
\<close>

definition askNode :: "etherscanTx \<Rightarrow> world \<Rightarrow> world" where
  "askNode etherscanTx w = w\<lparr>lookups := lookups w @ [es_hash etherscanTx]\<rparr>"

definition txMapper ::
  "app_context \<Rightarrow> Order \<Rightarrow> string \<Rightarrow> etherscanTx \<Rightarrow> world \<Rightarrow> (error + unit) \<times> world" where
  "txMapper ctx order oid etherscanTx w =
     (case getTransaction ctx (es_hash etherscanTx) of
        None \<Rightarrow> (Inr (), logger ErrorLevel (TransactionNotFound (es_hash etherscanTx)) w)
      | Some ethersTx \<Rightarrow>
        (case tx_blockNumber ethersTx of
           None \<Rightarrow> (Inr (), logger Warn (TransactionHasNoBlockNumber (es_hash etherscanTx)) w)
         | Some blockNumber \<Rightarrow>
           if blockNumber = 0
           then (Inr (), logger Warn (TransactionHasNoBlockNumber (es_hash etherscanTx)) w)
           else (case getBlock ctx blockNumber of
             None \<Rightarrow> (Inl (TypeError ''Cannot read properties of null''), w)
           | Some blk \<Rightarrow>
             if int (timestamp blk) * 1000 < createdAt order
             then (Inr (), logger Warn (IgnoringTxBeforeOrder (es_hash etherscanTx) oid) w)
             else (case scanTxid ctx ethersTx (logger Info (ScanningTx (es_hash etherscanTx)) w) of
                     (Inl e, w1) \<Rightarrow> (Inl e, w1)
                   | (Inr b, w1) \<Rightarrow> (Inr (), w1)))))"

text \<open>
  \<^verbatim>\<open>pMap\<close> with its default options (unbounded concurrency, stop on error): every mapper
  is started, in list order, and runs up to its first \<^verbatim>\<open>await\<close> (\<open>start\<close>); from there
  the mappers run concurrently. A mapper that throws rejects the returned promise without
  cancelling the others, and the promise is rejected with the exception that is thrown
  first in time. The array of results is not used by the caller.

  \<open>runMappers\<close> runs the mappers one after the other in the order given, keeps the effects
  of all of them, and returns the exception of the first one that throws, if any. \<open>pMap\<close>
  starts the mappers in list order and then runs them in the order in which they settle
  (\<open>settles\<close> gives the time for each element; mappers that settle at the same time go in
  list order). The effects of one mapper are taken together, at the time it settles: how
  the log lines and credit requests of different mappers interleave between two of their
  \<^verbatim>\<open>await\<close>s is not modelled.
\<close>

fun runMappers ::
  "('a \<Rightarrow> world \<Rightarrow> (error + unit) \<times> world) \<Rightarrow> 'a list \<Rightarrow> world \<Rightarrow> (error + unit) \<times> world" where
  "runMappers mapper [] w = (Inr (), w)"
| "runMappers mapper (x # xs) w =
     (case mapper x w of
        (r, w1) \<Rightarrow>
          (case runMappers mapper xs w1 of
             (rs, w2) \<Rightarrow> ((case r of Inl e \<Rightarrow> Inl e | Inr u \<Rightarrow> rs), w2)))"

definition pMap ::
  "('a \<Rightarrow> nat) \<Rightarrow> ('a \<Rightarrow> world \<Rightarrow> world) \<Rightarrow> ('a \<Rightarrow> world \<Rightarrow> (error + unit) \<times> world) \<Rightarrow> 'a list
     \<Rightarrow> world \<Rightarrow> (error + unit) \<times> world" where
  "pMap settles start mapper xs w = runMappers mapper (sort_key settles xs) (fold start xs w)"

text \<open>
  \<^verbatim>\<open>txs.filter(tx => ethers.BigNumber.from(tx.value).gt(0))\<close>: the predicate throws on
  the first value that \<^verbatim>\<open>BigNumber.from\<close> and \<^verbatim>\<open>gt\<close> do not read as a number.
\<close>

fun filterPositive :: "etherscanTx list \<Rightarrow> error + etherscanTx list" where
  "filterPositive [] = Inr []"
| "filterPositive (t # ts) =
     (case BigNumber_from (es_value t) of
        Inl e \<Rightarrow> Inl e
      | Inr v \<Rightarrow>
          (case filterPositive ts of
             Inl e \<Rightarrow> Inl e
           | Inr r \<Rightarrow> Inr (if 0 < v then t # r else r)))"

text \<open>The \<^verbatim>\<open>else\<close> branch of the loop body, for a page that is not empty.\<close>

definition processPage ::
  "app_context \<Rightarrow> Order \<Rightarrow> string \<Rightarrow> etherscanTx list \<Rightarrow> world \<Rightarrow> (error + unit) \<times> world" where
  "processPage ctx order oid txs w =
     (case filterPositive txs of
        Inl e \<Rightarrow> (Inl e, w)
      | Inr positive \<Rightarrow>
          (let candidates = take 10 positive
           in pMap (\<lambda>etherscanTx. settleTime ctx (es_hash etherscanTx)) askNode
                (txMapper ctx order oid) candidates
                (logger Info (FoundTransactions (length candidates) oid) w)))"

text \<open>
  How a scan returned: Etherscan was not configured, the order was not found, it had no
  deposit address, a page fetch failed (the \<^verbatim>\<open>return\<close> in the \<^verbatim>\<open>catch\<close>), or
  \<^verbatim>\<open>hasMorePages\<close> became false.
\<close>

datatype scan_end = NotConfigured | OrderAbsent | AddressAbsent | FetchFailed | NoMorePages

type_synonym page_source = "string \<Rightarrow> nat \<Rightarrow> nat \<Rightarrow> error + etherscanTx list"

text \<open>
  The \<^verbatim>\<open>while (hasMorePages)\<close> loop, from \<open>currentPage\<close> on. The loop runs for as long as
  pages are not empty, so it takes fuel: one unit per iteration, and \<open>None\<close> with the world
  reached so far when the fuel is used up. The page fetch is a parameter of the loop.
\<close>

fun pageLoop ::
  "nat \<Rightarrow> page_source \<Rightarrow> app_context \<Rightarrow> Order \<Rightarrow> string \<Rightarrow> string \<Rightarrow> nat \<Rightarrow> world
     \<Rightarrow> (error + scan_end) option \<times> world" where
  "pageLoop 0 getPage ctx order oid addr currentPage w = (None, w)"
| "pageLoop (Suc fuel) getPage ctx order oid addr currentPage w =
     (let w1 = w\<lparr>fetched := fetched w @ [(addr, createdAtBlockNumber order, currentPage)]\<rparr>
      in case getPage addr (createdAtBlockNumber order) currentPage of
        Inl e \<Rightarrow> (Some (Inr FetchFailed), logger ErrorLevel (ErrorFetchingTxs e oid) w1)
      | Inr txs \<Rightarrow>
          if txs = [] then (Some (Inr NoMorePages), w1)
          else (case processPage ctx order oid txs w1 of
                  (Inl e, w2) \<Rightarrow> (Some (Inl e), w2)
                | (Inr u, w2) \<Rightarrow> pageLoop fuel getPage ctx order oid addr (currentPage + 1) w2))"

text \<open>The callback given to \<^verbatim>\<open>queue.run\<close>: the scan of one queued order id.\<close>

definition orderTask ::
  "nat \<Rightarrow> page_source \<Rightarrow> app_context \<Rightarrow> string \<Rightarrow> world \<Rightarrow> (error + scan_end) option \<times> world" where
  "orderTask fuel getPage ctx oid w =
     (let w1 = logger Info (ProcessingQueuedTask oid) w
      in case find (\<lambda>row. order_id row = oid) (db ctx) of
        None \<Rightarrow> (Some (Inr OrderAbsent), logger ErrorLevel (OrderNotFound oid) w1)
      | Some order \<Rightarrow>
          (case depositAddress order of
             None \<Rightarrow> (Some (Inr AddressAbsent), logger ErrorLevel (OrderHasNoDepositAddress oid) w1)
           | Some da \<Rightarrow> pageLoop fuel getPage ctx order oid (address da) 1 w1))"

text \<open>The callback as the source instantiates it, with the Etherscan client.\<close>

definition runScanByOrderId_task ::
  "nat \<Rightarrow> app_context \<Rightarrow> string \<Rightarrow> world \<Rightarrow> (error + scan_end) option \<times> world" where
  "runScanByOrderId_task fuel ctx oid w =
     orderTask fuel (getEtherScanTxListForAddress (axios_get ctx) (etherscanApiKey ctx)) ctx oid w"

text \<open>
  \<^verbatim>\<open>runScanByOrderId\<close> on a queue that delivers the order id \<open>oid\<close>: without an API
  key it logs an error and returns before the queue is run.
\<close>

definition runScanByOrderId ::
  "nat \<Rightarrow> app_context \<Rightarrow> string \<Rightarrow> world \<Rightarrow> (error + scan_end) option \<times> world" where
  "runScanByOrderId fuel ctx oid w =
     (if etherscanApiKey ctx = []
      then (Some (Inr NotConfigured), logger ErrorLevel EtherscanNotConfigured w)
      else runScanByOrderId_task fuel ctx oid w)"

section \<open>Notions used to state the properties\<close>

text \<open>The world before anything has happened.\<close>

definition noWorld :: world where
  "noWorld = \<lparr>deposits = [], requests = [], logs = [], fetched = [], lookups = []\<rparr>"

text \<open>
  The credit requests sent, the explorer pages asked for, the transaction hashes asked of
  the node and the lines logged between a world \<open>w\<close> and a later world \<open>w'\<close>.
\<close>

definition issuedRequests :: "world \<Rightarrow> world \<Rightarrow> depositRequest list" where
  "issuedRequests w w' = drop (length (requests w)) (requests w')"

definition pagesFetched :: "world \<Rightarrow> world \<Rightarrow> (string \<times> nat \<times> nat) list" where
  "pagesFetched w w' = drop (length (fetched w)) (fetched w')"

definition lookupsMade :: "world \<Rightarrow> world \<Rightarrow> string list" where
  "lookupsMade w w' = drop (length (lookups w)) (lookups w')"

definition linesLogged :: "world \<Rightarrow> world \<Rightarrow> (log_level \<times> log_message) list" where
  "linesLogged w w' = drop (length (logs w)) (logs w')"

text \<open>
  The log lines that report an exception: \<^verbatim>\<open>logger.error(error, ...)\<close> in the \<^verbatim>\<open>catch\<close>
  around the page fetch is the only call of the logger that is given one.
\<close>

definition reportsException :: "log_level \<times> log_message \<Rightarrow> bool" where
  "reportsException line = (case snd line of ErrorFetchingTxs e oid \<Rightarrow> True | _ \<Rightarrow> False)"

text \<open>The credit service's records after it has handled a list of requests in order.\<close>

definition creditAll :: "depositRequest list \<Rightarrow> depositRequest list \<Rightarrow> depositRequest list" where
  "creditAll ds reqs =
     foldl (\<lambda>acc r. if uniqueId r \<in> uniqueId ` set acc then acc else acc @ [r]) ds reqs"

text \<open>
  \<open>creditOf ctx tx req\<close>: the transaction passes the checks of \<^verbatim>\<open>scanTxid\<close>, an order
  with its sender as deposit address exists, and \<open>req\<close> is the request sent for it.
\<close>

definition creditOf :: "app_context \<Rightarrow> transaction \<Rightarrow> depositRequest \<Rightarrow> bool" where
  "creditOf ctx tx req =
     (tx_from tx \<noteq> [] \<and>
      (case tx_to tx of None \<Rightarrow> False
       | Some to \<Rightarrow> to \<noteq> [] \<and> toLowerCase to = toLowerCase (account ctx)) \<and>
      0 < tx_value tx \<and>
      (case tx_gasPrice tx of None \<Rightarrow> False
       | Some gasPrice \<Rightarrow>
         (case fetchOrderForAddress ctx (tx_from tx) of None \<Rightarrow> False
          | Some found \<Rightarrow>
              req = \<lparr>orderId = order_id found, txid = tx_hash tx,
                     amount = formatEther (int (tx_value tx + tx_gasLimit tx * gasPrice)),
                     uniqueId = getEthereumNativeDepositUniqueId ctx (nativeMethod ctx) (tx_hash tx)\<rparr>)))"

text \<open>
  \<open>verifiedCredit ctx order h req\<close>: the node resolves the hash \<open>h\<close> to a transaction in a
  block that is not older than the order, and \<open>req\<close> is the request sent for it.
\<close>

definition verifiedCredit :: "app_context \<Rightarrow> Order \<Rightarrow> string \<Rightarrow> depositRequest \<Rightarrow> bool" where
  "verifiedCredit ctx order h req =
     (case getTransaction ctx h of None \<Rightarrow> False
      | Some tx \<Rightarrow>
        (case tx_blockNumber tx of None \<Rightarrow> False
         | Some bn \<Rightarrow>
           (case getBlock ctx bn of None \<Rightarrow> False
            | Some blk \<Rightarrow> createdAt order \<le> int (timestamp blk) * 1000 \<and> creditOf ctx tx req)))"

text \<open>A summary whose value string is a numeral, and one whose value is greater than zero.\<close>

definition numericValue :: "etherscanTx \<Rightarrow> bool" where
  "numericValue t = (case BigNumber_from (es_value t) of Inl e \<Rightarrow> False | Inr v \<Rightarrow> True)"

definition positiveValue :: "etherscanTx \<Rightarrow> bool" where
  "positiveValue t = (case BigNumber_from (es_value t) of Inl e \<Rightarrow> False | Inr v \<Rightarrow> 0 < v)"

text \<open>
  The verifier as the specification words it (section 4.2, steps 1 to 7), to be compared
  with \<open>txMapper\<close>: the first check that applies decides.
\<close>

datatype verdict =
    NotFound
  | Pending
  | Stale
  | ContractCreation
  | NotASweep
  | ZeroValue
  | UnsupportedFeeModel
  | Eligible

definition staleBlock :: "app_context \<Rightarrow> Order \<Rightarrow> nat \<Rightarrow> bool" where
  "staleBlock ctx order bn =
     (case getBlock ctx bn of None \<Rightarrow> False
      | Some blk \<Rightarrow> int (timestamp blk) * 1000 < createdAt order)"

definition verify_spec :: "app_context \<Rightarrow> Order \<Rightarrow> etherscanTx \<Rightarrow> verdict" where
  "verify_spec ctx order summary =
     (case getTransaction ctx (es_hash summary) of
        None \<Rightarrow> NotFound
      | Some tx \<Rightarrow>
        (case tx_blockNumber tx of
           None \<Rightarrow> Pending
         | Some bn \<Rightarrow>
           if staleBlock ctx order bn then Stale
           else if tx_to tx = None \<or> tx_to tx = Some [] then ContractCreation
           else if map_option toLowerCase (tx_to tx) \<noteq> Some (toLowerCase (account ctx))
             then NotASweep
           else if \<not> 0 < tx_value tx then ZeroValue
           else if tx_gasPrice tx = None then UnsupportedFeeModel
           else Eligible))"

text \<open>
  What the node is expected to answer for a summary: a sender, and for a transaction with
  a block number a block hash, a block number other than 0 and a block to be found there.
\<close>

definition resolvesWellFormed :: "app_context \<Rightarrow> etherscanTx \<Rightarrow> bool" where
  "resolvesWellFormed ctx summary =
     (case getTransaction ctx (es_hash summary) of
        None \<Rightarrow> True
      | Some tx \<Rightarrow>
          tx_from tx \<noteq> [] \<and>
          (case tx_blockNumber tx of
             None \<Rightarrow> True
           | Some bn \<Rightarrow> bn \<noteq> 0 \<and> tx_blockHash tx \<noteq> None \<and> getBlock ctx bn \<noteq> None))"

text \<open>
  A page that lets the loop go on: it is fetched, it is not empty, and nothing is thrown
  while it is filtered and its candidates are verified.
\<close>

definition pageProceeds ::
  "page_source \<Rightarrow> app_context \<Rightarrow> Order \<Rightarrow> string \<Rightarrow> string \<Rightarrow> nat \<Rightarrow> bool" where
  "pageProceeds getPage ctx order oid addr p =
     (case getPage addr (createdAtBlockNumber order) p of
        Inl e \<Rightarrow> False
      | Inr txs \<Rightarrow> txs \<noteq> [] \<and> fst (processPage ctx order oid txs noWorld) = Inr ())"


text \<open>The candidates of a page in the order in which their mappers settle.\<close>

definition settleOrder :: "app_context \<Rightarrow> etherscanTx list \<Rightarrow> etherscanTx list" where
  "settleOrder ctx xs = sort_key (\<lambda>s. settleTime ctx (es_hash s)) xs"

subsection \<open>An example: one order, three transactions\<close>

text \<open>
  Order \<open>o1\<close> was created at second 100 (block 100). Transaction \<open>X\<close> is a sweep in block
  105, \<open>Y\<close> a sweep in block 50, before the order, and \<open>Z\<close> a sweep without a legacy gas
  price. An older order \<open>o0\<close> had the same deposit address.
\<close>

definition order1 :: Order where
  "order1 = \<lparr>order_id = ''o1'', depositAddress = Some \<lparr>address = ''0xd1''\<rparr>,
             depositMethod = ''eth'', createdAt = 100000, createdAtBlockNumber = 100\<rparr>"

definition order0 :: Order where
  "order0 = \<lparr>order_id = ''o0'', depositAddress = Some \<lparr>address = ''0xd1''\<rparr>,
             depositMethod = ''eth'', createdAt = 20000, createdAtBlockNumber = 20\<rparr>"

definition txX :: transaction where
  "txX = \<lparr>tx_hash = ''X'', tx_blockHash = Some ''b105'', tx_blockNumber = Some 105,
          tx_from = ''0xd1'', tx_to = Some ''0xACC'', tx_value = 5, tx_gasLimit = 21000,
          tx_gasPrice = Some 2\<rparr>"

definition txY :: transaction where
  "txY = \<lparr>tx_hash = ''Y'', tx_blockHash = Some ''b50'', tx_blockNumber = Some 50,
          tx_from = ''0xd1'', tx_to = Some ''0xACC'', tx_value = 3, tx_gasLimit = 21000,
          tx_gasPrice = Some 2\<rparr>"

definition txZ :: transaction where
  "txZ = \<lparr>tx_hash = ''Z'', tx_blockHash = Some ''b105'', tx_blockNumber = Some 105,
          tx_from = ''0xd1'', tx_to = Some ''0xACC'', tx_value = 7, tx_gasLimit = 21000,
          tx_gasPrice = None\<rparr>"

text \<open>
  Four more transactions: \<open>P\<close> is pending, \<open>C\<close> creates a contract, \<open>N\<close> goes to
  another address than the sweep account, and \<open>V\<close> moves no value.
\<close>

definition txP :: transaction where
  "txP = \<lparr>tx_hash = ''P'', tx_blockHash = None, tx_blockNumber = None,
          tx_from = ''0xd1'', tx_to = Some ''0xACC'', tx_value = 4, tx_gasLimit = 21000,
          tx_gasPrice = Some 2\<rparr>"

definition txC :: transaction where
  "txC = \<lparr>tx_hash = ''C'', tx_blockHash = Some ''b105'', tx_blockNumber = Some 105,
          tx_from = ''0xd1'', tx_to = None, tx_value = 4, tx_gasLimit = 21000,
          tx_gasPrice = Some 2\<rparr>"

definition txN :: transaction where
  "txN = \<lparr>tx_hash = ''N'', tx_blockHash = Some ''b105'', tx_blockNumber = Some 105,
          tx_from = ''0xd1'', tx_to = Some ''0xbee'', tx_value = 4, tx_gasLimit = 21000,
          tx_gasPrice = Some 2\<rparr>"

definition txV :: transaction where
  "txV = \<lparr>tx_hash = ''V'', tx_blockHash = Some ''b105'', tx_blockNumber = Some 105,
          tx_from = ''0xd1'', tx_to = Some ''0xACC'', tx_value = 0, tx_gasLimit = 21000,
          tx_gasPrice = Some 2\<rparr>"

definition nodeTransaction :: "string \<Rightarrow> transaction option" where
  "nodeTransaction h =
     (if h = ''X'' then Some txX else if h = ''Y'' then Some txY
      else if h = ''Z'' then Some txZ else if h = ''P'' then Some txP
      else if h = ''C'' then Some txC else if h = ''N'' then Some txN
      else if h = ''V'' then Some txV else None)"

definition nodeBlock :: "nat \<Rightarrow> block option" where
  "nodeBlock n =
     (if n = 105 then Some \<lparr>timestamp = 105\<rparr> else if n = 50 then Some \<lparr>timestamp = 50\<rparr>
      else None)"

definition summaryOf :: "string \<Rightarrow> string \<Rightarrow> etherscanTx" where
  "summaryOf h v = \<lparr>es_hash = h, es_from = ''0xd1'', es_to = ''0xacc'', es_value = v\<rparr>"

definition txJson :: "etherscanTx \<Rightarrow> json" where
  "txJson t = JObject [(''hash'', JString (es_hash t)), (''from'', JString (es_from t)),
                       (''to'', JString (es_to t)), (''value'', JString (es_value t))]"

text \<open>The envelope in which Etherscan sends a result.\<close>

definition etherscanEnvelope :: "json \<Rightarrow> json" where
  "etherscanEnvelope result =
     JObject [(''status'', JString ''1''), (''message'', JString ''OK''), (''result'', result)]"

definition okResponse :: "json \<Rightarrow> axiosResponse" where
  "okResponse body = \<lparr>data = body, status = 200, statusText = ''OK'', headers = JObject []\<rparr>"

definition exampleCtx :: app_context where
  "exampleCtx =
     \<lparr>etherscanApiKey = ''KEY'', account = ''0xacc'',
      nativeMethod = \<lparr>method_id = ''eth'', asset = ''ETH''\<rparr>,
      db = [order1], getTransaction = nodeTransaction, getBlock = nodeBlock,
      axios_get = (\<lambda>url. Inr (okResponse (JArray [txJson (summaryOf ''X'' ''5'')]))),
      getEthereumNativeDepositUniqueId = (\<lambda>m h. method_id m @ '':'' @ h),
      settleTime = (\<lambda>h. 0)\<rparr>"

definition pagesA :: page_source where
  "pagesA a sb p = (if p = 1 then Inr [summaryOf ''X'' ''5'', summaryOf ''Y'' ''3''] else Inr [])"

definition pagesC :: page_source where
  "pagesC a sb p = (if p = 1 then Inr [summaryOf ''Z'' ''7''] else Inr [])"

text \<open>
  The example with the older order \<open>o0\<close> still in the table (the deposit address was
  reassigned), and with no order at all.
\<close>

definition reassignedCtx :: app_context where
  "reassignedCtx = exampleCtx\<lparr>db := [order0, order1]\<rparr>"

definition forgottenCtx :: app_context where
  "forgottenCtx = exampleCtx\<lparr>db := []\<rparr>"

text \<open>A page with thirteen summaries, twelve of them with a positive value.\<close>

definition densePage :: "etherscanTx list" where
  "densePage =
     [summaryOf ''a'' ''1'', summaryOf ''b'' ''0'', summaryOf ''c'' ''2'', summaryOf ''d'' ''0x3'',
      summaryOf ''e'' ''4'', summaryOf ''f'' ''5'', summaryOf ''g'' ''6'', summaryOf ''h'' ''7'',
      summaryOf ''i'' ''8'', summaryOf ''j'' ''9'', summaryOf ''k'' ''10'', summaryOf ''l'' ''11'',
      summaryOf ''m'' ''12'']"

text \<open>
  A page source whose requests fail, and an order whose deposit address was unassigned.
\<close>

definition pagesF :: page_source where
  "pagesF a sb p = Inl (AxiosError ''Network Error'')"

definition order2 :: Order where
  "order2 = \<lparr>order_id = ''o2'', depositAddress = None,
             depositMethod = ''eth'', createdAt = 100000, createdAtBlockNumber = 100\<rparr>"

definition unassignedCtx :: app_context where
  "unassignedCtx = exampleCtx\<lparr>db := [order2]\<rparr>"

text \<open>
  The dense page as page 1 of an address, with a node that resolves every hash to a sweep
  in block 105.
\<close>

definition sweepOf :: "string \<Rightarrow> transaction" where
  "sweepOf h = \<lparr>tx_hash = h, tx_blockHash = Some ''b105'', tx_blockNumber = Some 105,
                tx_from = ''0xd1'', tx_to = Some ''0xACC'', tx_value = 5, tx_gasLimit = 21000,
                tx_gasPrice = Some 2\<rparr>"

definition denseCtx :: app_context where
  "denseCtx = exampleCtx\<lparr>getTransaction := (\<lambda>h. Some (sweepOf h))\<rparr>"


text \<open>
  A page on which two candidates throw: \<open>Z\<close> has no legacy gas price, and \<open>B\<close> is in
  block 7, for which the node answers \<^verbatim>\<open>null\<close>. The mapper of \<open>B\<close>, the second in the
  page, settles first.
\<close>

definition txB :: transaction where
  "txB = \<lparr>tx_hash = ''B'', tx_blockHash = Some ''b7'', tx_blockNumber = Some 7,
          tx_from = ''0xd1'', tx_to = Some ''0xACC'', tx_value = 4, tx_gasLimit = 21000,
          tx_gasPrice = Some 2\<rparr>"

definition racingCtx :: app_context where
  "racingCtx = exampleCtx\<lparr>getTransaction := (\<lambda>h. if h = ''B'' then Some txB else nodeTransaction h),
                          settleTime := (\<lambda>h. if h = ''Z'' then 2 else 1)\<rparr>"

definition pagesR :: page_source where
  "pagesR a sb p = (if p = 1 then Inr [summaryOf ''Z'' ''7'', summaryOf ''B'' ''4''] else Inr [])"

text \<open>A page with a value in hexadecimal with an upper-case prefix.\<close>

definition pagesH :: page_source where
  "pagesH a sb p = (if p = 1 then Inr [summaryOf ''X'' ''0X5''] else Inr [])"

section \<open>Properties\<close>

subsection \<open>Decimal strings are exact\<close>

lemma small_digit: "d < 10 \<Longrightarrow> d \<in> {0, 1, 2, 3, 4, 5, 6, 7, 8, 9::nat}"
  by auto

lemma digitVal_digitChar: "d < 10 \<Longrightarrow> digitVal (digitChar d) = d"
  using small_digit [of d] by (auto simp: digitVal_def digitChar_def)

lemma isDigit_digitChar: "d < 10 \<Longrightarrow> isDigit (digitChar d)"
  using small_digit [of d] by (auto simp: isDigit_def digitChar_def)

lemma fromDigits_snoc: "fromDigits b v (s @ [c]) = fromDigits b v s * b + v c"
  by (simp add: fromDigits_def)

lemma toString_nonempty: "toString n \<noteq> []"
  by (subst toString.simps) simp

lemma toString_digits: "list_all isDigit (toString n)"
proof (induction n rule: toString.induct)
  case (1 n)
  show ?case
  proof (cases "n < 10")
    case True
    then show ?thesis by (subst toString.simps) (simp add: isDigit_digitChar)
  next
    case False
    with 1 show ?thesis by (subst toString.simps) (simp add: isDigit_digitChar)
  qed
qed

lemma fromDigits_toString: "fromDigits 10 digitVal (toString n) = n"
proof (induction n rule: toString.induct)
  case (1 n)
  show ?case
  proof (cases "n < 10")
    case True
    then show ?thesis
      by (subst toString.simps) (simp add: fromDigits_def digitVal_digitChar)
  next
    case False
    with 1 show ?thesis
      by (subst toString.simps) (simp add: fromDigits_snoc digitVal_digitChar)
  qed
qed

lemma isDecimalNumeral_toString: "isDecimalNumeral (toString n)"
  by (simp add: isDecimalNumeral_def toString_nonempty toString_digits)

lemma ns_parse_toString: "ns_parse (toString n) = Some n"
  by (simp add: ns_parse_def isDecimalNumeral_toString fromDigits_toString)

lemma ns_sum_toString: "ns_sum (toString a) (toString b) = toString (a + b)"
  by (simp add: ns_sum_def ns_parse_toString)

lemma ns_times_toString: "ns_times (toString a) (toString b) = toString (a * b)"
  by (simp add: ns_times_def ns_parse_toString)

lemma digits_not_hex: "list_all isDigit s \<Longrightarrow> \<not> isHexNumeral s"
  by (cases s; cases "tl s") (auto simp: isHexNumeral_def isDigit_def)

lemma digits_unsigned: "list_all isDigit s \<Longrightarrow> unsignedPart s = s \<and> \<not> isNegative s"
  by (cases s) (auto simp: unsignedPart_def isNegative_def isDigit_def)

lemma BigNumber_from_toString: "BigNumber_from (toString n) = Inr (int n)"
  using digits_unsigned [OF toString_digits, of n] digits_not_hex [OF toString_digits, of n]
  by (simp add: BigNumber_from_def isDecimalNumeral_toString fromDigits_toString)

lemma formatEther_string_toString: "formatEther_string (toString n) = Inr (formatEther (int n))"
  by (simp add: formatEther_string_def BigNumber_from_toString)

lemma total_as_ether:
  "formatEther_string (ns_sum (toString v) (ns_times (toString g) (toString p)))
     = Inr (formatEther (int (v + g * p)))"
  by (simp add: ns_times_toString ns_sum_toString formatEther_string_toString)


subsection \<open>formatEther is injective on the natural numbers\<close>

lemma toString_inj: "toString a = toString b \<Longrightarrow> a = b"
  by (metis fromDigits_toString)

lemma split_at_dot:
  "list_all isDigit A \<Longrightarrow> list_all isDigit B \<Longrightarrow> A @ CHR ''.'' # F = B @ CHR ''.'' # G
     \<Longrightarrow> A = B \<and> F = G"
proof (induction A arbitrary: B)
  case Nil
  then show ?case by (cases B) (auto simp: isDigit_def)
next
  case (Cons a A)
  show ?case
  proof (cases B)
    case Nil
    with Cons.prems show ?thesis by (auto simp: isDigit_def)
  next
    case (Cons b B')
    with Cons.prems Cons.IH [of B'] show ?thesis by auto
  qed
qed

lemma length_toString: "0 < k \<Longrightarrow> n < 10 ^ k \<Longrightarrow> length (toString n) \<le> k"
proof (induction n arbitrary: k rule: toString.induct)
  case (1 n)
  show ?case
  proof (cases "n < 10")
    case True
    with "1.prems" show ?thesis by (subst toString.simps) simp
  next
    case False
    from "1.prems" obtain k' where k: "k = Suc k'" by (cases k) auto
    from False "1.prems" k have k': "0 < k'" by (cases k') auto
    from "1.prems" k have "n div 10 < 10 ^ k'"
      by (simp add: div_less_iff_less_mult mult.commute)
    from "1.IH" [OF False k' this] k False show ?thesis
      by (subst toString.simps) simp
  qed
qed

lemma fromDigits_zeros:
  "fromDigits 10 digitVal (replicate k (CHR ''0'') @ s) = fromDigits 10 digitVal s"
  by (induction k) (simp_all add: fromDigits_def digitVal_def)

lemma fromDigits_padFraction: "fromDigits 10 digitVal (padFraction (toString m)) = m"
  by (simp add: padFraction_def fromDigits_zeros fromDigits_toString)

lemma length_padFraction: "m < 10 ^ 18 \<Longrightarrow> length (padFraction (toString m)) = 18"
  using length_toString [of 18 m] by (simp add: padFraction_def)

lemma strip_restores:
  assumes "s \<noteq> []"
  shows "s = stripTrailingZeros s
               @ replicate (length s - length (stripTrailingZeros s)) (CHR ''0'')"
proof -
  let ?z = "takeWhile (\<lambda>c. c = CHR ''0'') (rev s)"
  let ?t = "dropWhile (\<lambda>c. c = CHR ''0'') (rev s)"
  have s: "s = rev ?t @ rev ?z"
    by (metis rev_append rev_rev_ident takeWhile_dropWhile_id)
  have "\<forall>c \<in> set ?z. c = CHR ''0''" by (auto dest: set_takeWhileD)
  then have "replicate (length ?z) (CHR ''0'') = ?z" by (rule replicate_length_same)
  then have "rev ?z = rev (replicate (length ?z) (CHR ''0''))" by simp
  then have z: "rev ?z = replicate (length ?z) (CHR ''0'')" by simp
  have len: "length s = length ?t + length ?z"
    using arg_cong [OF s, of length] by simp
  have st: "stripTrailingZeros s = (if ?t = [] then ''0'' else rev ?t)"
    unfolding stripTrailingZeros_def Let_def by (simp only: rev_is_Nil_conv)
  show ?thesis
  proof (cases "?t = []")
    case True
    with s z have all: "s = replicate (length ?z) (CHR ''0'')" by simp
    from True len have "length ?z = length s" by simp
    with assms obtain n where n: "length ?z = Suc n" "length s = Suc n" by (cases "length s") auto
    from True st have "stripTrailingZeros s = ''0''" by simp
    with all n show ?thesis by simp
  next
    case False
    with st have "stripTrailingZeros s = rev ?t" by auto
    with s z len show ?thesis by simp
  qed
qed

lemma strip_inj:
  assumes "length s = length s'" "s \<noteq> []"
    and "stripTrailingZeros s = stripTrailingZeros s'"
  shows "s = s'"
proof -
  from assms(1,2) have n: "s' \<noteq> []" by auto
  have a: "s = stripTrailingZeros s
      @ replicate (length s - length (stripTrailingZeros s)) (CHR ''0'')"
    by (rule strip_restores [OF assms(2)])
  have b: "s' = stripTrailingZeros s'
      @ replicate (length s' - length (stripTrailingZeros s')) (CHR ''0'')"
    by (rule strip_restores [OF n])
  have c: "stripTrailingZeros s @ replicate (length s - length (stripTrailingZeros s)) (CHR ''0'')
      = stripTrailingZeros s' @ replicate (length s' - length (stripTrailingZeros s')) (CHR ''0'')"
    by (simp only: assms(1,3))
  show ?thesis by (rule trans [OF a trans [OF c b [symmetric]]])
qed

lemma fraction_inj:
  assumes "a < 10 ^ 18" "b < 10 ^ 18"
    and "stripTrailingZeros (padFraction (toString a)) = stripTrailingZeros (padFraction (toString b))"
  shows "a = b"
proof -
  have la: "length (padFraction (toString a)) = 18"
    using assms(1) by (rule length_padFraction)
  have lb: "length (padFraction (toString b)) = 18"
    using assms(2) by (rule length_padFraction)
  from la have ne: "padFraction (toString a) \<noteq> []" by auto
  from la lb have "length (padFraction (toString a)) = length (padFraction (toString b))"
    by simp
  from strip_inj [OF this ne assms(3)]
  have "fromDigits 10 digitVal (padFraction (toString a))
      = fromDigits 10 digitVal (padFraction (toString b))" by simp
  then show ?thesis by (simp only: fromDigits_padFraction)
qed

lemma formatEther_nat:
  "formatEther (int n) = toString (n div 10 ^ 18) @ CHR ''.''
       # stripTrailingZeros (padFraction (toString (n mod 10 ^ 18)))"
  by (simp add: formatEther_def Let_def)

lemma formatEther_inj:
  assumes "formatEther (int a) = formatEther (int b)"
  shows "a = b"
proof -
  have e: "toString (a div 10 ^ 18) @ CHR ''.''
        # stripTrailingZeros (padFraction (toString (a mod 10 ^ 18)))
      = toString (b div 10 ^ 18) @ CHR ''.''
        # stripTrailingZeros (padFraction (toString (b mod 10 ^ 18)))"
    using assms by (simp only: formatEther_nat)
  from split_at_dot [OF toString_digits toString_digits e]
  have w: "toString (a div 10 ^ 18) = toString (b div 10 ^ 18)"
    and f: "stripTrailingZeros (padFraction (toString (a mod 10 ^ 18)))
        = stripTrailingZeros (padFraction (toString (b mod 10 ^ 18)))"
    by blast+
  from w have d: "a div 10 ^ 18 = b div 10 ^ 18" by (rule toString_inj)
  have "a mod 10 ^ 18 < 10 ^ 18" "b mod 10 ^ 18 < 10 ^ 18" by simp_all
  from fraction_inj [OF this f] have m: "a mod 10 ^ 18 = b mod 10 ^ 18" .
  from d m show ?thesis by (metis div_mult_mod_eq)
qed

subsection \<open>What a scan adds to the world does not depend on the world\<close>

lemma creditAll_Nil [simp]: "creditAll ds [] = ds"
  by (simp add: creditAll_def)

lemma creditAll_append: "creditAll ds (a @ b) = creditAll (creditAll ds a) b"
  by (simp add: creditAll_def)

lemma creditAll_single:
  "creditAll ds [r] = (if uniqueId r \<in> uniqueId ` set ds then ds else ds @ [r])"
  by (simp add: creditAll_def)

lemma scanTxid_requests:
  "requests (snd (scanTxid ctx tx w)) = requests w @ requests (snd (scanTxid ctx tx noWorld))"
  by (simp add: scanTxid_def maybeInternalCreateDeposit_def logger_def noWorld_def Let_def
        split: option.splits sum.splits)


lemma scanTxid_fetched: "fetched (snd (scanTxid ctx tx w)) = fetched w"
  by (simp add: scanTxid_def maybeInternalCreateDeposit_def logger_def Let_def
        split: option.splits sum.splits)

lemma scanTxid_thrown:
  "(case fst (scanTxid ctx tx w) of Inl e \<Rightarrow> Some e | Inr b \<Rightarrow> None)
     = (case fst (scanTxid ctx tx noWorld) of Inl e \<Rightarrow> Some e | Inr b \<Rightarrow> None)"
  by (simp add: scanTxid_def maybeInternalCreateDeposit_def logger_def noWorld_def Let_def
        split: option.splits sum.splits)


lemma requests_noWorld [simp]: "requests noWorld = []"
  and deposits_noWorld [simp]: "deposits noWorld = []"
  and fetched_noWorld [simp]: "fetched noWorld = []"
  and lookups_noWorld [simp]: "lookups noWorld = []"
  and logs_noWorld [simp]: "logs noWorld = []"
  by (simp_all add: noWorld_def)

lemma logger_fields [simp]:
  "requests (logger lvl m w) = requests w"
  "deposits (logger lvl m w) = deposits w"
  "fetched (logger lvl m w) = fetched w"
  "lookups (logger lvl m w) = lookups w"
  "logs (logger lvl m w) = logs w @ [(lvl, m)]"
  by (simp_all add: logger_def)

lemma discard_result:
  "(case p of (Inl e, w1) \<Rightarrow> (Inl e, w1) | (Inr b, w1) \<Rightarrow> (Inr (), w1))
     = ((case fst p of Inl e \<Rightarrow> Inl e | Inr b \<Rightarrow> Inr ()), snd p)"
  by (cases p; cases "fst p") auto

lemma scanTxid_new_indep:
  "requests (snd (scanTxid ctx tx (logger lvl m noWorld))) = requests (snd (scanTxid ctx tx noWorld))"
  using scanTxid_requests [of ctx tx "logger lvl m noWorld"] by simp

lemma scanTxid_thrown_any:
  "(case fst (scanTxid ctx tx w) of Inl e \<Rightarrow> Inl e | Inr b \<Rightarrow> Inr ())
     = (case fst (scanTxid ctx tx w') of Inl e \<Rightarrow> Inl e | Inr b \<Rightarrow> Inr ())"
  using scanTxid_thrown [of ctx tx w] scanTxid_thrown [of ctx tx w']
  by (auto split: sum.splits)

lemma txMapper_requests:
  "requests (snd (txMapper ctx order oid s w))
     = requests w @ requests (snd (txMapper ctx order oid s noWorld))"
  using scanTxid_requests [of ctx _ "logger Info (ScanningTx (es_hash s)) w"]
  by (simp add: txMapper_def discard_result scanTxid_new_indep split: option.splits)


lemma txMapper_fetched: "fetched (snd (txMapper ctx order oid s w)) = fetched w"
  by (simp add: txMapper_def discard_result scanTxid_fetched split: option.splits)

lemma txMapper_result: "fst (txMapper ctx order oid s w) = fst (txMapper ctx order oid s w')"
  using scanTxid_thrown_any [of ctx _ "logger Info (ScanningTx (es_hash s)) w"
      "logger Info (ScanningTx (es_hash s)) w'"]
  by (simp add: txMapper_def discard_result split: option.splits)

lemma runMappers_Cons_snd: "snd (runMappers f (x # xs) w) = snd (runMappers f xs (snd (f x w)))"
  by (simp split: prod.splits)

lemma runMappers_Cons_fst:
  "fst (runMappers f (x # xs) w)
     = (case fst (f x w) of Inl e \<Rightarrow> Inl e | Inr u \<Rightarrow> fst (runMappers f xs (snd (f x w))))"
  by (cases "f x w"; cases "runMappers f xs (snd (f x w))") (auto split: sum.splits)

lemma runMappers_result:
  "fst (runMappers (txMapper ctx order oid) xs w) = fst (runMappers (txMapper ctx order oid) xs w')"
proof (induction xs arbitrary: w w')
  case Nil
  show ?case by simp
next
  case (Cons x xs)
  show ?case
    unfolding runMappers_Cons_fst
    using txMapper_result [of ctx order oid x w w']
      Cons.IH [of "snd (txMapper ctx order oid x w)" "snd (txMapper ctx order oid x w')"]
    by (simp split: sum.splits)
qed

lemma runMappers_requests:
  "requests (snd (runMappers (txMapper ctx order oid) xs w))
     = requests w @ requests (snd (runMappers (txMapper ctx order oid) xs noWorld))"
proof (induction xs arbitrary: w)
  case Nil
  show ?case by simp
next
  case (Cons x xs)
  show ?case
    unfolding runMappers_Cons_snd
    using Cons.IH [of "snd (txMapper ctx order oid x w)"]
      Cons.IH [of "snd (txMapper ctx order oid x noWorld)"]
      txMapper_requests [of ctx order oid x w]
    by simp
qed


lemma runMappers_fetched: "fetched (snd (runMappers (txMapper ctx order oid) xs w)) = fetched w"
proof (induction xs arbitrary: w)
  case Nil
  show ?case by simp
next
  case (Cons x xs)
  show ?case
    unfolding runMappers_Cons_snd by (simp add: Cons.IH txMapper_fetched)
qed


lemma scanTxid_lookups: "lookups (snd (scanTxid ctx tx w)) = lookups w"
  by (simp add: scanTxid_def maybeInternalCreateDeposit_def logger_def Let_def
        split: option.splits sum.splits)

lemma txMapper_lookups: "lookups (snd (txMapper ctx order oid s w)) = lookups w"
  by (simp add: txMapper_def discard_result scanTxid_lookups split: option.splits)

lemma runMappers_lookups: "lookups (snd (runMappers (txMapper ctx order oid) xs w)) = lookups w"
proof (induction xs arbitrary: w)
  case Nil
  show ?case by simp
next
  case (Cons x xs)
  show ?case
    unfolding runMappers_Cons_snd by (simp add: Cons.IH txMapper_lookups)
qed

lemma fold_askNode: "fold askNode xs w = w\<lparr>lookups := lookups w @ map es_hash xs\<rparr>"
  by (induction xs arbitrary: w) (simp_all add: askNode_def)

lemma set_settleOrder: "set (settleOrder ctx xs) = set xs"
  by (simp add: settleOrder_def)

lemma processPage_candidates:
  "filterPositive txs = Inr positive \<Longrightarrow>
     processPage ctx order oid txs w
       = runMappers (txMapper ctx order oid) (settleOrder ctx (take 10 positive))
           ((logger Info (FoundTransactions (length (take 10 positive)) oid) w)
              \<lparr>lookups := lookups w @ map es_hash (take 10 positive)\<rparr>)"
  by (simp add: processPage_def Let_def pMap_def fold_askNode settleOrder_def)

lemma processPage_requests_of:
  "filterPositive txs = Inr positive \<Longrightarrow>
     requests (snd (processPage ctx order oid txs w))
       = requests w @ requests (snd (runMappers (txMapper ctx order oid)
                                       (settleOrder ctx (take 10 positive)) noWorld))"
  unfolding processPage_candidates
  using runMappers_requests [of ctx order oid "settleOrder ctx (take 10 positive)"
      "(logger Info (FoundTransactions (length (take 10 positive)) oid) w)
         \<lparr>lookups := lookups w @ map es_hash (take 10 positive)\<rparr>"]
  by simp

lemma processPage_requests:
  "requests (snd (processPage ctx order oid txs w))
     = requests w @ requests (snd (processPage ctx order oid txs noWorld))"
proof (cases "filterPositive txs")
  case (Inl e)
  then show ?thesis by (simp add: processPage_def)
next
  case (Inr positive)
  show ?thesis
    by (simp add: processPage_requests_of [OF Inr])
qed


lemma processPage_fetched: "fetched (snd (processPage ctx order oid txs w)) = fetched w"
proof (cases "filterPositive txs")
  case (Inl e)
  then show ?thesis by (simp add: processPage_def)
next
  case (Inr positive)
  show ?thesis
    by (simp add: processPage_candidates [OF Inr] runMappers_fetched)
qed

lemma processPage_result:
  "fst (processPage ctx order oid txs w) = fst (processPage ctx order oid txs w')"
proof (cases "filterPositive txs")
  case (Inl e)
  then show ?thesis by (simp add: processPage_def)
next
  case (Inr positive)
  show ?thesis
    unfolding processPage_candidates [OF Inr] by (rule runMappers_result)
qed

lemma pageLoop_Suc:
  "pageLoop (Suc fuel) getPage ctx order oid addr p w =
     (case getPage addr (createdAtBlockNumber order) p of
        Inl e \<Rightarrow> (Some (Inr FetchFailed),
                  logger ErrorLevel (ErrorFetchingTxs e oid)
                    (w\<lparr>fetched := fetched w @ [(addr, createdAtBlockNumber order, p)]\<rparr>))
      | Inr txs \<Rightarrow>
          if txs = [] then (Some (Inr NoMorePages),
                            w\<lparr>fetched := fetched w @ [(addr, createdAtBlockNumber order, p)]\<rparr>)
          else (case fst (processPage ctx order oid txs
                       (w\<lparr>fetched := fetched w @ [(addr, createdAtBlockNumber order, p)]\<rparr>)) of
                  Inl e \<Rightarrow> (Some (Inl e), snd (processPage ctx order oid txs
                       (w\<lparr>fetched := fetched w @ [(addr, createdAtBlockNumber order, p)]\<rparr>)))
                | Inr u \<Rightarrow> pageLoop fuel getPage ctx order oid addr (p + 1)
                     (snd (processPage ctx order oid txs
                       (w\<lparr>fetched := fetched w @ [(addr, createdAtBlockNumber order, p)]\<rparr>)))))"
  by (simp add: Let_def split: sum.splits prod.splits)

lemma pageLoop_result:
  "fst (pageLoop fuel getPage ctx order oid addr p w)
     = fst (pageLoop fuel getPage ctx order oid addr p w')"
proof (induction fuel arbitrary: p w w')
  case 0
  show ?case by simp
next
  case (Suc fuel)
  show ?case
  proof (cases "getPage addr (createdAtBlockNumber order) p")
    case (Inl e)
    then show ?thesis by (simp add: pageLoop_Suc del: pageLoop.simps)
  next
    case (Inr txs)
    let ?w1 = "w\<lparr>fetched := fetched w @ [(addr, createdAtBlockNumber order, p)]\<rparr>"
    let ?w1' = "w'\<lparr>fetched := fetched w' @ [(addr, createdAtBlockNumber order, p)]\<rparr>"
    have r: "fst (processPage ctx order oid txs ?w1) = fst (processPage ctx order oid txs ?w1')"
      by (rule processPage_result)
    show ?thesis
      using Inr r Suc.IH [of "p + 1" "snd (processPage ctx order oid txs ?w1)"
          "snd (processPage ctx order oid txs ?w1')"]
      by (simp add: pageLoop_Suc del: pageLoop.simps split: sum.splits)
  qed
qed

lemma pageLoop_requests:
  "requests (snd (pageLoop fuel getPage ctx order oid addr p w))
     = requests w @ requests (snd (pageLoop fuel getPage ctx order oid addr p noWorld))"
proof (induction fuel arbitrary: p w)
  case 0
  show ?case by simp
next
  case (Suc fuel)
  show ?case
  proof (cases "getPage addr (createdAtBlockNumber order) p")
    case (Inl e)
    then show ?thesis by (simp add: pageLoop_Suc del: pageLoop.simps)
  next
    case (Inr txs)
    let ?w1 = "w\<lparr>fetched := fetched w @ [(addr, createdAtBlockNumber order, p)]\<rparr>"
    let ?w0 = "noWorld\<lparr>fetched := fetched noWorld @ [(addr, createdAtBlockNumber order, p)]\<rparr>"
    have r: "fst (processPage ctx order oid txs ?w1) = fst (processPage ctx order oid txs ?w0)"
      by (rule processPage_result)
    have q1: "requests (snd (processPage ctx order oid txs ?w1))
        = requests w @ requests (snd (processPage ctx order oid txs noWorld))"
      using processPage_requests [of ctx order oid txs ?w1] by simp
    have q0: "requests (snd (processPage ctx order oid txs ?w0))
        = requests (snd (processPage ctx order oid txs noWorld))"
      using processPage_requests [of ctx order oid txs ?w0] by simp
    show ?thesis
      using Inr r q1 q0 Suc.IH [of "p + 1" "snd (processPage ctx order oid txs ?w1)"]
        Suc.IH [of "p + 1" "snd (processPage ctx order oid txs ?w0)"]
      by (simp add: pageLoop_Suc del: pageLoop.simps split: sum.splits)
  qed
qed


lemma orderTask_result:
  "fst (orderTask fuel getPage ctx oid w) = fst (orderTask fuel getPage ctx oid w')"
  using pageLoop_result [of fuel getPage ctx _ oid _ 1 "logger Info (ProcessingQueuedTask oid) w"
      "logger Info (ProcessingQueuedTask oid) w'"]
  by (simp add: orderTask_def Let_def split: option.splits)

lemma orderTask_requests:
  "requests (snd (orderTask fuel getPage ctx oid w))
     = requests w @ requests (snd (orderTask fuel getPage ctx oid noWorld))"
  using pageLoop_requests [of fuel getPage ctx _ oid _ 1 "logger Info (ProcessingQueuedTask oid) w"]
    pageLoop_requests [of fuel getPage ctx _ oid _ 1 "logger Info (ProcessingQueuedTask oid) noWorld"]
  by (simp add: orderTask_def Let_def split: option.splits)



subsection \<open>The credit service and repeated scans\<close>

lemma creditAll_keys:
  "uniqueId ` set (creditAll ds reqs) = uniqueId ` set ds \<union> uniqueId ` set reqs"
proof (induction reqs arbitrary: ds)
  case Nil
  show ?case by simp
next
  case (Cons r reqs)
  have "creditAll ds (r # reqs) = creditAll (creditAll ds [r]) reqs"
    using creditAll_append [of ds "[r]" reqs] by simp
  then show ?case
    using Cons.IH [of "creditAll ds [r]"] by (auto simp: creditAll_single)
qed

lemma creditAll_absorb:
  "uniqueId ` set reqs \<subseteq> uniqueId ` set ds \<Longrightarrow> creditAll ds reqs = ds"
proof (induction reqs)
  case Nil
  show ?case by simp
next
  case (Cons r reqs)
  have "creditAll ds (r # reqs) = creditAll (creditAll ds [r]) reqs"
    using creditAll_append [of ds "[r]" reqs] by simp
  with Cons show ?case by (simp add: creditAll_single)
qed

lemma creditAll_idem: "creditAll (creditAll ds reqs) reqs = creditAll ds reqs"
  by (rule creditAll_absorb) (simp add: creditAll_keys)



subsection \<open>Where a credit request comes from\<close>

lemma scanTxid_origin:
  "req \<in> set (requests (snd (scanTxid ctx tx noWorld))) \<Longrightarrow> creditOf ctx tx req"
  by (auto simp: scanTxid_def maybeInternalCreateDeposit_def Let_def creditOf_def total_as_ether
        split: option.splits if_splits)

lemma txMapper_origin:
  "req \<in> set (requests (snd (txMapper ctx order oid s noWorld)))
     \<Longrightarrow> verifiedCredit ctx order (es_hash s) req"
  by (auto simp: txMapper_def discard_result verifiedCredit_def scanTxid_new_indep
        dest: scanTxid_origin split: option.splits if_splits)

lemma runMappers_origin:
  "req \<in> set (requests (snd (runMappers (txMapper ctx order oid) xs noWorld)))
     \<Longrightarrow> \<exists>s \<in> set xs. verifiedCredit ctx order (es_hash s) req"
proof (induction xs)
  case Nil
  then show ?case by simp
next
  case (Cons x xs)
  have "requests (snd (runMappers (txMapper ctx order oid) (x # xs) noWorld))
      = requests (snd (txMapper ctx order oid x noWorld))
        @ requests (snd (runMappers (txMapper ctx order oid) xs noWorld))"
    unfolding runMappers_Cons_snd
    using runMappers_requests [of ctx order oid xs "snd (txMapper ctx order oid x noWorld)"] by simp
  with Cons show ?case
    by (auto dest: txMapper_origin)
qed

lemma filterPositive_subset: "filterPositive txs = Inr r \<Longrightarrow> set r \<subseteq> set txs"
  by (induction txs arbitrary: r) (auto split: sum.splits if_splits)

lemma filterPositive_Inr:
  "filterPositive txs = Inr r \<Longrightarrow> r = filter positiveValue txs \<and> (\<forall>t \<in> set txs. numericValue t)"
  by (induction txs arbitrary: r)
    (auto simp: numericValue_def positiveValue_def split: sum.splits if_splits)

lemma processPage_origin:
  assumes "req \<in> set (requests (snd (processPage ctx order oid txs noWorld)))"
  shows "\<exists>s \<in> set txs. verifiedCredit ctx order (es_hash s) req"
proof (cases "filterPositive txs")
  case (Inl e)
  with assms show ?thesis by (simp add: processPage_def)
next
  case (Inr positive)
  let ?c = "take 10 positive"
  from assms have "req \<in> set (requests (snd (runMappers (txMapper ctx order oid)
      (settleOrder ctx ?c) noWorld)))"
    by (simp add: processPage_requests_of [OF Inr])
  from runMappers_origin [OF this]
  obtain s where "s \<in> set ?c" "verifiedCredit ctx order (es_hash s) req"
    by (auto simp: set_settleOrder)
  moreover have "set ?c \<subseteq> set txs"
    using filterPositive_subset [OF Inr] set_take_subset [of 10 positive] by blast
  ultimately show ?thesis by blast
qed

lemma pageLoop_origin:
  "req \<in> set (requests (snd (pageLoop fuel getPage ctx order oid addr p noWorld)))
     \<Longrightarrow> \<exists>q txs s. getPage addr (createdAtBlockNumber order) q = Inr txs \<and> s \<in> set txs
            \<and> verifiedCredit ctx order (es_hash s) req"
proof (induction fuel arbitrary: p)
  case 0
  then show ?case by simp
next
  case (Suc fuel)
  show ?case
  proof (cases "getPage addr (createdAtBlockNumber order) p")
    case (Inl e)
    with Suc.prems show ?thesis by (simp add: pageLoop_Suc del: pageLoop.simps)
  next
    case (Inr txs)
    let ?w0 = "noWorld\<lparr>fetched := fetched noWorld @ [(addr, createdAtBlockNumber order, p)]\<rparr>"
    let ?w2 = "snd (processPage ctx order oid txs ?w0)"
    have q0: "requests ?w2 = requests (snd (processPage ctx order oid txs noWorld))"
      using processPage_requests [of ctx order oid txs ?w0] by simp
    have "req \<in> set (requests ?w2)
        \<or> req \<in> set (requests (snd (pageLoop fuel getPage ctx order oid addr (p + 1) noWorld)))"
      using Suc.prems Inr
        pageLoop_requests [of fuel getPage ctx order oid addr "p + 1" ?w2]
      by (auto simp: pageLoop_Suc simp del: pageLoop.simps split: sum.splits if_splits)
    then show ?thesis
    proof
      assume "req \<in> set (requests ?w2)"
      then show ?thesis using q0 processPage_origin [of req ctx order oid txs] Inr by metis
    next
      assume "req \<in> set (requests (snd (pageLoop fuel getPage ctx order oid addr (p + 1) noWorld)))"
      then show ?thesis by (rule Suc.IH)
    qed
  qed
qed

lemma orderTask_origin:
  assumes "req \<in> set (requests (snd (orderTask fuel getPage ctx oid noWorld)))"
  shows "\<exists>order da q txs s. find (\<lambda>row. order_id row = oid) (db ctx) = Some order
            \<and> depositAddress order = Some da
            \<and> getPage (address da) (createdAtBlockNumber order) q = Inr txs \<and> s \<in> set txs
            \<and> verifiedCredit ctx order (es_hash s) req"
proof (cases "find (\<lambda>row. order_id row = oid) (db ctx)")
  case None
  with assms show ?thesis by (simp add: orderTask_def Let_def)
next
  case (Some order)
  show ?thesis
  proof (cases "depositAddress order")
    case None
    with assms Some show ?thesis by (simp add: orderTask_def Let_def)
  next
    case (Some da)
    let ?w1 = "logger Info (ProcessingQueuedTask oid) noWorld"
    have "req \<in> set (requests (snd (pageLoop fuel getPage ctx order oid (address da) 1 noWorld)))"
      using assms Some \<open>find (\<lambda>row. order_id row = oid) (db ctx) = Some order\<close>
        pageLoop_requests [of fuel getPage ctx order oid "address da" 1 ?w1]
      by (simp add: orderTask_def Let_def)
    from pageLoop_origin [OF this] show ?thesis
      using Some \<open>find (\<lambda>row. order_id row = oid) (db ctx) = Some order\<close> by blast
  qed
qed


lemma creditOf_fields:
  "creditOf ctx tx req \<Longrightarrow>
     \<exists>gasPrice found. tx_gasPrice tx = Some gasPrice
       \<and> fetchOrderForAddress ctx (tx_from tx) = Some found
       \<and> req = \<lparr>orderId = order_id found, txid = tx_hash tx,
                 amount = formatEther (int (tx_value tx + tx_gasLimit tx * gasPrice)),
                 uniqueId = getEthereumNativeDepositUniqueId ctx (nativeMethod ctx) (tx_hash tx)\<rparr>"
  by (auto simp: creditOf_def split: option.splits)

lemma verifiedCredit_fields:
  "verifiedCredit ctx order h req \<Longrightarrow>
     \<exists>tx bn blk. getTransaction ctx h = Some tx \<and> tx_blockNumber tx = Some bn
       \<and> getBlock ctx bn = Some blk \<and> createdAt order \<le> int (timestamp blk) * 1000
       \<and> creditOf ctx tx req"
  by (auto simp: verifiedCredit_def split: option.splits)

lemma orderTask_issued:
  "issuedRequests w (snd (orderTask fuel getPage ctx oid w))
     = requests (snd (orderTask fuel getPage ctx oid noWorld))"
  using orderTask_requests [of fuel getPage ctx oid w] by (simp add: issuedRequests_def)

lemma fetchOrderForAddress_Some:
  "fetchOrderForAddress ctx a = Some found \<Longrightarrow>
     found \<in> set (db ctx) \<and> depositMethod found = method_id (nativeMethod ctx)
     \<and> (\<exists>da. depositAddress found = Some da \<and> address da = a)"
  by (auto simp: fetchOrderForAddress_def find_Some_iff split: option.splits)

lemma primary_key:
  "distinct (map order_id rows) \<Longrightarrow> r \<in> set rows \<Longrightarrow> r' \<in> set rows
     \<Longrightarrow> order_id r' = order_id r \<Longrightarrow> r' = r"
  by (metis distinct_map inj_onD)

lemma nodeTransaction_hash: "nodeTransaction h = Some t \<Longrightarrow> tx_hash t = h"
  by (auto simp: nodeTransaction_def txX_def txY_def txZ_def txP_def txC_def txN_def txV_def
        split: if_splits)

lemma scanTxid_credit:
  assumes "tx_from tx \<noteq> []" "tx_blockHash tx = Some bh" "tx_to tx = Some to" "to \<noteq> []"
    and "toLowerCase to = toLowerCase (account ctx)" "0 < tx_value tx"
    and "tx_gasPrice tx = Some gasPrice"
    and "fetchOrderForAddress ctx (tx_from tx) = Some found"
  shows "requests (snd (scanTxid ctx tx w))
     = requests w @ [\<lparr>orderId = order_id found, txid = tx_hash tx,
          amount = formatEther (int (tx_value tx + tx_gasLimit tx * gasPrice)),
          uniqueId = getEthereumNativeDepositUniqueId ctx (nativeMethod ctx) (tx_hash tx)\<rparr>]"
  using assms
  by (simp add: scanTxid_def total_as_ether maybeInternalCreateDeposit_def Let_def)

lemma scanTxid_no_order:
  assumes "tx_from tx \<noteq> []" "tx_blockHash tx = Some bh" "tx_to tx = Some to" "to \<noteq> []"
    and "toLowerCase to = toLowerCase (account ctx)" "0 < tx_value tx"
    and "tx_gasPrice tx = Some gasPrice"
    and "fetchOrderForAddress ctx (tx_from tx) = None"
  shows "scanTxid ctx tx w = (Inr False, w)"
  using assms by (simp add: scanTxid_def Let_def)

subsection \<open>Filtering, and the verifier's verdict\<close>

lemma filterPositive_numeric:
  "\<forall>t \<in> set txs. numericValue t \<Longrightarrow> filterPositive txs = Inr (filter positiveValue txs)"
  by (induction txs) (auto simp: numericValue_def positiveValue_def split: sum.splits)

lemma filterPositive_not_numeric:
  "\<not> (\<forall>t \<in> set txs. numericValue t) \<Longrightarrow> \<exists>e. filterPositive txs = Inl e"
  by (induction txs) (auto simp: numericValue_def split: sum.splits)

lemma processPage_not_numeric:
  "\<not> (\<forall>t \<in> set txs. numericValue t) \<Longrightarrow> \<exists>e. processPage ctx order oid txs w = (Inl e, w)"
  using filterPositive_not_numeric [of txs] by (auto simp: processPage_def)

lemma txMapper_by_verdict:
  assumes "resolvesWellFormed ctx s"
  shows "txMapper ctx order oid s w =
     (case verify_spec ctx order s of
        NotFound \<Rightarrow> (Inr (), logger ErrorLevel (TransactionNotFound (es_hash s)) w)
      | Pending \<Rightarrow> (Inr (), logger Warn (TransactionHasNoBlockNumber (es_hash s)) w)
      | Stale \<Rightarrow> (Inr (), logger Warn (IgnoringTxBeforeOrder (es_hash s) oid) w)
      | ContractCreation \<Rightarrow> (Inr (), logger Info (ScanningTx (es_hash s)) w)
      | NotASweep \<Rightarrow> (Inr (), logger Info (ScanningTx (es_hash s)) w)
      | ZeroValue \<Rightarrow> (Inr (), logger Info (ScanningTx (es_hash s)) w)
      | UnsupportedFeeModel \<Rightarrow>
          (Inl (Error ''Unsupported EIP-1559 sweep transaction''),
           logger Info (ScanningTx (es_hash s)) w)
      | Eligible \<Rightarrow> (Inr (), snd (txMapper ctx order oid s w)))"
proof (cases "getTransaction ctx (es_hash s)")
  case None
  then show ?thesis by (simp add: txMapper_def verify_spec_def)
next
  case (Some tx)
  show ?thesis
  proof (cases "tx_blockNumber tx")
    case None
    with Some show ?thesis by (simp add: txMapper_def verify_spec_def)
  next
    case (Some bn)
    with assms \<open>getTransaction ctx (es_hash s) = Some tx\<close>
    obtain blk bh where wf: "tx_from tx \<noteq> []" "bn \<noteq> 0" "tx_blockHash tx = Some bh"
        "getBlock ctx bn = Some blk"
      by (auto simp: resolvesWellFormed_def)
    show ?thesis
    proof (cases "int (timestamp blk) * 1000 < createdAt order")
      case True
      with Some wf \<open>getTransaction ctx (es_hash s) = Some tx\<close> show ?thesis
        by (simp add: txMapper_def verify_spec_def staleBlock_def)
    next
      case False
      with Some wf \<open>getTransaction ctx (es_hash s) = Some tx\<close> show ?thesis
        by (cases "tx_to tx"; cases "tx_gasPrice tx";
            cases "fetchOrderForAddress ctx (tx_from tx)")
          (simp_all add: txMapper_def verify_spec_def staleBlock_def scanTxid_def
            total_as_ether maybeInternalCreateDeposit_def Let_def)
    qed
  qed
qed

subsection \<open>How the page loop ends\<close>

lemma pageLoop_skip:
  "(\<forall>j<k. pageProceeds getPage ctx order oid addr (p + j)) \<Longrightarrow> k \<le> fuel \<Longrightarrow>
     \<exists>w'. pageLoop fuel getPage ctx order oid addr p w
            = pageLoop (fuel - k) getPage ctx order oid addr (p + k) w'
        \<and> fetched w' = fetched w @ map (\<lambda>q. (addr, createdAtBlockNumber order, q)) [p..<p + k]"
proof (induction k arbitrary: p w fuel)
  case 0
  show ?case by (intro exI [of _ w]) simp
next
  case (Suc k)
  from Suc.prems(2) obtain fuel' where fuel: "fuel = Suc fuel'" "k \<le> fuel'"
    by (cases fuel) auto
  let ?w1 = "w\<lparr>fetched := fetched w @ [(addr, createdAtBlockNumber order, p)]\<rparr>"
  from Suc.prems(1) have "pageProceeds getPage ctx order oid addr (p + 0)" by blast
  then obtain txs where txs: "getPage addr (createdAtBlockNumber order) p = Inr txs" "txs \<noteq> []"
      "fst (processPage ctx order oid txs noWorld) = Inr ()"
    by (auto simp: pageProceeds_def split: sum.splits)
  let ?w2 = "snd (processPage ctx order oid txs ?w1)"
  have r: "fst (processPage ctx order oid txs ?w1) = Inr ()"
    using txs(3) processPage_result [of ctx order oid txs ?w1 noWorld] by simp
  have step: "pageLoop fuel getPage ctx order oid addr p w
      = pageLoop fuel' getPage ctx order oid addr (p + 1) ?w2"
    using txs r fuel by (simp add: pageLoop_Suc del: pageLoop.simps)
  have "\<forall>j<k. pageProceeds getPage ctx order oid addr (p + 1 + j)"
  proof (intro allI impI)
    fix j assume "j < k"
    then have "Suc j < Suc k" by simp
    with Suc.prems(1) have "pageProceeds getPage ctx order oid addr (p + Suc j)" by blast
    then show "pageProceeds getPage ctx order oid addr (p + 1 + j)" by simp
  qed
  from Suc.IH [where w = ?w2, OF this fuel(2)]
  obtain w' where w': "pageLoop fuel' getPage ctx order oid addr (p + 1) ?w2
        = pageLoop (fuel' - k) getPage ctx order oid addr (p + 1 + k) w'"
      "fetched w' = fetched ?w2 @ map (\<lambda>q. (addr, createdAtBlockNumber order, q)) [p + 1..<p + 1 + k]"
    by blast
  have f2: "fetched ?w2 = fetched w @ [(addr, createdAtBlockNumber order, p)]"
    by (simp add: processPage_fetched)
  have "[p..<p + Suc k] = p # [p + 1..<p + 1 + k]"
    by (simp add: upt_rec)
  with w' f2 step fuel show ?case
    by (intro exI [of _ w']) (simp del: pageLoop.simps)
qed

lemma pageLoop_exhausted:
  assumes "\<forall>j<k. pageProceeds getPage ctx order oid addr (p + j)"
    and "getPage addr (createdAtBlockNumber order) (p + k) = Inr []" and "k < fuel"
  shows "fst (pageLoop fuel getPage ctx order oid addr p w) = Some (Inr NoMorePages)
    \<and> pagesFetched w (snd (pageLoop fuel getPage ctx order oid addr p w))
        = map (\<lambda>q. (addr, createdAtBlockNumber order, q)) [p..<p + k + 1]"
proof -
  from assms(3) have "k \<le> fuel" by simp
  from pageLoop_skip [where w = w, OF assms(1) this]
  obtain w' where w': "pageLoop fuel getPage ctx order oid addr p w
        = pageLoop (fuel - k) getPage ctx order oid addr (p + k) w'"
      "fetched w' = fetched w @ map (\<lambda>q. (addr, createdAtBlockNumber order, q)) [p..<p + k]"
    by blast
  from assms(3) obtain n where n: "fuel - k = Suc n" by (cases "fuel - k") auto
  show ?thesis
    using w' assms(2) n by (simp add: pageLoop_Suc pagesFetched_def del: pageLoop.simps)
qed

lemma pageLoop_paging:
  assumes "\<forall>j<fuel. pageProceeds getPage ctx order oid addr (p + j)"
  shows "fst (pageLoop fuel getPage ctx order oid addr p w) = None
    \<and> pagesFetched w (snd (pageLoop fuel getPage ctx order oid addr p w))
        = map (\<lambda>q. (addr, createdAtBlockNumber order, q)) [p..<p + fuel]"
proof -
  from pageLoop_skip [where w = w, OF assms le_refl]
  obtain w' where w': "pageLoop fuel getPage ctx order oid addr p w
        = pageLoop (fuel - fuel) getPage ctx order oid addr (p + fuel) w'"
      "fetched w' = fetched w @ map (\<lambda>q. (addr, createdAtBlockNumber order, q)) [p..<p + fuel]"
    by blast
  then show ?thesis by (simp add: pagesFetched_def)
qed

lemma pageLoop_fetch_failed:
  assumes "\<forall>j<k. pageProceeds getPage ctx order oid addr (p + j)"
    and "getPage addr (createdAtBlockNumber order) (p + k) = Inl e" and "k < fuel"
  shows "fst (pageLoop fuel getPage ctx order oid addr p w) = Some (Inr FetchFailed)
    \<and> last (logs (snd (pageLoop fuel getPage ctx order oid addr p w)))
        = (ErrorLevel, ErrorFetchingTxs e oid)"
proof -
  from assms(3) have "k \<le> fuel" by simp
  from pageLoop_skip [where w = w, OF assms(1) this]
  obtain w' where w': "pageLoop fuel getPage ctx order oid addr p w
        = pageLoop (fuel - k) getPage ctx order oid addr (p + k) w'"
    by blast
  from assms(3) obtain n where n: "fuel - k = Suc n" by (cases "fuel - k") auto
  show ?thesis
    using w' assms(2) n by (simp add: pageLoop_Suc logger_def del: pageLoop.simps)
qed

lemma pageLoop_raises:
  assumes "\<forall>j<k. pageProceeds getPage ctx order oid addr (p + j)"
    and "getPage addr (createdAtBlockNumber order) (p + k) = Inr txs" and "txs \<noteq> []"
    and "fst (processPage ctx order oid txs noWorld) = Inl e" and "k < fuel"
  shows "fst (pageLoop fuel getPage ctx order oid addr p w) = Some (Inl e)"
proof -
  from assms(5) have "k \<le> fuel" by simp
  from pageLoop_skip [where w = w, OF assms(1) this]
  obtain w' where w': "pageLoop fuel getPage ctx order oid addr p w
        = pageLoop (fuel - k) getPage ctx order oid addr (p + k) w'"
    by blast
  from assms(5) obtain n where n: "fuel - k = Suc n" by (cases "fuel - k") auto
  let ?w1 = "w'\<lparr>fetched := fetched w' @ [(addr, createdAtBlockNumber order, p + k)]\<rparr>"
  have r: "fst (processPage ctx order oid txs ?w1) = Inl e"
    using assms(4) processPage_result [of ctx order oid txs ?w1 noWorld] by simp
  show ?thesis
    using w' assms(2,3) n r by (simp add: pageLoop_Suc del: pageLoop.simps)
qed

lemma pageLoop_raised_origin:
  "fst (pageLoop fuel getPage ctx order oid addr p w) = Some (Inl e) \<Longrightarrow>
     \<exists>q txs. getPage addr (createdAtBlockNumber order) q = Inr txs \<and> txs \<noteq> []
        \<and> fst (processPage ctx order oid txs noWorld) = Inl e"
proof (induction fuel arbitrary: p w)
  case 0
  then show ?case by simp
next
  case (Suc fuel)
  show ?case
  proof (cases "getPage addr (createdAtBlockNumber order) p")
    case (Inl e')
    with Suc.prems show ?thesis by (simp add: pageLoop_Suc del: pageLoop.simps)
  next
    case (Inr txs)
    let ?w1 = "w\<lparr>fetched := fetched w @ [(addr, createdAtBlockNumber order, p)]\<rparr>"
    have r: "fst (processPage ctx order oid txs ?w1) = fst (processPage ctx order oid txs noWorld)"
      by (rule processPage_result)
    show ?thesis
    proof (cases "txs = []")
      case True
      with Suc.prems Inr show ?thesis by (simp add: pageLoop_Suc del: pageLoop.simps)
    next
      case False
      show ?thesis
      proof (cases "fst (processPage ctx order oid txs noWorld)")
        case (Inl e')
        with Suc.prems Inr False r have "e' = e"
          by (simp add: pageLoop_Suc del: pageLoop.simps)
        with Inl Inr False show ?thesis by blast
      next
        case (Inr u)
        with Suc.prems \<open>getPage addr (createdAtBlockNumber order) p = Inr txs\<close> False r
        have "fst (pageLoop fuel getPage ctx order oid addr (p + 1)
            (snd (processPage ctx order oid txs ?w1))) = Some (Inl e)"
          by (simp add: pageLoop_Suc del: pageLoop.simps)
        then show ?thesis by (rule Suc.IH)
      qed
    qed
  qed
qed

lemma runMappers_raises:
  "x \<in> set xs \<Longrightarrow> fst (txMapper ctx order oid x w0) = Inl e0
     \<Longrightarrow> \<exists>e. fst (runMappers (txMapper ctx order oid) xs w) = Inl e"
proof (induction xs arbitrary: w)
  case Nil
  then show ?case by simp
next
  case (Cons y ys)
  show ?case
  proof (cases "fst (txMapper ctx order oid y w)")
    case (Inl e)
    then show ?thesis unfolding runMappers_Cons_fst by simp
  next
    case (Inr u)
    have "x \<noteq> y"
    proof
      assume "x = y"
      with Cons.prems(2) txMapper_result [of ctx order oid y w w0] Inr show False by simp
    qed
    with Cons.prems have "x \<in> set ys" by simp
    from Cons.IH [where w = "snd (txMapper ctx order oid y w)", OF this Cons.prems(2)] Inr
    show ?thesis unfolding runMappers_Cons_fst by simp
  qed
qed

lemma processPage_unsupported:
  assumes "\<forall>t \<in> set txs. numericValue t"
    and "s \<in> set (take 10 (filter positiveValue txs))"
    and "resolvesWellFormed ctx s" and "verify_spec ctx order s = UnsupportedFeeModel"
  shows "\<exists>e. fst (processPage ctx order oid txs w) = Inl e"
proof -
  have "fst (txMapper ctx order oid s noWorld) = Inl (Error ''Unsupported EIP-1559 sweep transaction'')"
    using txMapper_by_verdict [OF assms(3), of order oid noWorld] assms(4) by simp
  moreover from assms(2) have "s \<in> set (settleOrder ctx (take 10 (filter positiveValue txs)))"
    by (simp add: set_settleOrder)
  ultimately have "\<exists>e. fst (runMappers (txMapper ctx order oid)
      (settleOrder ctx (take 10 (filter positiveValue txs)))
      ((logger Info (FoundTransactions (length (take 10 (filter positiveValue txs))) oid) w)
         \<lparr>lookups := lookups w @ map es_hash (take 10 (filter positiveValue txs))\<rparr>)) = Inl e"
    using runMappers_raises by blast
  then show ?thesis
    by (simp add: processPage_candidates [OF filterPositive_numeric [OF assms(1)]])
qed

lemma orderTask_found:
  assumes "find (\<lambda>row. order_id row = oid) (db ctx) = Some order"
    and "depositAddress order = Some da"
  shows "orderTask fuel getPage ctx oid w
     = pageLoop fuel getPage ctx order oid (address da) 1 (logger Info (ProcessingQueuedTask oid) w)"
  using assms by (simp add: orderTask_def Let_def)

lemma orderTask_raised_origin:
  assumes "fst (orderTask fuel getPage ctx oid w) = Some (Inl e)"
  shows "\<exists>order da q txs. find (\<lambda>row. order_id row = oid) (db ctx) = Some order
      \<and> depositAddress order = Some da
      \<and> getPage (address da) (createdAtBlockNumber order) q = Inr txs \<and> txs \<noteq> []
      \<and> fst (processPage ctx order oid txs noWorld) = Inl e"
proof (cases "find (\<lambda>row. order_id row = oid) (db ctx)")
  case None
  with assms show ?thesis by (simp add: orderTask_def Let_def)
next
  case (Some order)
  show ?thesis
  proof (cases "depositAddress order")
    case None
    with assms Some show ?thesis by (simp add: orderTask_def Let_def)
  next
    case (Some da)
    note found = \<open>find (\<lambda>row. order_id row = oid) (db ctx) = Some order\<close>
    from assms have "fst (pageLoop fuel getPage ctx order oid (address da) 1
        (logger Info (ProcessingQueuedTask oid) w)) = Some (Inl e)"
      by (simp only: orderTask_found [OF found Some])
    from pageLoop_raised_origin [OF this]
    obtain q txs where "getPage (address da) (createdAtBlockNumber order) q = Inr txs"
        "txs \<noteq> []" "fst (processPage ctx order oid txs noWorld) = Inl e"
      by blast
    with found Some show ?thesis by blast
  qed
qed

lemma processPage_Nil: "fst (processPage ctx order oid [] w) = Inr ()"
  by (simp add: processPage_def pMap_def)

subsection \<open>The schema and the response object\<close>

lemma response_is_not_an_array:
  "accountTxListResultSchema_parse (responseObject res) = Inl ZodError"
  by (simp add: accountTxListResultSchema_parse_def responseObject_def)

lemma getEtherScanTxListForAddress_success:
  "httpGet (txListUrl apiKey a sb p) = Inr res
     \<Longrightarrow> getEtherScanTxListForAddress httpGet apiKey a sb p = Inl ZodError"
  by (simp add: getEtherScanTxListForAddress_def response_is_not_an_array)

lemma txObject_parse_txJson: "txObject_parse (txJson t) = Inr t"
  by (simp add: txObject_parse_def txJson_def stringField_def)

lemma schema_accepts_page: "accountTxListResultSchema_parse (JArray (map txJson txs)) = Inr txs"
  by (induction txs) (simp_all add: accountTxListResultSchema_parse_def txObject_parse_txJson)

lemma getEtherScanTxListForAddress_fails:
  "\<exists>e. getEtherScanTxListForAddress httpGet apiKey a sb p = Inl e"
  by (cases "httpGet (txListUrl apiKey a sb p)")
    (simp_all add: getEtherScanTxListForAddress_def response_is_not_an_array)

lemma runScanByOrderId_task_aborts:
  assumes "find (\<lambda>row. order_id row = oid) (db ctx) = Some order"
    and "depositAddress order = Some da"
  shows "fst (runScanByOrderId_task (Suc fuel) ctx oid w) = Some (Inr FetchFailed)"
proof -
  obtain e where "getEtherScanTxListForAddress (axios_get ctx) (etherscanApiKey ctx)
      (address da) (createdAtBlockNumber order) 1 = Inl e"
    using getEtherScanTxListForAddress_fails by blast
  with assms show ?thesis
    by (simp add: runScanByOrderId_task_def orderTask_def Let_def)
qed

subsection \<open>The example runs\<close>

lemma BigNumber_from_5: "BigNumber_from ''5'' = Inr 5"
  and BigNumber_from_3: "BigNumber_from ''3'' = Inr 3"
  and BigNumber_from_7: "BigNumber_from ''7'' = Inr 7"
  by (simp_all add: BigNumber_from_def unsignedPart_def isNegative_def isHexNumeral_def
        isDecimalNumeral_def isDigit_def digitVal_def fromDigits_def)

lemma lower_acc: "toLowerCase ''0xACC'' = ''0xacc''" "toLowerCase ''0xacc'' = ''0xacc''"
  by (simp_all add: toLowerCase_def toLowerChar_def)

lemma runA:
  "orderTask 3 pagesA exampleCtx ''o1'' noWorld =
     (Some (Inr NoMorePages),
      \<lparr>deposits = [\<lparr>orderId = ''o1'', txid = ''X'', amount = formatEther 42005, uniqueId = ''eth:X''\<rparr>],
       requests = [\<lparr>orderId = ''o1'', txid = ''X'', amount = formatEther 42005, uniqueId = ''eth:X''\<rparr>],
       logs = [(Info, ProcessingQueuedTask ''o1''), (Info, FoundTransactions 2 ''o1''),
               (Info, ScanningTx ''X''),
               (Info, StoredDeposit ''X'' (formatEther 5) ''ETH'' ''o1''),
               (Warn, IgnoringTxBeforeOrder ''Y'' ''o1'')],
       fetched = [(''0xd1'', 100, 1), (''0xd1'', 100, 2)],
       lookups = [''X'', ''Y'']\<rparr>)"
  by (simp add: orderTask_def exampleCtx_def order1_def pagesA_def noWorld_def logger_def
        numeral_3_eq_3 processPage_def pMap_def askNode_def summaryOf_def
        BigNumber_from_5 BigNumber_from_3 txMapper_def nodeTransaction_def nodeBlock_def txX_def txY_def
        scanTxid_def lower_acc total_as_ether fetchOrderForAddress_def
        maybeInternalCreateDeposit_def)


lemma runB:
  "orderTask 3 pagesA reassignedCtx ''o1'' noWorld =
     (Some (Inr NoMorePages),
      \<lparr>deposits = [\<lparr>orderId = ''o0'', txid = ''X'', amount = formatEther 42005, uniqueId = ''eth:X''\<rparr>],
       requests = [\<lparr>orderId = ''o0'', txid = ''X'', amount = formatEther 42005, uniqueId = ''eth:X''\<rparr>],
       logs = [(Info, ProcessingQueuedTask ''o1''), (Info, FoundTransactions 2 ''o1''),
               (Info, ScanningTx ''X''),
               (Info, StoredDeposit ''X'' (formatEther 5) ''ETH'' ''o0''),
               (Warn, IgnoringTxBeforeOrder ''Y'' ''o1'')],
       fetched = [(''0xd1'', 100, 1), (''0xd1'', 100, 2)],
       lookups = [''X'', ''Y'']\<rparr>)"
  by (simp add: orderTask_def reassignedCtx_def exampleCtx_def order1_def order0_def pagesA_def
        noWorld_def logger_def
        numeral_3_eq_3 processPage_def pMap_def askNode_def summaryOf_def
        BigNumber_from_5 BigNumber_from_3 txMapper_def nodeTransaction_def nodeBlock_def txX_def txY_def
        scanTxid_def lower_acc total_as_ether fetchOrderForAddress_def
        maybeInternalCreateDeposit_def)

lemma formatEther_42005: "formatEther 42005 = ''0.000000000000042005''"
proof -
  have t: "toString 42005 = ''42005''" "toString 0 = ''0''"
    by (simp_all add: toString.simps digitChar_def)
  have r: "replicate 13 (CHR ''0'') = ''0000000000000''"
    by (simp add: numeral_eq_Suc)
  show ?thesis
    by (simp add: formatEther_def Let_def t r stripTrailingZeros_def padFraction_def)
qed

lemma formatEther_5: "formatEther 5 = ''0.000000000000000005''"
proof -
  have t: "toString 5 = ''5''" "toString 0 = ''0''"
    by (simp_all add: toString.simps digitChar_def)
  have r: "replicate 17 (CHR ''0'') = ''00000000000000000''"
    by (simp add: numeral_eq_Suc)
  show ?thesis
    by (simp add: formatEther_def Let_def t r stripTrailingZeros_def padFraction_def)
qed

lemma densePage_values:
  "BigNumber_from ''0'' = Inr 0" "BigNumber_from ''1'' = Inr 1" "BigNumber_from ''2'' = Inr 2"
  "BigNumber_from ''0x3'' = Inr 3" "BigNumber_from ''4'' = Inr 4" "BigNumber_from ''6'' = Inr 6"
  "BigNumber_from ''8'' = Inr 8" "BigNumber_from ''9'' = Inr 9" "BigNumber_from ''10'' = Inr 10"
  "BigNumber_from ''11'' = Inr 11" "BigNumber_from ''12'' = Inr 12"
  by (simp_all add: BigNumber_from_def unsignedPart_def isNegative_def isHexNumeral_def
        isDecimalNumeral_def isDigit_def isHexDigit_def digitVal_def hexVal_def fromDigits_def)

lemma lower_bee: "toLowerCase ''0xbee'' = ''0xbee''"
  by (simp add: toLowerCase_def toLowerChar_def)

lemma pageA_quiet:
  "fst (processPage exampleCtx order1 ''o1'' [summaryOf ''X'' ''5'', summaryOf ''Y'' ''3''] noWorld)
     = Inr ()"
  by (simp add: exampleCtx_def order1_def noWorld_def logger_def
        processPage_def pMap_def askNode_def summaryOf_def BigNumber_from_5 BigNumber_from_3
        txMapper_def nodeTransaction_def nodeBlock_def txX_def txY_def
        scanTxid_def lower_acc total_as_ether fetchOrderForAddress_def
        maybeInternalCreateDeposit_def)

subsection \<open>The settling times do not change what is sent\<close>

lemma scanTxid_timing: "scanTxid (ctx\<lparr>settleTime := t\<rparr>) tx w = scanTxid ctx tx w"
proof -
  have f: "fetchOrderForAddress (ctx\<lparr>settleTime := t\<rparr>) a = fetchOrderForAddress ctx a" for a
    by (simp add: fetchOrderForAddress_def)
  show ?thesis
    by (simp add: scanTxid_def f Let_def split: option.splits sum.splits prod.splits)
qed

lemma txMapper_timing: "txMapper (ctx\<lparr>settleTime := t\<rparr>) order oid s w = txMapper ctx order oid s w"
  by (simp add: txMapper_def scanTxid_timing split: option.splits)

lemma runMappers_requests_set:
  "set (requests (snd (runMappers (txMapper ctx order oid) xs noWorld)))
     = (\<Union>s \<in> set xs. set (requests (snd (txMapper ctx order oid s noWorld))))"
proof (induction xs)
  case Nil
  show ?case by simp
next
  case (Cons x xs)
  have "requests (snd (runMappers (txMapper ctx order oid) (x # xs) noWorld))
      = requests (snd (txMapper ctx order oid x noWorld))
        @ requests (snd (runMappers (txMapper ctx order oid) xs noWorld))"
    unfolding runMappers_Cons_snd
    using runMappers_requests [of ctx order oid xs "snd (txMapper ctx order oid x noWorld)"] by simp
  with Cons show ?case by simp
qed

lemma runMappers_quiet:
  "(fst (runMappers (txMapper ctx order oid) xs w) = Inr ())
     = (\<forall>s \<in> set xs. fst (txMapper ctx order oid s noWorld) = Inr ())"
proof (induction xs arbitrary: w)
  case Nil
  show ?case by simp
next
  case (Cons x xs)
  show ?case
    unfolding runMappers_Cons_fst
    using txMapper_result [of ctx order oid x w noWorld]
      Cons.IH [of "snd (txMapper ctx order oid x w)"]
    by (simp split: sum.splits)
qed

lemma runMappers_thrown:
  "fst (runMappers (txMapper ctx order oid) xs w) = Inl e
     \<Longrightarrow> \<exists>s \<in> set xs. fst (txMapper ctx order oid s noWorld) = Inl e"
proof (induction xs arbitrary: w)
  case Nil
  then show ?case by simp
next
  case (Cons x xs)
  show ?case
  proof (cases "fst (txMapper ctx order oid x w)")
    case (Inl e')
    with Cons.prems have "e' = e" unfolding runMappers_Cons_fst by simp
    with Inl txMapper_result [of ctx order oid x w noWorld] show ?thesis by simp
  next
    case (Inr u)
    with Cons.prems have "fst (runMappers (txMapper ctx order oid) xs
        (snd (txMapper ctx order oid x w))) = Inl e"
      unfolding runMappers_Cons_fst by simp
    from Cons.IH [OF this] show ?thesis by simp
  qed
qed

lemma processPage_requests_set:
  assumes "filterPositive txs = Inr positive"
  shows "set (requests (snd (processPage ctx order oid txs noWorld)))
     = (\<Union>s \<in> set (take 10 positive). set (requests (snd (txMapper ctx order oid s noWorld))))"
  using processPage_requests_of [OF assms, of ctx order oid noWorld]
  by (simp add: runMappers_requests_set set_settleOrder)

lemma processPage_quiet:
  assumes "filterPositive txs = Inr positive"
  shows "(fst (processPage ctx order oid txs w) = Inr ())
     = (\<forall>s \<in> set (take 10 positive). fst (txMapper ctx order oid s noWorld) = Inr ())"
  unfolding processPage_candidates [OF assms]
  by (simp add: runMappers_quiet set_settleOrder)


lemma processPage_timing_quiet:
  "(fst (processPage (ctx\<lparr>settleTime := t\<rparr>) order oid txs w) = Inr ())
     = (fst (processPage ctx order oid txs w') = Inr ())"
proof (cases "filterPositive txs")
  case (Inl e)
  then show ?thesis by (simp add: processPage_def)
next
  case (Inr positive)
  show ?thesis
    by (simp add: processPage_quiet [OF Inr] txMapper_timing)
qed

lemma pageProceeds_timing:
  "pageProceeds getPage (ctx\<lparr>settleTime := t\<rparr>) order oid addr p
     = pageProceeds getPage ctx order oid addr p"
  using processPage_timing_quiet [where ctx = ctx and t = t and w = noWorld and w' = noWorld]
  by (simp add: pageProceeds_def split: sum.splits)



subsection \<open>Repeated scans\<close>


subsection \<open>A transaction that passes every check is sent to the credit service\<close>

lemma find_first:
  "xs = pre @ x # post \<Longrightarrow> P x \<Longrightarrow> \<forall>r \<in> set pre. \<not> P r \<Longrightarrow> find P xs = Some x"
  by (induction pre arbitrary: xs) auto

lemma deposit_row:
  "(depositMethod r = m \<and> (case depositAddress r of None \<Rightarrow> False | Some da \<Rightarrow> address da = a))
     = (depositMethod r = m \<and> map_option address (depositAddress r) = Some a)"
  by (cases "depositAddress r") auto

lemma fetchOrderForAddress_first:
  assumes "db ctx = pre @ row # post"
    and "depositMethod row = method_id (nativeMethod ctx)"
    and "map_option address (depositAddress row) = Some a"
    and "\<forall>r \<in> set pre. \<not> (depositMethod r = method_id (nativeMethod ctx)
            \<and> map_option address (depositAddress r) = Some a)"
  shows "fetchOrderForAddress ctx a = Some row"
proof -
  let ?P = "\<lambda>row. depositMethod row = method_id (nativeMethod ctx)
                \<and> map_option address (depositAddress row) = Some a"
  have "find ?P (db ctx) = Some row"
    using assms(1)
  proof (rule find_first)
    show "?P row" using assms(2,3) by simp
    show "\<forall>r \<in> set pre. \<not> ?P r" using assms(4) by blast
  qed
  then show ?thesis by (simp add: fetchOrderForAddress_def deposit_row)
qed

lemma fetchOrderForAddress_none:
  assumes "\<forall>r \<in> set (db ctx). \<not> (depositMethod r = method_id (nativeMethod ctx)
            \<and> map_option address (depositAddress r) = Some a)"
  shows "fetchOrderForAddress ctx a = None"
  using assms by (simp add: fetchOrderForAddress_def find_None_iff deposit_row)





subsection \<open>What is thrown while a page is processed, and what is logged\<close>

lemma filterPositive_thrown:
  "filterPositive txs = Inl e \<Longrightarrow> \<exists>t \<in> set txs. BigNumber_from (es_value t) = Inl e"
  by (induction txs) (auto split: sum.splits)

lemma processPage_thrown:
  assumes "fst (processPage ctx order oid txs w) = Inl e"
  shows "(\<exists>t \<in> set txs. BigNumber_from (es_value t) = Inl e)
     \<or> (\<exists>s \<in> set (take 10 (filter positiveValue txs)).
           fst (txMapper ctx order oid s noWorld) = Inl e)"
proof (cases "filterPositive txs")
  case (Inl e')
  with assms have "e' = e" by (simp add: processPage_def)
  with Inl filterPositive_thrown show ?thesis by blast
next
  case (Inr positive)
  from filterPositive_Inr [OF Inr] have p: "positive = filter positiveValue txs" by simp
  from assms have "fst (runMappers (txMapper ctx order oid) (settleOrder ctx (take 10 positive))
      ((logger Info (FoundTransactions (length (take 10 positive)) oid) w)
         \<lparr>lookups := lookups w @ map es_hash (take 10 positive)\<rparr>)) = Inl e"
    by (simp only: processPage_candidates [OF Inr])
  from runMappers_thrown [OF this] p show ?thesis
    by (simp add: set_settleOrder)
qed

lemma processPage_raises:
  assumes "(\<exists>t \<in> set txs. \<not> numericValue t)
     \<or> (\<exists>s \<in> set (take 10 (filter positiveValue txs)). \<exists>e'.
           fst (txMapper ctx order oid s noWorld) = Inl e')"
  shows "\<exists>e. fst (processPage ctx order oid txs w) = Inl e"
proof (cases "\<forall>t \<in> set txs. numericValue t")
  case False
  from processPage_not_numeric [OF this] show ?thesis by (metis fst_conv)
next
  case True
  with assms obtain s e' where s: "s \<in> set (take 10 (filter positiveValue txs))"
      "fst (txMapper ctx order oid s noWorld) = Inl e'"
    by blast
  from s(2) have "fst (txMapper ctx order oid s noWorld) \<noteq> Inr ()" by simp
  with s(1) have "\<not> (\<forall>s \<in> set (take 10 (filter positiveValue txs)).
      fst (txMapper ctx order oid s noWorld) = Inr ())" by blast
  then have "fst (processPage ctx order oid txs w) \<noteq> Inr ()"
    by (simp only: processPage_quiet [OF filterPositive_numeric [OF True]] not_False_eq_True)
  then show ?thesis by (cases "fst (processPage ctx order oid txs w)") auto
qed

lemma scanTxid_logs:
  "\<exists>L. logs (snd (scanTxid ctx tx w)) = logs w @ L \<and> list_all (\<lambda>l. \<not> reportsException l) L"
  by (simp add: scanTxid_def maybeInternalCreateDeposit_def logger_def Let_def reportsException_def
        split: option.splits sum.splits)

lemma txMapper_logs:
  "\<exists>L. logs (snd (txMapper ctx order oid s w)) = logs w @ L
       \<and> list_all (\<lambda>l. \<not> reportsException l) L"
proof -
  have sc: "\<exists>L. logs (snd (scanTxid ctx tx (logger Info (ScanningTx (es_hash s)) w))) = logs w @ L
       \<and> list_all (\<lambda>l. \<not> reportsException l) L" for tx
  proof -
    from scanTxid_logs [of ctx tx "logger Info (ScanningTx (es_hash s)) w"]
    obtain L where "logs (snd (scanTxid ctx tx (logger Info (ScanningTx (es_hash s)) w)))
        = logs (logger Info (ScanningTx (es_hash s)) w) @ L" "list_all (\<lambda>l. \<not> reportsException l) L"
      by blast
    then show ?thesis
      by (intro exI [of _ "(Info, ScanningTx (es_hash s)) # L"]) (simp add: reportsException_def)
  qed
  show ?thesis
    using sc by (simp add: txMapper_def discard_result reportsException_def split: option.splits)
qed

lemma runMappers_logs:
  "\<exists>L. logs (snd (runMappers (txMapper ctx order oid) xs w)) = logs w @ L
       \<and> list_all (\<lambda>l. \<not> reportsException l) L"
proof (induction xs arbitrary: w)
  case Nil
  show ?case by simp
next
  case (Cons x xs)
  from txMapper_logs [of ctx order oid x w]
  obtain L1 where 1: "logs (snd (txMapper ctx order oid x w)) = logs w @ L1"
      "list_all (\<lambda>l. \<not> reportsException l) L1" by blast
  from Cons.IH [of "snd (txMapper ctx order oid x w)"]
  obtain L2 where 2: "logs (snd (runMappers (txMapper ctx order oid) xs (snd (txMapper ctx order oid x w))))
        = logs (snd (txMapper ctx order oid x w)) @ L2"
      "list_all (\<lambda>l. \<not> reportsException l) L2" by blast
  show ?case
    unfolding runMappers_Cons_snd using 1 2 by (intro exI [of _ "L1 @ L2"]) simp
qed

lemma processPage_logs:
  "\<exists>L. logs (snd (processPage ctx order oid txs w)) = logs w @ L
       \<and> list_all (\<lambda>l. \<not> reportsException l) L"
proof (cases "filterPositive txs")
  case (Inl e)
  then show ?thesis by (simp add: processPage_def)
next
  case (Inr positive)
  let ?W = "(logger Info (FoundTransactions (length (take 10 positive)) oid) w)
         \<lparr>lookups := lookups w @ map es_hash (take 10 positive)\<rparr>"
  from runMappers_logs [of ctx order oid "settleOrder ctx (take 10 positive)" ?W]
  obtain L where "logs (snd (runMappers (txMapper ctx order oid) (settleOrder ctx (take 10 positive)) ?W))
      = logs ?W @ L" "list_all (\<lambda>l. \<not> reportsException l) L" by blast
  then show ?thesis
    unfolding processPage_candidates [OF Inr]
    by (intro exI [of _ "(Info, FoundTransactions (length (take 10 positive)) oid) # L"])
      (simp add: reportsException_def)
qed

lemma pageLoop_logs:
  "fst (pageLoop fuel getPage ctx order oid addr p w) \<noteq> Some (Inr FetchFailed) \<Longrightarrow>
     \<exists>L. logs (snd (pageLoop fuel getPage ctx order oid addr p w)) = logs w @ L
       \<and> list_all (\<lambda>l. \<not> reportsException l) L"
proof (induction fuel arbitrary: p w)
  case 0
  show ?case by simp
next
  case (Suc fuel)
  show ?case
  proof (cases "getPage addr (createdAtBlockNumber order) p")
    case (Inl e)
    with Suc.prems show ?thesis by (simp add: pageLoop_Suc del: pageLoop.simps)
  next
    case (Inr txs)
    let ?w1 = "w\<lparr>fetched := fetched w @ [(addr, createdAtBlockNumber order, p)]\<rparr>"
    let ?w2 = "snd (processPage ctx order oid txs ?w1)"
    from processPage_logs [of ctx order oid txs ?w1]
    obtain L1 where 1: "logs ?w2 = logs w @ L1" "list_all (\<lambda>l. \<not> reportsException l) L1"
      by auto
    show ?thesis
    proof (cases "txs = []")
      case True
      with Inr show ?thesis by (simp add: pageLoop_Suc del: pageLoop.simps)
    next
      case False
      show ?thesis
      proof (cases "fst (processPage ctx order oid txs ?w1)")
        case (Inl e)
        with Inr False 1 show ?thesis by (simp add: pageLoop_Suc del: pageLoop.simps)
      next
        case u: (Inr u)
        with Inr False have step: "pageLoop (Suc fuel) getPage ctx order oid addr p w
            = pageLoop fuel getPage ctx order oid addr (p + 1) ?w2"
          by (simp add: pageLoop_Suc del: pageLoop.simps)
        with Suc.prems have "fst (pageLoop fuel getPage ctx order oid addr (p + 1) ?w2)
            \<noteq> Some (Inr FetchFailed)" by simp
        from Suc.IH [OF this]
        obtain L2 where 2: "logs (snd (pageLoop fuel getPage ctx order oid addr (p + 1) ?w2))
            = logs ?w2 @ L2" "list_all (\<lambda>l. \<not> reportsException l) L2" by blast
        show ?thesis
          unfolding step using 1 2 by (intro exI [of _ "L1 @ L2"]) simp
      qed
    qed
  qed
qed

lemma orderTask_logs:
  assumes "fst (orderTask fuel getPage ctx oid w) \<noteq> Some (Inr FetchFailed)"
  shows "list_all (\<lambda>l. \<not> reportsException l) (linesLogged w (snd (orderTask fuel getPage ctx oid w)))"
proof (cases "find (\<lambda>row. order_id row = oid) (db ctx)")
  case None
  then show ?thesis
    by (simp add: orderTask_def Let_def linesLogged_def reportsException_def)
next
  case (Some order)
  show ?thesis
  proof (cases "depositAddress order")
    case None
    with Some show ?thesis
      by (simp add: orderTask_def Let_def linesLogged_def reportsException_def)
  next
    case da: (Some da)
    let ?w1 = "logger Info (ProcessingQueuedTask oid) w"
    note t = orderTask_found [OF Some da]
    from assms have "fst (pageLoop fuel getPage ctx order oid (address da) 1 ?w1)
        \<noteq> Some (Inr FetchFailed)" unfolding t .
    from pageLoop_logs [OF this]
    obtain L where "logs (snd (pageLoop fuel getPage ctx order oid (address da) 1 ?w1))
        = logs ?w1 @ L" "list_all (\<lambda>l. \<not> reportsException l) L" by blast
    then show ?thesis
      by (simp add: t linesLogged_def reportsException_def)
  qed
qed

subsection \<open>The node lookups of a page\<close>

lemma processPage_lookups:
  assumes "filterPositive txs = Inr positive"
  shows "lookups (snd (processPage ctx order oid txs w))
     = lookups w @ map es_hash (take 10 positive)"
  by (simp add: processPage_candidates [OF assms] runMappers_lookups)

subsection \<open>More example runs\<close>

lemma BigNumber_from_upper: "BigNumber_from ''0X5'' = Inl (Error ''Invalid character'')"
  by (simp add: BigNumber_from_def unsignedPart_def isNegative_def isHexNumeral_def isHexDigit_def)


lemma runR:
  "orderTask 3 pagesR racingCtx ''o1'' noWorld =
     (Some (Inl (TypeError ''Cannot read properties of null'')),
      \<lparr>deposits = [], requests = [],
       logs = [(Info, ProcessingQueuedTask ''o1''), (Info, FoundTransactions 2 ''o1''),
               (Info, ScanningTx ''Z'')],
       fetched = [(''0xd1'', 100, 1)], lookups = [''Z'', ''B'']\<rparr>)"
  by (simp add: orderTask_def racingCtx_def exampleCtx_def order1_def pagesR_def
        noWorld_def logger_def numeral_3_eq_3 processPage_def pMap_def askNode_def summaryOf_def
        densePage_values BigNumber_from_5 BigNumber_from_7 txMapper_def nodeTransaction_def nodeBlock_def
        txZ_def txB_def scanTxid_def lower_acc total_as_ether fetchOrderForAddress_def
        maybeInternalCreateDeposit_def)

lemma runH:
  "orderTask 3 pagesH exampleCtx ''o1'' noWorld =
     (Some (Inl (Error ''Invalid character'')),
      \<lparr>deposits = [], requests = [],
       logs = [(Info, ProcessingQueuedTask ''o1'')],
       fetched = [(''0xd1'', 100, 1)], lookups = []\<rparr>)"
  by (simp add: orderTask_def exampleCtx_def order1_def pagesH_def
        noWorld_def logger_def numeral_3_eq_3 processPage_def summaryOf_def BigNumber_from_upper)

subsection \<open>Further facts about repeated scans, the mapper and the exception raised\<close>



lemma txMapper_scanned_order:
  assumes "createdAt order' = createdAt order"
  shows "issuedRequests w (snd (txMapper ctx order' oid' s w))
     = issuedRequests w (snd (txMapper ctx order oid s w))"
proof -
  have "requests (snd (txMapper ctx order' oid' s noWorld))
      = requests (snd (txMapper ctx order oid s noWorld))"
    using assms by (simp add: txMapper_def discard_result split: option.splits)
  then show ?thesis
    using txMapper_requests [of ctx order' oid' s w] txMapper_requests [of ctx order oid s w]
    by (simp add: issuedRequests_def)
qed


lemma runMappers_first_thrown:
  "xs = ys @ s # zs \<Longrightarrow> \<forall>y \<in> set ys. fst (txMapper ctx order oid y noWorld) = Inr ()
     \<Longrightarrow> fst (txMapper ctx order oid s noWorld) = Inl e
     \<Longrightarrow> fst (runMappers (txMapper ctx order oid) xs w) = Inl e"
proof (induction ys arbitrary: xs w)
  case Nil
  from Nil(3) have "fst (txMapper ctx order oid s w) = Inl e"
    using txMapper_result [of ctx order oid s w noWorld] by simp
  with Nil(1) show ?case
    by (simp add: runMappers_Cons_fst del: runMappers.simps)
next
  case (Cons y ys)
  from Cons.prems(2) have y: "fst (txMapper ctx order oid y w) = Inr ()"
    using txMapper_result [of ctx order oid y w noWorld] by simp
  from Cons.prems(2) have "\<forall>y \<in> set ys. fst (txMapper ctx order oid y noWorld) = Inr ()" by simp
  from Cons.IH [OF refl this Cons.prems(3), of "snd (txMapper ctx order oid y w)"] y Cons.prems(1)
  show ?case
    by (simp add: runMappers_Cons_fst del: runMappers.simps)
qed

lemma filterPositive_first_thrown:
  "txs = ys @ t # zs \<Longrightarrow> \<forall>y \<in> set ys. numericValue y \<Longrightarrow> BigNumber_from (es_value t) = Inl e
     \<Longrightarrow> filterPositive txs = Inl e"
  by (induction ys arbitrary: txs) (auto simp: numericValue_def split: sum.splits)

lemma processPage_first_thrown:
  assumes "\<forall>x \<in> set txs. numericValue x"
    and "settleOrder ctx (take 10 (filter positiveValue txs)) = ys @ s # zs"
    and "\<forall>y \<in> set ys. fst (txMapper ctx order oid y noWorld) = Inr ()"
    and "fst (txMapper ctx order oid s noWorld) = Inl e"
  shows "fst (processPage ctx order oid txs w) = Inl e"
  unfolding processPage_candidates [OF filterPositive_numeric [OF assms(1)]]
  using assms(2,3,4) by (rule runMappers_first_thrown)

lemma processPage_filter_thrown:
  assumes "txs = ys @ t # zs" and "\<forall>y \<in> set ys. numericValue y"
    and "BigNumber_from (es_value t) = Inl e"
  shows "processPage ctx order oid txs w = (Inl e, w)"
  using filterPositive_first_thrown [OF assms] by (simp add: processPage_def)

section \<open>The claims\<close>

text \<open>
  C1 (the code does not do this). The claim: a page fetch whose HTTP request succeeds with
  a well-formed transaction-list page returns the page's summaries, and fails with a schema
  error only for a malformed body. In the source the schema is applied to the axios
  response object instead of its body, so every successful request ends in a schema error:
  here the body is a one-element page that the schema itself accepts, and the call fails;
  it fails as well when the page comes in Etherscan's envelope.
\<close>

theorem explorer_client_rejects_well_formed_page:
  "axios_get exampleCtx (txListUrl ''KEY'' ''0xd1'' 100 1)
      = Inr (okResponse (JArray [txJson (summaryOf ''X'' ''5'')]))
   \<and> accountTxListResultSchema_parse (JArray [txJson (summaryOf ''X'' ''5'')])
      = Inr [summaryOf ''X'' ''5'']
   \<and> getEtherScanTxListForAddress (axios_get exampleCtx) ''KEY'' ''0xd1'' 100 1 = Inl ZodError
   \<and> getEtherScanTxListForAddress
        (\<lambda>url. Inr (okResponse (etherscanEnvelope (JArray [txJson (summaryOf ''X'' ''5'')]))))
        ''KEY'' ''0xd1'' 100 1 = Inl ZodError"
proof -
  have c: "getEtherScanTxListForAddress
        (\<lambda>url. Inr (okResponse (etherscanEnvelope (JArray [txJson (summaryOf ''X'' ''5'')]))))
        ''KEY'' ''0xd1'' 100 1 = Inl ZodError"
    by (rule getEtherScanTxListForAddress_success) simp
  have a: "axios_get exampleCtx (txListUrl ''KEY'' ''0xd1'' 100 1)
      = Inr (okResponse (JArray [txJson (summaryOf ''X'' ''5'')]))"
    by (simp add: exampleCtx_def)
  have b: "accountTxListResultSchema_parse (JArray [txJson (summaryOf ''X'' ''5'')])
      = Inr [summaryOf ''X'' ''5'']"
    using schema_accepts_page [of "[summaryOf ''X'' ''5'']"] by simp
  show ?thesis
    using a b c
      getEtherScanTxListForAddress_success [of "axios_get exampleCtx" "''KEY''" "''0xd1''" 100 1, OF a]
    by simp
qed

text \<open>
  C2. A transaction that the node resolves to a block whose timestamp is earlier than the
  creation time of the scanned order is never the subject of a credit request sent during
  that order's scan, whatever the pages, the fuel and the world before. The node is taken
  to answer a lookup with the transaction of that hash.
\<close>

theorem stale_transaction_never_credited:
  assumes scanned: "find (\<lambda>row. order_id row = oid) (db ctx) = Some order"
    and node: "\<forall>h t. getTransaction ctx h = Some t \<longrightarrow> tx_hash t = h"
    and resolved: "getTransaction ctx h = Some tx" "tx_blockNumber tx = Some bn"
      "getBlock ctx bn = Some blk"
    and stale: "int (timestamp blk) * 1000 < createdAt order"
  shows "\<forall>req \<in> set (issuedRequests w (snd (orderTask fuel getPage ctx oid w))).
           txid req \<noteq> tx_hash tx"
proof
  fix req
  assume "req \<in> set (issuedRequests w (snd (orderTask fuel getPage ctx oid w)))"
  then have "req \<in> set (requests (snd (orderTask fuel getPage ctx oid noWorld)))"
    by (simp add: orderTask_issued)
  from orderTask_origin [OF this]
  obtain order' da q txs s where "find (\<lambda>row. order_id row = oid) (db ctx) = Some order'"
    and "depositAddress order' = Some da"
    and "getPage (address da) (createdAtBlockNumber order') q = Inr txs"
    and "s \<in> set txs" and "verifiedCredit ctx order' (es_hash s) req"
    by (elim exE conjE) (rule that; assumption)
  with scanned have "verifiedCredit ctx order (es_hash s) req" by simp
  from verifiedCredit_fields [OF this]
  obtain tx' bn' blk' where r': "getTransaction ctx (es_hash s) = Some tx'"
      "tx_blockNumber tx' = Some bn'" "getBlock ctx bn' = Some blk'"
      "createdAt order \<le> int (timestamp blk') * 1000" and c: "creditOf ctx tx' req"
    by blast
  from creditOf_fields [OF c] have t: "txid req = tx_hash tx'" by auto
  show "txid req \<noteq> tx_hash tx"
  proof
    assume "txid req = tx_hash tx"
    with t node r'(1) resolved(1) have "es_hash s = h" by metis
    with r' resolved have "tx' = tx" "bn' = bn" "blk' = blk" by auto
    with r'(4) stale show False by simp
  qed
qed

text \<open>
  In the example, \<open>Y\<close> is in block 50, before order \<open>o1\<close>; the scan sends one request,
  for \<open>X\<close>.
\<close>

theorem stale_transaction_never_credited_witness:
  "find (\<lambda>row. order_id row = ''o1'') (db exampleCtx) = Some order1
   \<and> getTransaction exampleCtx ''Y'' = Some txY \<and> tx_blockNumber txY = Some 50
   \<and> getBlock exampleCtx 50 = Some \<lparr>timestamp = 50\<rparr>
   \<and> int (timestamp \<lparr>timestamp = 50\<rparr>) * 1000 < createdAt order1
   \<and> map txid (issuedRequests noWorld (snd (orderTask 3 pagesA exampleCtx ''o1'' noWorld)))
       = [''X'']
   \<and> tx_hash txY
       \<notin> txid ` set (issuedRequests noWorld (snd (orderTask 3 pagesA exampleCtx ''o1'' noWorld)))"
proof -
  have h1: "find (\<lambda>row. order_id row = ''o1'') (db exampleCtx) = Some order1"
    by (simp add: exampleCtx_def order1_def)
  have h2: "\<forall>h t. getTransaction exampleCtx h = Some t \<longrightarrow> tx_hash t = h"
    by (simp add: exampleCtx_def nodeTransaction_hash)
  have h3: "getTransaction exampleCtx ''Y'' = Some txY"
    by (simp add: exampleCtx_def nodeTransaction_def)
  have h4: "tx_blockNumber txY = Some 50" by (simp add: txY_def)
  have h5: "getBlock exampleCtx 50 = Some \<lparr>timestamp = 50\<rparr>"
    by (simp add: exampleCtx_def nodeBlock_def)
  have h6: "int (timestamp \<lparr>timestamp = 50\<rparr>) * 1000 < createdAt order1"
    by (simp add: order1_def)
  have i: "map txid (issuedRequests noWorld (snd (orderTask 3 pagesA exampleCtx ''o1'' noWorld)))
      = [''X'']"
    by (simp add: issuedRequests_def runA)
  have n: "tx_hash txY
      \<notin> txid ` set (issuedRequests noWorld (snd (orderTask 3 pagesA exampleCtx ''o1'' noWorld)))"
    using stale_transaction_never_credited [OF h1 h2 h3 h4 h5 h6, of noWorld 3 pagesA]
    by (auto simp: image_iff)
  show ?thesis
    by (intro conjI h1 h3 h4 h5 h6 i n)
qed




text \<open>
  C4 as the claim states it fails: in the example scan of order \<open>o1\<close> over a page with
  transaction \<open>Z\<close>, which has no legacy gas price, the exception leaves the callback, and
  the logger has received three lines at level info and none about the failure.
\<close>

theorem unsupported_fee_model_escapes_scan:
  "orderTask 3 pagesC exampleCtx ''o1'' noWorld =
     (Some (Inl (Error ''Unsupported EIP-1559 sweep transaction'')),
      \<lparr>deposits = [], requests = [],
       logs = [(Info, ProcessingQueuedTask ''o1''), (Info, FoundTransactions 1 ''o1''),
               (Info, ScanningTx ''Z'')],
       fetched = [(''0xd1'', 100, 1)], lookups = [''Z'']\<rparr>)"
  by (simp add: orderTask_def exampleCtx_def order1_def pagesC_def noWorld_def logger_def
        numeral_3_eq_3 processPage_def pMap_def askNode_def summaryOf_def BigNumber_from_7
        txMapper_def nodeTransaction_def nodeBlock_def txZ_def
        scanTxid_def lower_acc fetchOrderForAddress_def)

text \<open>
  C4, amended. For every queued order id: an absent order, an absent deposit address and a
  failed page fetch are logged at error level and end the scan by a normal return. An
  exception thrown while a page that the loop reaches is filtered (a value that is not read
  as a number) or while one of its candidates (the first ten summaries with a positive
  value) is verified is not caught: the scan raises; so it does when a candidate passes the
  earlier checks and has no legacy gas price. What is raised is the exception of the first
  value of the page that is not read as a number, and on a page whose values are all read,
  the exception of the candidate whose mapper is the first to throw in the order in which
  the mappers settle. When the scan raises, none of the lines that it has logged reports an
  exception, and what it raises was thrown by the filter of a fetched page that is not
  empty or by the verification of one of its candidates.
\<close>

theorem order_scan_failures:
  "(find (\<lambda>row. order_id row = oid) (db ctx) = None \<longrightarrow>
      orderTask fuel getPage ctx oid w
        = (Some (Inr OrderAbsent),
           logger ErrorLevel (OrderNotFound oid) (logger Info (ProcessingQueuedTask oid) w)))
   \<and> (\<forall>order. find (\<lambda>row. order_id row = oid) (db ctx) = Some order
          \<and> depositAddress order = None \<longrightarrow>
      orderTask fuel getPage ctx oid w
        = (Some (Inr AddressAbsent),
           logger ErrorLevel (OrderHasNoDepositAddress oid)
             (logger Info (ProcessingQueuedTask oid) w)))
   \<and> (\<forall>order da k e. find (\<lambda>row. order_id row = oid) (db ctx) = Some order
          \<and> depositAddress order = Some da
          \<and> (\<forall>j<k. pageProceeds getPage ctx order oid (address da) (1 + j))
          \<and> getPage (address da) (createdAtBlockNumber order) (1 + k) = Inl e \<and> k < fuel \<longrightarrow>
      fst (orderTask fuel getPage ctx oid w) = Some (Inr FetchFailed)
      \<and> last (logs (snd (orderTask fuel getPage ctx oid w))) = (ErrorLevel, ErrorFetchingTxs e oid))
   \<and> (\<forall>order da k txs. find (\<lambda>row. order_id row = oid) (db ctx) = Some order
          \<and> depositAddress order = Some da
          \<and> (\<forall>j<k. pageProceeds getPage ctx order oid (address da) (1 + j))
          \<and> getPage (address da) (createdAtBlockNumber order) (1 + k) = Inr txs \<and> k < fuel
          \<and> ((\<exists>x \<in> set txs. \<not> numericValue x)
              \<or> (\<exists>s \<in> set (take 10 (filter positiveValue txs)). \<exists>e'.
                    fst (txMapper ctx order oid s noWorld) = Inl e')) \<longrightarrow>
      (\<exists>e. fst (orderTask fuel getPage ctx oid w) = Some (Inl e)))
   \<and> (\<forall>order da k txs before x after e.
          find (\<lambda>row. order_id row = oid) (db ctx) = Some order
          \<and> depositAddress order = Some da
          \<and> (\<forall>j<k. pageProceeds getPage ctx order oid (address da) (1 + j))
          \<and> getPage (address da) (createdAtBlockNumber order) (1 + k) = Inr txs \<and> k < fuel
          \<and> txs = before @ x # after \<and> (\<forall>y \<in> set before. numericValue y)
          \<and> BigNumber_from (es_value x) = Inl e \<longrightarrow>
      fst (orderTask fuel getPage ctx oid w) = Some (Inl e))
   \<and> (\<forall>order da k txs sooner s later e.
          find (\<lambda>row. order_id row = oid) (db ctx) = Some order
          \<and> depositAddress order = Some da
          \<and> (\<forall>j<k. pageProceeds getPage ctx order oid (address da) (1 + j))
          \<and> getPage (address da) (createdAtBlockNumber order) (1 + k) = Inr txs \<and> k < fuel
          \<and> (\<forall>y \<in> set txs. numericValue y)
          \<and> settleOrder ctx (take 10 (filter positiveValue txs)) = sooner @ s # later
          \<and> (\<forall>y \<in> set sooner. fst (txMapper ctx order oid y noWorld) = Inr ())
          \<and> fst (txMapper ctx order oid s noWorld) = Inl e \<longrightarrow>
      fst (orderTask fuel getPage ctx oid w) = Some (Inl e))
   \<and> (\<forall>order da k txs s. find (\<lambda>row. order_id row = oid) (db ctx) = Some order
          \<and> depositAddress order = Some da
          \<and> (\<forall>j<k. pageProceeds getPage ctx order oid (address da) (1 + j))
          \<and> getPage (address da) (createdAtBlockNumber order) (1 + k) = Inr txs
          \<and> (\<forall>t \<in> set txs. numericValue t)
          \<and> s \<in> set (take 10 (filter positiveValue txs))
          \<and> resolvesWellFormed ctx s \<and> verify_spec ctx order s = UnsupportedFeeModel
          \<and> k < fuel \<longrightarrow>
      (\<exists>e. fst (orderTask fuel getPage ctx oid w) = Some (Inl e)))
   \<and> (\<forall>e. fst (orderTask fuel getPage ctx oid w) = Some (Inl e) \<longrightarrow>
      list_all (\<lambda>line. \<not> reportsException line)
        (linesLogged w (snd (orderTask fuel getPage ctx oid w)))
      \<and> (\<exists>order da q txs. find (\<lambda>row. order_id row = oid) (db ctx) = Some order
          \<and> depositAddress order = Some da
          \<and> getPage (address da) (createdAtBlockNumber order) q = Inr txs \<and> txs \<noteq> []
          \<and> ((\<exists>x \<in> set txs. BigNumber_from (es_value x) = Inl e)
              \<or> (\<exists>s \<in> set (take 10 (filter positiveValue txs)).
                    fst (txMapper ctx order oid s noWorld) = Inl e))))"
proof (intro conjI allI impI)
  assume "find (\<lambda>row. order_id row = oid) (db ctx) = None"
  then show "orderTask fuel getPage ctx oid w
        = (Some (Inr OrderAbsent),
           logger ErrorLevel (OrderNotFound oid) (logger Info (ProcessingQueuedTask oid) w))"
    by (simp add: orderTask_def Let_def)
next
  fix order
  assume "find (\<lambda>row. order_id row = oid) (db ctx) = Some order \<and> depositAddress order = None"
  then show "orderTask fuel getPage ctx oid w
        = (Some (Inr AddressAbsent),
           logger ErrorLevel (OrderHasNoDepositAddress oid)
             (logger Info (ProcessingQueuedTask oid) w))"
    by (simp add: orderTask_def Let_def)
next
  fix order da k e
  assume a: "find (\<lambda>row. order_id row = oid) (db ctx) = Some order
          \<and> depositAddress order = Some da
          \<and> (\<forall>j<k. pageProceeds getPage ctx order oid (address da) (1 + j))
          \<and> getPage (address da) (createdAtBlockNumber order) (1 + k) = Inl e \<and> k < fuel"
  then have t: "orderTask fuel getPage ctx oid w
     = pageLoop fuel getPage ctx order oid (address da) 1 (logger Info (ProcessingQueuedTask oid) w)"
    using orderTask_found by blast
  from a have "\<forall>j<k. pageProceeds getPage ctx order oid (address da) (1 + j)"
    and "getPage (address da) (createdAtBlockNumber order) (1 + k) = Inl e" and "k < fuel"
    by blast+
  from pageLoop_fetch_failed [OF this]
  show "fst (orderTask fuel getPage ctx oid w) = Some (Inr FetchFailed)"
    and "last (logs (snd (orderTask fuel getPage ctx oid w))) = (ErrorLevel, ErrorFetchingTxs e oid)"
    unfolding t by blast+
next
  fix order da k txs
  assume a: "find (\<lambda>row. order_id row = oid) (db ctx) = Some order
          \<and> depositAddress order = Some da
          \<and> (\<forall>j<k. pageProceeds getPage ctx order oid (address da) (1 + j))
          \<and> getPage (address da) (createdAtBlockNumber order) (1 + k) = Inr txs \<and> k < fuel
          \<and> ((\<exists>x \<in> set txs. \<not> numericValue x)
              \<or> (\<exists>s \<in> set (take 10 (filter positiveValue txs)). \<exists>e'.
                    fst (txMapper ctx order oid s noWorld) = Inl e'))"
  then have t: "orderTask fuel getPage ctx oid w
     = pageLoop fuel getPage ctx order oid (address da) 1 (logger Info (ProcessingQueuedTask oid) w)"
    using orderTask_found by blast
  from a have thrown: "(\<exists>x \<in> set txs. \<not> numericValue x)
              \<or> (\<exists>s \<in> set (take 10 (filter positiveValue txs)). \<exists>e'.
                    fst (txMapper ctx order oid s noWorld) = Inl e')"
    by (elim conjE)
  from processPage_raises [OF thrown]
  obtain e where e: "fst (processPage ctx order oid txs noWorld) = Inl e" by blast
  from thrown have ne: "txs \<noteq> []" by auto
  from a have "\<forall>j<k. pageProceeds getPage ctx order oid (address da) (1 + j)"
    and "getPage (address da) (createdAtBlockNumber order) (1 + k) = Inr txs" and "k < fuel"
    by blast+
  from pageLoop_raises [OF this(1,2) ne e this(3)]
  show "\<exists>e. fst (orderTask fuel getPage ctx oid w) = Some (Inl e)"
    unfolding t by blast
next
  fix order da k txs before x after e
  assume a: "find (\<lambda>row. order_id row = oid) (db ctx) = Some order
          \<and> depositAddress order = Some da
          \<and> (\<forall>j<k. pageProceeds getPage ctx order oid (address da) (1 + j))
          \<and> getPage (address da) (createdAtBlockNumber order) (1 + k) = Inr txs \<and> k < fuel
          \<and> txs = before @ x # after \<and> (\<forall>y \<in> set before. numericValue y)
          \<and> BigNumber_from (es_value x) = Inl e"
  then have t: "orderTask fuel getPage ctx oid w
     = pageLoop fuel getPage ctx order oid (address da) 1 (logger Info (ProcessingQueuedTask oid) w)"
    using orderTask_found by blast
  from a have "txs = before @ x # after" and "\<forall>y \<in> set before. numericValue y"
    and "BigNumber_from (es_value x) = Inl e"
    by blast+
  from processPage_filter_thrown [OF this]
  have e: "fst (processPage ctx order oid txs noWorld) = Inl e" by simp
  from a have ne: "txs \<noteq> []" by auto
  from a have "\<forall>j<k. pageProceeds getPage ctx order oid (address da) (1 + j)"
    and "getPage (address da) (createdAtBlockNumber order) (1 + k) = Inr txs" and "k < fuel"
    by blast+
  from pageLoop_raises [OF this(1,2) ne e this(3)]
  show "fst (orderTask fuel getPage ctx oid w) = Some (Inl e)"
    unfolding t .
next
  fix order da k txs sooner s later e
  assume a: "find (\<lambda>row. order_id row = oid) (db ctx) = Some order
          \<and> depositAddress order = Some da
          \<and> (\<forall>j<k. pageProceeds getPage ctx order oid (address da) (1 + j))
          \<and> getPage (address da) (createdAtBlockNumber order) (1 + k) = Inr txs \<and> k < fuel
          \<and> (\<forall>y \<in> set txs. numericValue y)
          \<and> settleOrder ctx (take 10 (filter positiveValue txs)) = sooner @ s # later
          \<and> (\<forall>y \<in> set sooner. fst (txMapper ctx order oid y noWorld) = Inr ())
          \<and> fst (txMapper ctx order oid s noWorld) = Inl e"
  then have t: "orderTask fuel getPage ctx oid w
     = pageLoop fuel getPage ctx order oid (address da) 1 (logger Info (ProcessingQueuedTask oid) w)"
    using orderTask_found by blast
  from a have "\<forall>y \<in> set txs. numericValue y"
    and so: "settleOrder ctx (take 10 (filter positiveValue txs)) = sooner @ s # later"
    and "\<forall>y \<in> set sooner. fst (txMapper ctx order oid y noWorld) = Inr ()"
    and "fst (txMapper ctx order oid s noWorld) = Inl e"
    by blast+
  from processPage_first_thrown [OF this]
  have e: "fst (processPage ctx order oid txs noWorld) = Inl e" .
  have ne: "txs \<noteq> []"
  proof
    assume "txs = []"
    with so show False by (simp add: settleOrder_def)
  qed
  from a have "\<forall>j<k. pageProceeds getPage ctx order oid (address da) (1 + j)"
    and "getPage (address da) (createdAtBlockNumber order) (1 + k) = Inr txs" and "k < fuel"
    by blast+
  from pageLoop_raises [OF this(1,2) ne e this(3)]
  show "fst (orderTask fuel getPage ctx oid w) = Some (Inl e)"
    unfolding t .
next
  fix order da k txs s
  assume a: "find (\<lambda>row. order_id row = oid) (db ctx) = Some order
          \<and> depositAddress order = Some da
          \<and> (\<forall>j<k. pageProceeds getPage ctx order oid (address da) (1 + j))
          \<and> getPage (address da) (createdAtBlockNumber order) (1 + k) = Inr txs
          \<and> (\<forall>t \<in> set txs. numericValue t)
          \<and> s \<in> set (take 10 (filter positiveValue txs))
          \<and> resolvesWellFormed ctx s \<and> verify_spec ctx order s = UnsupportedFeeModel
          \<and> k < fuel"
  then have t: "orderTask fuel getPage ctx oid w
     = pageLoop fuel getPage ctx order oid (address da) 1 (logger Info (ProcessingQueuedTask oid) w)"
    using orderTask_found by blast
  from a have n: "\<forall>t \<in> set txs. numericValue t"
    and c: "s \<in> set (take 10 (filter positiveValue txs))"
    and wf: "resolvesWellFormed ctx s" and v: "verify_spec ctx order s = UnsupportedFeeModel"
    by blast+
  from processPage_unsupported [OF n c wf v]
  obtain e where e: "fst (processPage ctx order oid txs noWorld) = Inl e" by blast
  from c have ne: "txs \<noteq> []" by auto
  from a have "\<forall>j<k. pageProceeds getPage ctx order oid (address da) (1 + j)"
    and "getPage (address da) (createdAtBlockNumber order) (1 + k) = Inr txs" and "k < fuel"
    by blast+
  from pageLoop_raises [OF this(1,2) ne e this(3)]
  show "\<exists>e. fst (orderTask fuel getPage ctx oid w) = Some (Inl e)"
    unfolding t by blast
next
  fix e
  assume r: "fst (orderTask fuel getPage ctx oid w) = Some (Inl e)"
  then have "fst (orderTask fuel getPage ctx oid w) \<noteq> Some (Inr FetchFailed)" by simp
  then show "list_all (\<lambda>line. \<not> reportsException line)
        (linesLogged w (snd (orderTask fuel getPage ctx oid w)))"
    by (rule orderTask_logs)
  from orderTask_raised_origin [OF r]
  obtain order da q txs where o: "find (\<lambda>row. order_id row = oid) (db ctx) = Some order"
      "depositAddress order = Some da"
      "getPage (address da) (createdAtBlockNumber order) q = Inr txs" "txs \<noteq> []"
    and p: "fst (processPage ctx order oid txs noWorld) = Inl e"
    by (elim exE conjE) (rule that; assumption)
  from processPage_thrown [OF p] o
  show "\<exists>order da q txs. find (\<lambda>row. order_id row = oid) (db ctx) = Some order
          \<and> depositAddress order = Some da
          \<and> getPage (address da) (createdAtBlockNumber order) q = Inr txs \<and> txs \<noteq> []
          \<and> ((\<exists>x \<in> set txs. BigNumber_from (es_value x) = Inl e)
              \<or> (\<exists>s \<in> set (take 10 (filter positiveValue txs)).
                    fst (txMapper ctx order oid s noWorld) = Inl e))"
    by blast
qed

text \<open>
  The cases in the example: no order, an order without deposit address, a failing
  explorer, the page with transaction \<open>Z\<close>, whose exception leaves the scan with nothing
  logged about it, a page with a value that is not read as a number, and the page on which
  \<open>Z\<close> and \<open>B\<close> throw, where the exception of \<open>B\<close>, which settles first, is the one
  raised.
\<close>

theorem order_scan_failures_witness:
  "find (\<lambda>row. order_id row = ''o1'') (db forgottenCtx) = None
   \<and> orderTask 3 pagesA forgottenCtx ''o1'' noWorld
       = (Some (Inr OrderAbsent),
          logger ErrorLevel (OrderNotFound ''o1'')
            (logger Info (ProcessingQueuedTask ''o1'') noWorld))
   \<and> find (\<lambda>row. order_id row = ''o2'') (db unassignedCtx) = Some order2
   \<and> depositAddress order2 = None
   \<and> orderTask 3 pagesA unassignedCtx ''o2'' noWorld
       = (Some (Inr AddressAbsent),
          logger ErrorLevel (OrderHasNoDepositAddress ''o2'')
            (logger Info (ProcessingQueuedTask ''o2'') noWorld))
   \<and> find (\<lambda>row. order_id row = ''o1'') (db exampleCtx) = Some order1
   \<and> depositAddress order1 = Some \<lparr>address = ''0xd1''\<rparr>
   \<and> pagesF ''0xd1'' (createdAtBlockNumber order1) (1 + 0) = Inl (AxiosError ''Network Error'')
   \<and> fst (orderTask 3 pagesF exampleCtx ''o1'' noWorld) = Some (Inr FetchFailed)
   \<and> last (logs (snd (orderTask 3 pagesF exampleCtx ''o1'' noWorld)))
       = (ErrorLevel, ErrorFetchingTxs (AxiosError ''Network Error'') ''o1'')
   \<and> pagesC ''0xd1'' (createdAtBlockNumber order1) (1 + 0) = Inr [summaryOf ''Z'' ''7'']
   \<and> numericValue (summaryOf ''Z'' ''7'')
   \<and> summaryOf ''Z'' ''7'' \<in> set (take 10 (filter positiveValue [summaryOf ''Z'' ''7'']))
   \<and> resolvesWellFormed exampleCtx (summaryOf ''Z'' ''7'')
   \<and> verify_spec exampleCtx order1 (summaryOf ''Z'' ''7'') = UnsupportedFeeModel
   \<and> (\<exists>e. fst (orderTask 3 pagesC exampleCtx ''o1'' noWorld) = Some (Inl e))
   \<and> fst (orderTask 3 pagesC exampleCtx ''o1'' noWorld)
       = Some (Inl (Error ''Unsupported EIP-1559 sweep transaction''))
   \<and> list_all (\<lambda>line. \<not> reportsException line)
       (linesLogged noWorld (snd (orderTask 3 pagesC exampleCtx ''o1'' noWorld)))
   \<and> linesLogged noWorld (snd (orderTask 3 pagesC exampleCtx ''o1'' noWorld))
       = [(Info, ProcessingQueuedTask ''o1''), (Info, FoundTransactions 1 ''o1''),
          (Info, ScanningTx ''Z'')]
   \<and> pagesH ''0xd1'' (createdAtBlockNumber order1) (1 + 0) = Inr [summaryOf ''X'' ''0X5'']
   \<and> BigNumber_from (es_value (summaryOf ''X'' ''0X5'')) = Inl (Error ''Invalid character'')
   \<and> fst (orderTask 3 pagesH exampleCtx ''o1'' noWorld) = Some (Inl (Error ''Invalid character''))
   \<and> find (\<lambda>row. order_id row = ''o1'') (db racingCtx) = Some order1
   \<and> pagesR ''0xd1'' (createdAtBlockNumber order1) (1 + 0)
       = Inr [summaryOf ''Z'' ''7'', summaryOf ''B'' ''4'']
   \<and> list_all numericValue [summaryOf ''Z'' ''7'', summaryOf ''B'' ''4'']
   \<and> settleOrder racingCtx (take 10 (filter positiveValue [summaryOf ''Z'' ''7'', summaryOf ''B'' ''4'']))
       = [] @ summaryOf ''B'' ''4'' # [summaryOf ''Z'' ''7'']
   \<and> fst (txMapper racingCtx order1 ''o1'' (summaryOf ''Z'' ''7'') noWorld)
       = Inl (Error ''Unsupported EIP-1559 sweep transaction'')
   \<and> fst (txMapper racingCtx order1 ''o1'' (summaryOf ''B'' ''4'') noWorld)
       = Inl (TypeError ''Cannot read properties of null'')
   \<and> fst (orderTask 3 pagesR racingCtx ''o1'' noWorld)
       = Some (Inl (TypeError ''Cannot read properties of null''))"
proof -
  note defs = resolvesWellFormed_def verify_spec_def staleBlock_def exampleCtx_def
    summaryOf_def nodeTransaction_def nodeBlock_def order1_def lower_acc txZ_def
  have a1: "find (\<lambda>row. order_id row = ''o1'') (db forgottenCtx) = None"
    by (simp add: forgottenCtx_def exampleCtx_def)
  have a2: "orderTask 3 pagesA forgottenCtx ''o1'' noWorld
       = (Some (Inr OrderAbsent),
          logger ErrorLevel (OrderNotFound ''o1'')
            (logger Info (ProcessingQueuedTask ''o1'') noWorld))"
  proof -
    from order_scan_failures [where oid = "''o1''" and ctx = forgottenCtx and fuel = 3
        and getPage = pagesA and w = noWorld]
    have "find (\<lambda>row. order_id row = ''o1'') (db forgottenCtx) = None \<longrightarrow>
      orderTask 3 pagesA forgottenCtx ''o1'' noWorld
        = (Some (Inr OrderAbsent),
           logger ErrorLevel (OrderNotFound ''o1'')
             (logger Info (ProcessingQueuedTask ''o1'') noWorld))"
      by (elim conjE)
    with a1 show ?thesis by (rule rev_mp)
  qed
  have b1: "find (\<lambda>row. order_id row = ''o2'') (db unassignedCtx) = Some order2"
    by (simp add: unassignedCtx_def exampleCtx_def order2_def)
  have b2: "depositAddress order2 = None" by (simp add: order2_def)
  have b3: "orderTask 3 pagesA unassignedCtx ''o2'' noWorld
       = (Some (Inr AddressAbsent),
          logger ErrorLevel (OrderHasNoDepositAddress ''o2'')
            (logger Info (ProcessingQueuedTask ''o2'') noWorld))"
  proof -
    from order_scan_failures [where oid = "''o2''" and ctx = unassignedCtx and fuel = 3
        and getPage = pagesA and w = noWorld]
    have "\<forall>order. find (\<lambda>row. order_id row = ''o2'') (db unassignedCtx) = Some order
          \<and> depositAddress order = None \<longrightarrow>
      orderTask 3 pagesA unassignedCtx ''o2'' noWorld
        = (Some (Inr AddressAbsent),
           logger ErrorLevel (OrderHasNoDepositAddress ''o2'')
             (logger Info (ProcessingQueuedTask ''o2'') noWorld))"
      by (elim conjE)
    from this [rule_format, of order2] b1 b2 show ?thesis by simp
  qed
  have c1: "find (\<lambda>row. order_id row = ''o1'') (db exampleCtx) = Some order1"
    by (simp add: exampleCtx_def order1_def)
  have c2: "depositAddress order1 = Some \<lparr>address = ''0xd1''\<rparr>" by (simp add: order1_def)
  have c3: "pagesF ''0xd1'' (createdAtBlockNumber order1) (1 + 0) = Inl (AxiosError ''Network Error'')"
    by (simp add: pagesF_def)
  have c0: "\<forall>j<0. pageProceeds pagesF exampleCtx order1 ''o1''
      (address \<lparr>address = ''0xd1''\<rparr>) (1 + j)" by simp
  have c3': "pagesF (address \<lparr>address = ''0xd1''\<rparr>) (createdAtBlockNumber order1) (1 + 0)
      = Inl (AxiosError ''Network Error'')"
    by (simp add: pagesF_def)
  have c4: "fst (orderTask 3 pagesF exampleCtx ''o1'' noWorld) = Some (Inr FetchFailed)
      \<and> last (logs (snd (orderTask 3 pagesF exampleCtx ''o1'' noWorld)))
          = (ErrorLevel, ErrorFetchingTxs (AxiosError ''Network Error'') ''o1'')"
  proof -
    from order_scan_failures [where oid = "''o1''" and ctx = exampleCtx and fuel = 3
        and getPage = pagesF and w = noWorld]
    have "\<forall>order da k e. find (\<lambda>row. order_id row = ''o1'') (db exampleCtx) = Some order
          \<and> depositAddress order = Some da
          \<and> (\<forall>j<k. pageProceeds pagesF exampleCtx order ''o1'' (address da) (1 + j))
          \<and> pagesF (address da) (createdAtBlockNumber order) (1 + k) = Inl e \<and> k < 3 \<longrightarrow>
      fst (orderTask 3 pagesF exampleCtx ''o1'' noWorld) = Some (Inr FetchFailed)
      \<and> last (logs (snd (orderTask 3 pagesF exampleCtx ''o1'' noWorld)))
          = (ErrorLevel, ErrorFetchingTxs e ''o1'')"
      by (elim conjE)
    from this [rule_format, of order1 "\<lparr>address = ''0xd1''\<rparr>" 0 "AxiosError ''Network Error''"]
    show ?thesis using c1 c2 c0 c3' by simp
  qed
  have d1: "pagesC ''0xd1'' (createdAtBlockNumber order1) (1 + 0) = Inr [summaryOf ''Z'' ''7'']"
    by (simp add: pagesC_def)
  have d1': "pagesC (address \<lparr>address = ''0xd1''\<rparr>) (createdAtBlockNumber order1) (1 + 0)
      = Inr [summaryOf ''Z'' ''7'']"
    by (simp add: pagesC_def)
  have d2: "numericValue (summaryOf ''Z'' ''7'')"
    by (simp add: numericValue_def summaryOf_def BigNumber_from_7)
  have d2': "\<forall>t \<in> set [summaryOf ''Z'' ''7'']. numericValue t" using d2 by simp
  have d3: "summaryOf ''Z'' ''7'' \<in> set (take 10 (filter positiveValue [summaryOf ''Z'' ''7'']))"
    by (simp add: positiveValue_def summaryOf_def BigNumber_from_7)
  have d4: "resolvesWellFormed exampleCtx (summaryOf ''Z'' ''7'')" by (simp add: defs)
  have d5: "verify_spec exampleCtx order1 (summaryOf ''Z'' ''7'') = UnsupportedFeeModel"
    by (simp add: defs)
  have d0: "\<forall>j<0. pageProceeds pagesC exampleCtx order1 ''o1''
      (address \<lparr>address = ''0xd1''\<rparr>) (1 + j)" by simp
  note t = order_scan_failures [where oid = "''o1''" and ctx = exampleCtx and fuel = 3
        and getPage = pagesC and w = noWorld]
  have d6: "\<exists>e. fst (orderTask 3 pagesC exampleCtx ''o1'' noWorld) = Some (Inl e)"
  proof -
    from t have "\<forall>order da k txs s. find (\<lambda>row. order_id row = ''o1'') (db exampleCtx) = Some order
          \<and> depositAddress order = Some da
          \<and> (\<forall>j<k. pageProceeds pagesC exampleCtx order ''o1'' (address da) (1 + j))
          \<and> pagesC (address da) (createdAtBlockNumber order) (1 + k) = Inr txs
          \<and> (\<forall>t \<in> set txs. numericValue t)
          \<and> s \<in> set (take 10 (filter positiveValue txs))
          \<and> resolvesWellFormed exampleCtx s \<and> verify_spec exampleCtx order s = UnsupportedFeeModel
          \<and> k < 3 \<longrightarrow>
      (\<exists>e. fst (orderTask 3 pagesC exampleCtx ''o1'' noWorld) = Some (Inl e))"
      by (elim conjE)
    from this [rule_format, of order1 "\<lparr>address = ''0xd1''\<rparr>" 0 "[summaryOf ''Z'' ''7'']"
        "summaryOf ''Z'' ''7''"]
    show ?thesis using c1 c2 d0 d1' d2' d3 d4 d5 by simp
  qed
  have runC: "orderTask 3 pagesC exampleCtx ''o1'' noWorld =
     (Some (Inl (Error ''Unsupported EIP-1559 sweep transaction'')),
      \<lparr>deposits = [], requests = [],
       logs = [(Info, ProcessingQueuedTask ''o1''), (Info, FoundTransactions 1 ''o1''),
               (Info, ScanningTx ''Z'')],
       fetched = [(''0xd1'', 100, 1)], lookups = [''Z'']\<rparr>)"
    by (simp add: orderTask_def exampleCtx_def order1_def pagesC_def noWorld_def logger_def
        numeral_3_eq_3 processPage_def pMap_def askNode_def summaryOf_def BigNumber_from_7
        txMapper_def nodeTransaction_def nodeBlock_def txZ_def
        scanTxid_def lower_acc fetchOrderForAddress_def)
  have d7: "fst (orderTask 3 pagesC exampleCtx ''o1'' noWorld)
       = Some (Inl (Error ''Unsupported EIP-1559 sweep transaction''))"
    by (simp add: runC)
  have d8: "list_all (\<lambda>line. \<not> reportsException line)
       (linesLogged noWorld (snd (orderTask 3 pagesC exampleCtx ''o1'' noWorld)))"
  proof -
    from t have "\<forall>e. fst (orderTask 3 pagesC exampleCtx ''o1'' noWorld) = Some (Inl e) \<longrightarrow>
      list_all (\<lambda>line. \<not> reportsException line)
        (linesLogged noWorld (snd (orderTask 3 pagesC exampleCtx ''o1'' noWorld)))
      \<and> (\<exists>order da q txs. find (\<lambda>row. order_id row = ''o1'') (db exampleCtx) = Some order
          \<and> depositAddress order = Some da
          \<and> pagesC (address da) (createdAtBlockNumber order) q = Inr txs \<and> txs \<noteq> []
          \<and> ((\<exists>x \<in> set txs. BigNumber_from (es_value x) = Inl e)
              \<or> (\<exists>s \<in> set (take 10 (filter positiveValue txs)).
                    fst (txMapper exampleCtx order ''o1'' s noWorld) = Inl e)))"
      by (elim conjE)
    from this [rule_format, OF d7] show ?thesis by (rule conjunct1)
  qed
  have d9: "linesLogged noWorld (snd (orderTask 3 pagesC exampleCtx ''o1'' noWorld))
       = [(Info, ProcessingQueuedTask ''o1''), (Info, FoundTransactions 1 ''o1''),
          (Info, ScanningTx ''Z'')]"
    by (simp add: runC linesLogged_def)
  have e1: "pagesH ''0xd1'' (createdAtBlockNumber order1) (1 + 0) = Inr [summaryOf ''X'' ''0X5'']"
    by (simp add: pagesH_def)
  have e2: "BigNumber_from (es_value (summaryOf ''X'' ''0X5'')) = Inl (Error ''Invalid character'')"
    by (simp add: summaryOf_def BigNumber_from_upper)
  have e1': "pagesH (address \<lparr>address = ''0xd1''\<rparr>) (createdAtBlockNumber order1) (1 + 0)
      = Inr [summaryOf ''X'' ''0X5'']"
    by (simp add: pagesH_def)
  have e0: "\<forall>j<0. pageProceeds pagesH exampleCtx order1 ''o1''
      (address \<lparr>address = ''0xd1''\<rparr>) (1 + j)" by simp
  have e3: "fst (orderTask 3 pagesH exampleCtx ''o1'' noWorld) = Some (Inl (Error ''Invalid character''))"
  proof -
    from order_scan_failures [where oid = "''o1''" and ctx = exampleCtx and fuel = 3
        and getPage = pagesH and w = noWorld]
    have "\<forall>order da k txs before x after e.
          find (\<lambda>row. order_id row = ''o1'') (db exampleCtx) = Some order
          \<and> depositAddress order = Some da
          \<and> (\<forall>j<k. pageProceeds pagesH exampleCtx order ''o1'' (address da) (1 + j))
          \<and> pagesH (address da) (createdAtBlockNumber order) (1 + k) = Inr txs \<and> k < 3
          \<and> txs = before @ x # after \<and> (\<forall>y \<in> set before. numericValue y)
          \<and> BigNumber_from (es_value x) = Inl e \<longrightarrow>
      fst (orderTask 3 pagesH exampleCtx ''o1'' noWorld) = Some (Inl e)"
      by (elim conjE)
    from this [rule_format, of order1 "\<lparr>address = ''0xd1''\<rparr>" 0 "[summaryOf ''X'' ''0X5'']"
        "[]" "summaryOf ''X'' ''0X5''" "[]" "Error ''Invalid character''"]
    show ?thesis using c1 c2 e0 e1' e2 by simp
  qed
  have f1: "find (\<lambda>row. order_id row = ''o1'') (db racingCtx) = Some order1"
    by (simp add: racingCtx_def exampleCtx_def order1_def)
  have f2: "pagesR ''0xd1'' (createdAtBlockNumber order1) (1 + 0)
       = Inr [summaryOf ''Z'' ''7'', summaryOf ''B'' ''4'']"
    by (simp add: pagesR_def)
  have f3: "fst (txMapper racingCtx order1 ''o1'' (summaryOf ''Z'' ''7'') noWorld)
       = Inl (Error ''Unsupported EIP-1559 sweep transaction'')"
    by (simp add: racingCtx_def exampleCtx_def order1_def noWorld_def logger_def summaryOf_def
        txMapper_def nodeTransaction_def nodeBlock_def txZ_def scanTxid_def lower_acc)
  have f4: "fst (txMapper racingCtx order1 ''o1'' (summaryOf ''B'' ''4'') noWorld)
       = Inl (TypeError ''Cannot read properties of null'')"
    by (simp add: racingCtx_def exampleCtx_def order1_def noWorld_def logger_def summaryOf_def
        txMapper_def nodeBlock_def txB_def)
  have f2': "pagesR (address \<lparr>address = ''0xd1''\<rparr>) (createdAtBlockNumber order1) (1 + 0)
       = Inr [summaryOf ''Z'' ''7'', summaryOf ''B'' ''4'']"
    by (simp add: pagesR_def)
  have f0: "\<forall>j<0. pageProceeds pagesR racingCtx order1 ''o1''
      (address \<lparr>address = ''0xd1''\<rparr>) (1 + j)" by simp
  have f6: "list_all numericValue [summaryOf ''Z'' ''7'', summaryOf ''B'' ''4'']"
    by (simp add: numericValue_def summaryOf_def BigNumber_from_7 densePage_values)
  then have f6': "\<forall>y \<in> set [summaryOf ''Z'' ''7'', summaryOf ''B'' ''4'']. numericValue y"
    by (simp only: list_all_iff)
  have f7: "settleOrder racingCtx (take 10 (filter positiveValue [summaryOf ''Z'' ''7'', summaryOf ''B'' ''4'']))
       = [] @ summaryOf ''B'' ''4'' # [summaryOf ''Z'' ''7'']"
    by (simp add: settleOrder_def racingCtx_def positiveValue_def summaryOf_def BigNumber_from_7
        densePage_values)
  have f8: "\<forall>y \<in> set []. fst (txMapper racingCtx order1 ''o1'' y noWorld) = Inr ()" by simp
  have f5: "fst (orderTask 3 pagesR racingCtx ''o1'' noWorld)
       = Some (Inl (TypeError ''Cannot read properties of null''))"
  proof -
    from order_scan_failures [where oid = "''o1''" and ctx = racingCtx and fuel = 3
        and getPage = pagesR and w = noWorld]
    have "\<forall>order da k txs sooner s later e.
          find (\<lambda>row. order_id row = ''o1'') (db racingCtx) = Some order
          \<and> depositAddress order = Some da
          \<and> (\<forall>j<k. pageProceeds pagesR racingCtx order ''o1'' (address da) (1 + j))
          \<and> pagesR (address da) (createdAtBlockNumber order) (1 + k) = Inr txs \<and> k < 3
          \<and> (\<forall>y \<in> set txs. numericValue y)
          \<and> settleOrder racingCtx (take 10 (filter positiveValue txs)) = sooner @ s # later
          \<and> (\<forall>y \<in> set sooner. fst (txMapper racingCtx order ''o1'' y noWorld) = Inr ())
          \<and> fst (txMapper racingCtx order ''o1'' s noWorld) = Inl e \<longrightarrow>
      fst (orderTask 3 pagesR racingCtx ''o1'' noWorld) = Some (Inl e)"
      by (elim conjE)
    from this [rule_format, of order1 "\<lparr>address = ''0xd1''\<rparr>" 0
        "[summaryOf ''Z'' ''7'', summaryOf ''B'' ''4'']" "[]" "summaryOf ''B'' ''4''"
        "[summaryOf ''Z'' ''7'']" "TypeError ''Cannot read properties of null''"]
    show ?thesis using f1 c2 f0 f2' f6' f7 f8 f4 by simp
  qed
  show ?thesis
    by (intro conjI a1 a2 b1 b2 b3 c1 c2 c3 conjunct1 [OF c4] conjunct2 [OF c4]
        d1 d2 d3 d4 d5 d6 d7 d8 d9 e1 e2 e3 f1 f2 f6 f7 f3 f4 f5)
qed

text \<open>
  C5. Every credit request sent during a scan names an order of the table whose deposit
  method is the native method and whose stored deposit address is the sender of the
  credited transaction; with order ids as primary key, no other row has that id.
\<close>

theorem credit_goes_to_order_of_sender:
  "\<forall>req \<in> set (issuedRequests w (snd (orderTask fuel getPage ctx oid w))).
     \<exists>h tx row da. getTransaction ctx h = Some tx \<and> txid req = tx_hash tx
       \<and> row \<in> set (db ctx) \<and> order_id row = orderId req
       \<and> depositMethod row = method_id (nativeMethod ctx)
       \<and> depositAddress row = Some da \<and> address da = tx_from tx
       \<and> (distinct (map order_id (db ctx)) \<longrightarrow>
            (\<forall>row' \<in> set (db ctx). order_id row' = orderId req \<longrightarrow> row' = row))"
proof
  fix req
  assume "req \<in> set (issuedRequests w (snd (orderTask fuel getPage ctx oid w)))"
  then have "req \<in> set (requests (snd (orderTask fuel getPage ctx oid noWorld)))"
    by (simp add: orderTask_issued)
  from orderTask_origin [OF this]
  obtain order da0 q txs s where "find (\<lambda>row. order_id row = oid) (db ctx) = Some order"
    and "depositAddress order = Some da0"
    and "getPage (address da0) (createdAtBlockNumber order) q = Inr txs"
    and "s \<in> set txs" and v: "verifiedCredit ctx order (es_hash s) req"
    by (elim exE conjE) (rule that; assumption)
  from verifiedCredit_fields [OF v]
  obtain tx where r: "getTransaction ctx (es_hash s) = Some tx" and c: "creditOf ctx tx req"
    by blast
  from creditOf_fields [OF c]
  obtain found where f: "fetchOrderForAddress ctx (tx_from tx) = Some found"
    and q: "orderId req = order_id found" "txid req = tx_hash tx"
    by auto
  from fetchOrderForAddress_Some [OF f]
  obtain da where m: "found \<in> set (db ctx)" "depositMethod found = method_id (nativeMethod ctx)"
      "depositAddress found = Some da" "address da = tx_from tx"
    by blast
  have "distinct (map order_id (db ctx)) \<longrightarrow>
      (\<forall>row' \<in> set (db ctx). order_id row' = orderId req \<longrightarrow> row' = found)"
    using primary_key [of "db ctx" found] m(1) q(1) by auto
  with r q m show "\<exists>h tx row da. getTransaction ctx h = Some tx \<and> txid req = tx_hash tx
       \<and> row \<in> set (db ctx) \<and> order_id row = orderId req
       \<and> depositMethod row = method_id (nativeMethod ctx)
       \<and> depositAddress row = Some da \<and> address da = tx_from tx
       \<and> (distinct (map order_id (db ctx)) \<longrightarrow>
            (\<forall>row' \<in> set (db ctx). order_id row' = orderId req \<longrightarrow> row' = row))"
    by metis
qed

text \<open>The request of the example scan names \<open>o1\<close>, whose deposit address sent \<open>X\<close>.\<close>

theorem credit_goes_to_order_of_sender_witness:
  "issuedRequests noWorld (snd (orderTask 3 pagesA exampleCtx ''o1'' noWorld))
     = [\<lparr>orderId = ''o1'', txid = ''X'', amount = formatEther 42005, uniqueId = ''eth:X''\<rparr>]
   \<and> distinct (map order_id (db exampleCtx))
   \<and> (\<exists>h tx row da. getTransaction exampleCtx h = Some tx \<and> ''X'' = tx_hash tx
       \<and> row \<in> set (db exampleCtx) \<and> order_id row = ''o1''
       \<and> depositMethod row = method_id (nativeMethod exampleCtx)
       \<and> depositAddress row = Some da \<and> address da = tx_from tx
       \<and> (\<forall>row' \<in> set (db exampleCtx). order_id row' = ''o1'' \<longrightarrow> row' = row))"
proof -
  have i: "issuedRequests noWorld (snd (orderTask 3 pagesA exampleCtx ''o1'' noWorld))
      = [\<lparr>orderId = ''o1'', txid = ''X'', amount = formatEther 42005, uniqueId = ''eth:X''\<rparr>]"
    by (simp add: issuedRequests_def runA)
  have d: "distinct (map order_id (db exampleCtx))"
    by (simp add: exampleCtx_def)
  note t = credit_goes_to_order_of_sender [of noWorld 3 pagesA exampleCtx "''o1''"]
  have "\<exists>h tx row da. getTransaction exampleCtx h = Some tx \<and> ''X'' = tx_hash tx
       \<and> row \<in> set (db exampleCtx) \<and> order_id row = ''o1''
       \<and> depositMethod row = method_id (nativeMethod exampleCtx)
       \<and> depositAddress row = Some da \<and> address da = tx_from tx
       \<and> (distinct (map order_id (db exampleCtx)) \<longrightarrow>
            (\<forall>row' \<in> set (db exampleCtx). order_id row' = ''o1'' \<longrightarrow> row' = row))"
    using t unfolding i by simp
  with i d show ?thesis by blast
qed

text \<open>
  C6 as the claim states it fails: every fetch of the example succeeds, and the first
  page, which is not empty, ends the scan, because its candidate \<open>Z\<close> makes the
  verification throw; page 2, which is empty, is never asked for.
\<close>

theorem nonempty_page_ends_scan:
  "pagesC ''0xd1'' 100 1 = Inr [summaryOf ''Z'' ''7''] \<and> pagesC ''0xd1'' 100 2 = Inr []
   \<and> pageLoop 3 pagesC exampleCtx order1 ''o1'' ''0xd1'' 1 noWorld =
       (Some (Inl (Error ''Unsupported EIP-1559 sweep transaction'')),
        \<lparr>deposits = [], requests = [],
         logs = [(Info, FoundTransactions 1 ''o1''), (Info, ScanningTx ''Z'')],
         fetched = [(''0xd1'', 100, 1)], lookups = [''Z'']\<rparr>)"
  by (simp add: exampleCtx_def order1_def pagesC_def noWorld_def logger_def
        numeral_3_eq_3 processPage_def pMap_def askNode_def summaryOf_def BigNumber_from_7
        txMapper_def nodeTransaction_def nodeBlock_def txZ_def
        scanTxid_def lower_acc fetchOrderForAddress_def)

text \<open>
  C6, amended. Given that page fetches keep succeeding and that nothing is thrown while a
  page is filtered and its candidates are verified: as long as the pages are not empty the
  loop goes on (with \<open>fuel\<close> iterations it has asked for the pages 1 to \<open>fuel\<close>, in this
  order, and has not ended), and if \<open>k\<close> is the first empty page the loop ends there, by
  \<^verbatim>\<open>hasMorePages = false\<close>, for every amount of fuel of at least \<open>k\<close>, having asked for the
  pages 1 to \<open>k\<close> in increasing order.
\<close>

theorem page_loop_ends_at_first_empty_page:
  assumes fetches: "\<forall>q. \<exists>txs. getPage addr (createdAtBlockNumber order) q = Inr txs"
    and quiet: "\<forall>q txs. getPage addr (createdAtBlockNumber order) q = Inr txs \<longrightarrow>
                  fst (processPage ctx order oid txs noWorld) = Inr ()"
  shows "((\<forall>q. 1 \<le> q \<and> q \<le> fuel \<longrightarrow> getPage addr (createdAtBlockNumber order) q \<noteq> Inr []) \<longrightarrow>
            fst (pageLoop fuel getPage ctx order oid addr 1 w) = None
            \<and> pagesFetched w (snd (pageLoop fuel getPage ctx order oid addr 1 w))
                = map (\<lambda>q. (addr, createdAtBlockNumber order, q)) [1..<Suc fuel])
    \<and> (\<forall>k. 1 \<le> k \<and> k \<le> fuel \<and> getPage addr (createdAtBlockNumber order) k = Inr []
            \<and> (\<forall>q. 1 \<le> q \<and> q < k \<longrightarrow> getPage addr (createdAtBlockNumber order) q \<noteq> Inr []) \<longrightarrow>
            fst (pageLoop fuel getPage ctx order oid addr 1 w) = Some (Inr NoMorePages)
            \<and> pagesFetched w (snd (pageLoop fuel getPage ctx order oid addr 1 w))
                = map (\<lambda>q. (addr, createdAtBlockNumber order, q)) [1..<Suc k])"
proof -
  have proceeds: "pageProceeds getPage ctx order oid addr q"
    if "getPage addr (createdAtBlockNumber order) q \<noteq> Inr []" for q
  proof -
    from fetches obtain txs where t: "getPage addr (createdAtBlockNumber order) q = Inr txs"
      by blast
    with that have "txs \<noteq> []" by auto
    with t quiet show ?thesis by (simp add: pageProceeds_def)
  qed
  have one: "fst (pageLoop fuel getPage ctx order oid addr 1 w) = None
      \<and> pagesFetched w (snd (pageLoop fuel getPage ctx order oid addr 1 w))
          = map (\<lambda>q. (addr, createdAtBlockNumber order, q)) [1..<Suc fuel]"
    if "\<forall>q. 1 \<le> q \<and> q \<le> fuel \<longrightarrow> getPage addr (createdAtBlockNumber order) q \<noteq> Inr []"
  proof -
    from that have "\<forall>j<fuel. pageProceeds getPage ctx order oid addr (1 + j)"
      by (auto intro: proceeds)
    from pageLoop_paging [OF this, of w] show ?thesis by simp
  qed
  have two: "fst (pageLoop fuel getPage ctx order oid addr 1 w) = Some (Inr NoMorePages)
      \<and> pagesFetched w (snd (pageLoop fuel getPage ctx order oid addr 1 w))
          = map (\<lambda>q. (addr, createdAtBlockNumber order, q)) [1..<Suc k]"
    if "1 \<le> k \<and> k \<le> fuel \<and> getPage addr (createdAtBlockNumber order) k = Inr []
        \<and> (\<forall>q. 1 \<le> q \<and> q < k \<longrightarrow> getPage addr (createdAtBlockNumber order) q \<noteq> Inr [])" for k
  proof -
    from that obtain k' where k: "k = 1 + k'" by (cases k) auto
    from that k have "\<forall>j<k'. pageProceeds getPage ctx order oid addr (1 + j)"
      by (auto intro: proceeds)
    moreover from that k have "getPage addr (createdAtBlockNumber order) (1 + k') = Inr []"
      by simp
    moreover from that k have "k' < fuel" by simp
    ultimately show ?thesis
      using pageLoop_exhausted [of k' getPage ctx order oid addr 1 fuel w] k by simp
  qed
  from one two show ?thesis by blast
qed

text \<open>The example with the pages \<open>[X, Y]\<close> and \<open>[]\<close>: the loop ends at page 2.\<close>

theorem page_loop_ends_at_first_empty_page_witness:
  "pagesA ''0xd1'' (createdAtBlockNumber order1) 1 = Inr [summaryOf ''X'' ''5'', summaryOf ''Y'' ''3'']
   \<and> fst (processPage exampleCtx order1 ''o1'' [summaryOf ''X'' ''5'', summaryOf ''Y'' ''3''] noWorld)
       = Inr ()
   \<and> pagesA ''0xd1'' (createdAtBlockNumber order1) 2 = Inr []
   \<and> (1::nat) \<le> 2 \<and> (2::nat) \<le> 3
   \<and> fst (pageLoop 3 pagesA exampleCtx order1 ''o1'' ''0xd1'' 1 noWorld) = Some (Inr NoMorePages)
   \<and> pagesFetched noWorld (snd (pageLoop 3 pagesA exampleCtx order1 ''o1'' ''0xd1'' 1 noWorld))
       = [(''0xd1'', 100, 1), (''0xd1'', 100, 2)]"
proof -
  have h1: "\<forall>q. \<exists>txs. pagesA ''0xd1'' (createdAtBlockNumber order1) q = Inr txs"
    by (simp add: pagesA_def)
  have h2: "\<forall>q txs. pagesA ''0xd1'' (createdAtBlockNumber order1) q = Inr txs \<longrightarrow>
         fst (processPage exampleCtx order1 ''o1'' txs noWorld) = Inr ()"
    by (auto simp: pagesA_def pageA_quiet processPage_Nil split: if_splits)
  have p1: "pagesA ''0xd1'' (createdAtBlockNumber order1) 1
      = Inr [summaryOf ''X'' ''5'', summaryOf ''Y'' ''3'']"
    by (simp add: pagesA_def)
  have p2: "pagesA ''0xd1'' (createdAtBlockNumber order1) 2 = Inr []"
    by (simp add: pagesA_def)
  have k: "(1::nat) \<le> 2 \<and> (2::nat) \<le> 3
      \<and> pagesA ''0xd1'' (createdAtBlockNumber order1) 2 = Inr []
      \<and> (\<forall>q. 1 \<le> q \<and> q < 2 \<longrightarrow> pagesA ''0xd1'' (createdAtBlockNumber order1) q \<noteq> Inr [])"
    by (auto simp: pagesA_def)
  have u: "map (\<lambda>q. (''0xd1'', createdAtBlockNumber order1, q)) [1..<Suc 2]
      = [(''0xd1'', 100, 1), (''0xd1'', 100, 2)]"
    by (simp add: order1_def upt_rec)
  note t = page_loop_ends_at_first_empty_page [where getPage = pagesA and addr = "''0xd1''"
      and order = order1 and ctx = exampleCtx and oid = "''o1''" and fuel = 3 and w = noWorld,
      OF h1 h2]
  from t k have r: "fst (pageLoop 3 pagesA exampleCtx order1 ''o1'' ''0xd1'' 1 noWorld)
        = Some (Inr NoMorePages)
      \<and> pagesFetched noWorld (snd (pageLoop 3 pagesA exampleCtx order1 ''o1'' ''0xd1'' 1 noWorld))
        = map (\<lambda>q. (''0xd1'', createdAtBlockNumber order1, q)) [1..<Suc 2]"
    by blast
  have le: "(1::nat) \<le> 2" "(2::nat) \<le> 3" by simp_all
  show ?thesis
    by (intro conjI p1 pageA_quiet p2 le conjunct1 [OF r] conjunct2 [OF r, unfolded u])
qed

text \<open>
  C7. While a page is processed the node is asked for at most ten transactions. On a page
  whose values are all read as numbers (the decimal strings of the data model, and
  hexadecimal strings with the prefix \<^verbatim>\<open>0x\<close>), the candidates are the first ten
  summaries with a value greater than zero, in the page's order, and the verification is
  run on them and on no other: the node is asked for their hashes, in this order; the
  credit requests sent while the page is processed are those that their mappers send; and
  the page is processed without an exception exactly if none of their mappers throws.
\<close>

theorem page_cap:
  "length (lookupsMade w (snd (processPage ctx order oid txs w))) \<le> 10
   \<and> ((\<forall>t \<in> set txs. numericValue t) \<longrightarrow>
        lookupsMade w (snd (processPage ctx order oid txs w))
          = map es_hash (take 10 (filter positiveValue txs))
        \<and> set (issuedRequests w (snd (processPage ctx order oid txs w)))
          = (\<Union>s \<in> set (take 10 (filter positiveValue txs)).
               set (requests (snd (txMapper ctx order oid s noWorld))))
        \<and> (fst (processPage ctx order oid txs w) = Inr ())
          = (\<forall>s \<in> set (take 10 (filter positiveValue txs)).
               fst (txMapper ctx order oid s noWorld) = Inr ()))"
proof (intro conjI impI)
  show "length (lookupsMade w (snd (processPage ctx order oid txs w))) \<le> 10"
  proof (cases "filterPositive txs")
    case (Inl e)
    then show ?thesis by (simp add: processPage_def lookupsMade_def)
  next
    case (Inr positive)
    then show ?thesis by (simp add: lookupsMade_def processPage_lookups)
  qed
next
  assume "\<forall>t \<in> set txs. numericValue t"
  note f = filterPositive_numeric [OF this]
  show "lookupsMade w (snd (processPage ctx order oid txs w))
       = map es_hash (take 10 (filter positiveValue txs))"
    by (simp add: lookupsMade_def processPage_lookups [OF f])
  have "issuedRequests w (snd (processPage ctx order oid txs w))
      = requests (snd (processPage ctx order oid txs noWorld))"
    using processPage_requests [of ctx order oid txs w] by (simp add: issuedRequests_def)
  then show "set (issuedRequests w (snd (processPage ctx order oid txs w)))
       = (\<Union>s \<in> set (take 10 (filter positiveValue txs)).
            set (requests (snd (txMapper ctx order oid s noWorld))))"
    by (simp only: processPage_requests_set [OF f])
  show "(fst (processPage ctx order oid txs w) = Inr ())
       = (\<forall>s \<in> set (take 10 (filter positiveValue txs)).
            fst (txMapper ctx order oid s noWorld) = Inr ())"
    by (rule processPage_quiet [OF f])
qed

text \<open>
  Of the thirteen summaries of the example page, \<open>b\<close> has value 0 and is dropped, and
  \<open>l\<close> and \<open>m\<close> come after the tenth candidate: the node is asked for the other ten.
\<close>

theorem page_cap_witness:
  "list_all numericValue densePage
   \<and> map es_hash (filter positiveValue densePage)
       = [''a'', ''c'', ''d'', ''e'', ''f'', ''g'', ''h'', ''i'', ''j'', ''k'', ''l'', ''m'']
   \<and> lookupsMade noWorld (snd (processPage denseCtx order1 ''o1'' densePage noWorld))
       = [''a'', ''c'', ''d'', ''e'', ''f'', ''g'', ''h'', ''i'', ''j'', ''k'']
   \<and> length (lookupsMade noWorld (snd (processPage denseCtx order1 ''o1'' densePage noWorld))) \<le> 10"
proof -
  have h: "\<forall>t \<in> set densePage. numericValue t"
    by (simp add: densePage_def numericValue_def summaryOf_def densePage_values
          BigNumber_from_5 BigNumber_from_7)
  have p: "map es_hash (filter positiveValue densePage)
       = [''a'', ''c'', ''d'', ''e'', ''f'', ''g'', ''h'', ''i'', ''j'', ''k'', ''l'', ''m'']"
    by (simp add: densePage_def positiveValue_def summaryOf_def densePage_values
          BigNumber_from_5 BigNumber_from_7)
  have c: "map es_hash (take 10 (filter positiveValue densePage))
      = [''a'', ''c'', ''d'', ''e'', ''f'', ''g'', ''h'', ''i'', ''j'', ''k'']"
    by (simp add: densePage_def positiveValue_def summaryOf_def densePage_values
          BigNumber_from_5 BigNumber_from_7)
  note t = page_cap [of noWorld denseCtx order1 "''o1''" densePage]
  have l: "lookupsMade noWorld (snd (processPage denseCtx order1 ''o1'' densePage noWorld))
       = [''a'', ''c'', ''d'', ''e'', ''f'', ''g'', ''h'', ''i'', ''j'', ''k'']"
    using t h by (simp only: c simp_thms)
  have n: "length (lookupsMade noWorld (snd (processPage denseCtx order1 ''o1'' densePage noWorld))) \<le> 10"
    using t by (elim conjE)
  from h have "list_all numericValue densePage" by (simp add: list_all_iff)
  then show ?thesis
    by (intro conjI p l n)
qed

text \<open>
  C8. For a summary that the node resolves to a well-formed transaction, the mapper's
  outcome is decided by the first check of the specification's list that applies: not
  found (error line), no block number (warning), block older than the order (warning), no
  recipient, recipient other than the sweep account, no value (all three: \<^verbatim>\<open>scanTxid\<close>
  returns \<^verbatim>\<open>false\<close> after the line \<^verbatim>\<open>Scanning tx\<close>), no legacy gas price (an exception).
  Otherwise nothing is thrown.
\<close>

theorem verification_order:
  assumes "resolvesWellFormed ctx s"
  shows "(verify_spec ctx order s = NotFound \<longrightarrow>
            txMapper ctx order oid s w
              = (Inr (), logger ErrorLevel (TransactionNotFound (es_hash s)) w))
    \<and> (verify_spec ctx order s = Pending \<longrightarrow>
            txMapper ctx order oid s w
              = (Inr (), logger Warn (TransactionHasNoBlockNumber (es_hash s)) w))
    \<and> (verify_spec ctx order s = Stale \<longrightarrow>
            txMapper ctx order oid s w
              = (Inr (), logger Warn (IgnoringTxBeforeOrder (es_hash s) oid) w))
    \<and> (verify_spec ctx order s \<in> {ContractCreation, NotASweep, ZeroValue} \<longrightarrow>
            txMapper ctx order oid s w = (Inr (), logger Info (ScanningTx (es_hash s)) w))
    \<and> (verify_spec ctx order s = UnsupportedFeeModel \<longrightarrow>
            txMapper ctx order oid s w
              = (Inl (Error ''Unsupported EIP-1559 sweep transaction''),
                 logger Info (ScanningTx (es_hash s)) w))
    \<and> (verify_spec ctx order s = Eligible \<longrightarrow> fst (txMapper ctx order oid s w) = Inr ())"
proof -
  note v = txMapper_by_verdict [OF assms, of order oid w]
  have e: "verify_spec ctx order s = Eligible \<longrightarrow> fst (txMapper ctx order oid s w) = Inr ()"
  proof
    assume "verify_spec ctx order s = Eligible"
    with v have "txMapper ctx order oid s w = (Inr (), snd (txMapper ctx order oid s w))"
      by (simp only: verdict.case)
    then show "fst (txMapper ctx order oid s w) = Inr ()" by (metis fst_conv)
  qed
  show ?thesis
  proof (cases "verify_spec ctx order s = Eligible")
    case True
    with e show ?thesis by simp
  next
    case False
    with v show ?thesis by (cases "verify_spec ctx order s") simp_all
  qed
qed


text \<open>One transaction of the example for each of the eight verdicts.\<close>

theorem verification_order_witness:
  "resolvesWellFormed exampleCtx (summaryOf ''Q'' ''1'')
   \<and> verify_spec exampleCtx order1 (summaryOf ''Q'' ''1'') = NotFound
   \<and> txMapper exampleCtx order1 ''o1'' (summaryOf ''Q'' ''1'') noWorld
       = (Inr (), logger ErrorLevel (TransactionNotFound ''Q'') noWorld)
   \<and> resolvesWellFormed exampleCtx (summaryOf ''P'' ''4'')
   \<and> verify_spec exampleCtx order1 (summaryOf ''P'' ''4'') = Pending
   \<and> txMapper exampleCtx order1 ''o1'' (summaryOf ''P'' ''4'') noWorld
       = (Inr (), logger Warn (TransactionHasNoBlockNumber ''P'') noWorld)
   \<and> resolvesWellFormed exampleCtx (summaryOf ''Y'' ''3'')
   \<and> verify_spec exampleCtx order1 (summaryOf ''Y'' ''3'') = Stale
   \<and> txMapper exampleCtx order1 ''o1'' (summaryOf ''Y'' ''3'') noWorld
       = (Inr (), logger Warn (IgnoringTxBeforeOrder ''Y'' ''o1'') noWorld)
   \<and> resolvesWellFormed exampleCtx (summaryOf ''C'' ''4'')
   \<and> verify_spec exampleCtx order1 (summaryOf ''C'' ''4'') = ContractCreation
   \<and> txMapper exampleCtx order1 ''o1'' (summaryOf ''C'' ''4'') noWorld
       = (Inr (), logger Info (ScanningTx ''C'') noWorld)
   \<and> resolvesWellFormed exampleCtx (summaryOf ''N'' ''4'')
   \<and> verify_spec exampleCtx order1 (summaryOf ''N'' ''4'') = NotASweep
   \<and> txMapper exampleCtx order1 ''o1'' (summaryOf ''N'' ''4'') noWorld
       = (Inr (), logger Info (ScanningTx ''N'') noWorld)
   \<and> resolvesWellFormed exampleCtx (summaryOf ''V'' ''4'')
   \<and> verify_spec exampleCtx order1 (summaryOf ''V'' ''4'') = ZeroValue
   \<and> txMapper exampleCtx order1 ''o1'' (summaryOf ''V'' ''4'') noWorld
       = (Inr (), logger Info (ScanningTx ''V'') noWorld)
   \<and> resolvesWellFormed exampleCtx (summaryOf ''Z'' ''7'')
   \<and> verify_spec exampleCtx order1 (summaryOf ''Z'' ''7'') = UnsupportedFeeModel
   \<and> txMapper exampleCtx order1 ''o1'' (summaryOf ''Z'' ''7'') noWorld
       = (Inl (Error ''Unsupported EIP-1559 sweep transaction''),
          logger Info (ScanningTx ''Z'') noWorld)
   \<and> resolvesWellFormed exampleCtx (summaryOf ''X'' ''5'')
   \<and> verify_spec exampleCtx order1 (summaryOf ''X'' ''5'') = Eligible
   \<and> fst (txMapper exampleCtx order1 ''o1'' (summaryOf ''X'' ''5'') noWorld) = Inr ()"
proof -
  note defs = resolvesWellFormed_def verify_spec_def staleBlock_def exampleCtx_def
    summaryOf_def nodeTransaction_def nodeBlock_def order1_def lower_acc lower_bee
    txX_def txY_def txZ_def txP_def txC_def txN_def txV_def
  have wQ: "resolvesWellFormed exampleCtx (summaryOf ''Q'' ''1'')" by (simp add: defs)
  have vQ: "verify_spec exampleCtx order1 (summaryOf ''Q'' ''1'') = NotFound" by (simp add: defs)
  have wP: "resolvesWellFormed exampleCtx (summaryOf ''P'' ''4'')" by (simp add: defs)
  have vP: "verify_spec exampleCtx order1 (summaryOf ''P'' ''4'') = Pending" by (simp add: defs)
  have wY: "resolvesWellFormed exampleCtx (summaryOf ''Y'' ''3'')" by (simp add: defs)
  have vY: "verify_spec exampleCtx order1 (summaryOf ''Y'' ''3'') = Stale" by (simp add: defs)
  have wC: "resolvesWellFormed exampleCtx (summaryOf ''C'' ''4'')" by (simp add: defs)
  have vC: "verify_spec exampleCtx order1 (summaryOf ''C'' ''4'') = ContractCreation"
    by (simp add: defs)
  have wN: "resolvesWellFormed exampleCtx (summaryOf ''N'' ''4'')" by (simp add: defs)
  have vN: "verify_spec exampleCtx order1 (summaryOf ''N'' ''4'') = NotASweep" by (simp add: defs)
  have wV: "resolvesWellFormed exampleCtx (summaryOf ''V'' ''4'')" by (simp add: defs)
  have vV: "verify_spec exampleCtx order1 (summaryOf ''V'' ''4'') = ZeroValue" by (simp add: defs)
  have wZ: "resolvesWellFormed exampleCtx (summaryOf ''Z'' ''7'')" by (simp add: defs)
  have vZ: "verify_spec exampleCtx order1 (summaryOf ''Z'' ''7'') = UnsupportedFeeModel"
    by (simp add: defs)
  have wX: "resolvesWellFormed exampleCtx (summaryOf ''X'' ''5'')" by (simp add: defs)
  have vX: "verify_spec exampleCtx order1 (summaryOf ''X'' ''5'') = Eligible" by (simp add: defs)
  have h: "\<And>h v. es_hash (summaryOf h v) = h" by (simp add: summaryOf_def)
  have rQ: "txMapper exampleCtx order1 ''o1'' (summaryOf ''Q'' ''1'') noWorld
       = (Inr (), logger ErrorLevel (TransactionNotFound ''Q'') noWorld)"
    using verification_order [OF wQ, of order1 "''o1''" noWorld] vQ by (simp add: h)
  have rP: "txMapper exampleCtx order1 ''o1'' (summaryOf ''P'' ''4'') noWorld
       = (Inr (), logger Warn (TransactionHasNoBlockNumber ''P'') noWorld)"
    using verification_order [OF wP, of order1 "''o1''" noWorld] vP by (simp add: h)
  have rY: "txMapper exampleCtx order1 ''o1'' (summaryOf ''Y'' ''3'') noWorld
       = (Inr (), logger Warn (IgnoringTxBeforeOrder ''Y'' ''o1'') noWorld)"
    using verification_order [OF wY, of order1 "''o1''" noWorld] vY by (simp add: h)
  have rC: "txMapper exampleCtx order1 ''o1'' (summaryOf ''C'' ''4'') noWorld
       = (Inr (), logger Info (ScanningTx ''C'') noWorld)"
    using verification_order [OF wC, of order1 "''o1''" noWorld] vC by (simp add: h)
  have rN: "txMapper exampleCtx order1 ''o1'' (summaryOf ''N'' ''4'') noWorld
       = (Inr (), logger Info (ScanningTx ''N'') noWorld)"
    using verification_order [OF wN, of order1 "''o1''" noWorld] vN by (simp add: h)
  have rV: "txMapper exampleCtx order1 ''o1'' (summaryOf ''V'' ''4'') noWorld
       = (Inr (), logger Info (ScanningTx ''V'') noWorld)"
    using verification_order [OF wV, of order1 "''o1''" noWorld] vV by (simp add: h)
  have rZ: "txMapper exampleCtx order1 ''o1'' (summaryOf ''Z'' ''7'') noWorld
       = (Inl (Error ''Unsupported EIP-1559 sweep transaction''),
          logger Info (ScanningTx ''Z'') noWorld)"
    using verification_order [OF wZ, of order1 "''o1''" noWorld] vZ by (simp add: h)
  have rX: "fst (txMapper exampleCtx order1 ''o1'' (summaryOf ''X'' ''5'') noWorld) = Inr ()"
    using verification_order [OF wX, of order1 "''o1''" noWorld] vX by (simp add: h)
  show ?thesis
    by (intro conjI wQ vQ rQ wP vP rP wY vY rY wC vC rC wN vN rN wV vV rV wZ vZ rZ wX vX rX)
qed

text \<open>
  C9. For a transaction that passes the checks of \<^verbatim>\<open>scanTxid\<close> and whose sender is the
  deposit address of an order, the total computed on decimal strings is the decimal string
  of \<open>value + gasLimit * gasPrice\<close>, the amount of the credit request is that total
  printed in ether, and it is not the transfer value alone unless the gas cost is zero.
\<close>

theorem credited_amount_is_value_plus_gas:
  assumes "tx_from tx \<noteq> []" "tx_blockHash tx = Some bh" "tx_to tx = Some to" "to \<noteq> []"
    and "toLowerCase to = toLowerCase (account ctx)" "0 < tx_value tx"
    and "tx_gasPrice tx = Some gasPrice"
    and "fetchOrderForAddress ctx (tx_from tx) = Some found"
  shows "ns_sum (toString (tx_value tx)) (ns_times (toString (tx_gasLimit tx)) (toString gasPrice))
       = toString (tx_value tx + tx_gasLimit tx * gasPrice)
    \<and> map amount (issuedRequests w (snd (scanTxid ctx tx w)))
       = [formatEther (int (tx_value tx + tx_gasLimit tx * gasPrice))]
    \<and> (0 < tx_gasLimit tx * gasPrice \<longrightarrow>
         map amount (issuedRequests w (snd (scanTxid ctx tx w)))
           \<noteq> [formatEther (int (tx_value tx))])"
proof -
  have s: "ns_sum (toString (tx_value tx)) (ns_times (toString (tx_gasLimit tx)) (toString gasPrice))
       = toString (tx_value tx + tx_gasLimit tx * gasPrice)"
    by (simp add: ns_times_toString ns_sum_toString)
  have a: "map amount (issuedRequests w (snd (scanTxid ctx tx w)))
       = [formatEther (int (tx_value tx + tx_gasLimit tx * gasPrice))]"
    using scanTxid_credit [OF assms, of w] by (simp add: issuedRequests_def)
  have "0 < tx_gasLimit tx * gasPrice \<longrightarrow>
      formatEther (int (tx_value tx + tx_gasLimit tx * gasPrice)) \<noteq> formatEther (int (tx_value tx))"
    using formatEther_inj [of "tx_value tx + tx_gasLimit tx * gasPrice" "tx_value tx"] by auto
  with s a show ?thesis by simp
qed

text \<open>
  Transaction \<open>X\<close> moves 5 wei with gas limit 21000 at gas price 2: the amount credited is
  42005 wei, printed in ether.
\<close>

theorem credited_amount_is_value_plus_gas_witness:
  "tx_from txX \<noteq> [] \<and> tx_blockHash txX = Some ''b105'' \<and> tx_to txX = Some ''0xACC''
   \<and> ''0xACC'' \<noteq> [] \<and> toLowerCase ''0xACC'' = toLowerCase (account exampleCtx)
   \<and> 0 < tx_value txX \<and> tx_gasPrice txX = Some 2
   \<and> fetchOrderForAddress exampleCtx (tx_from txX) = Some order1
   \<and> (0::nat) < tx_gasLimit txX * 2
   \<and> map amount (issuedRequests noWorld (snd (scanTxid exampleCtx txX noWorld)))
       = [''0.000000000000042005'']
   \<and> map amount (issuedRequests noWorld (snd (scanTxid exampleCtx txX noWorld)))
       \<noteq> [''0.000000000000000005'']"
proof -
  have h1: "tx_from txX \<noteq> []" by (simp add: txX_def)
  have h2: "tx_blockHash txX = Some ''b105''" by (simp add: txX_def)
  have h3: "tx_to txX = Some ''0xACC''" by (simp add: txX_def)
  have h4: "''0xACC'' \<noteq> []" by simp
  have h5: "toLowerCase ''0xACC'' = toLowerCase (account exampleCtx)"
    by (simp add: exampleCtx_def lower_acc)
  have h6: "0 < tx_value txX" by (simp add: txX_def)
  have h7: "tx_gasPrice txX = Some 2" by (simp add: txX_def)
  have h8: "fetchOrderForAddress exampleCtx (tx_from txX) = Some order1"
    by (simp add: fetchOrderForAddress_def exampleCtx_def txX_def order1_def)
  have g: "(0::nat) < tx_gasLimit txX * 2" by (simp add: txX_def)
  have v: "int (tx_value txX + tx_gasLimit txX * 2) = 42005" "int (tx_value txX) = 5"
    by (simp_all add: txX_def)
  note t = credited_amount_is_value_plus_gas [OF h1 h2 h3 h4 h5 h6 h7 h8, of noWorld]
  have a: "map amount (issuedRequests noWorld (snd (scanTxid exampleCtx txX noWorld)))
       = [''0.000000000000042005'']"
    using t by (simp only: v formatEther_42005)
  have b: "map amount (issuedRequests noWorld (snd (scanTxid exampleCtx txX noWorld)))
       \<noteq> [''0.000000000000000005'']"
    using a by simp
  show ?thesis
    using h1 h2 h3 h4 h5 h6 h7 h8 g a b by blast
qed

text \<open>
  C10. \<^verbatim>\<open>scanTxid\<close> is not given the scanned order: for a transaction that passes its
  checks it looks the order up by the sender. If no row of the order table has the native
  deposit method and the sender as deposit address, it returns \<^verbatim>\<open>false\<close> and leaves the
  world as it was (no credit, no exception, no log line); otherwise the one request it
  sends names the first such row of the table. The requests of the mapper depend on the
  scanned order only through its creation time, and there are scans whose request names
  another order than the one scanned.
\<close>

theorem credited_order_is_looked_up_by_sender:
  assumes "tx_from tx \<noteq> []" "tx_blockHash tx = Some bh" "tx_to tx = Some to" "to \<noteq> []"
    and "toLowerCase to = toLowerCase (account ctx)" "0 < tx_value tx"
    and "tx_gasPrice tx = Some gasPrice"
  shows "((\<forall>row \<in> set (db ctx). \<not> (depositMethod row = method_id (nativeMethod ctx)
                \<and> map_option address (depositAddress row) = Some (tx_from tx))) \<longrightarrow>
            scanTxid ctx tx w = (Inr False, w))
    \<and> (\<forall>before row after. db ctx = before @ row # after
          \<and> depositMethod row = method_id (nativeMethod ctx)
          \<and> map_option address (depositAddress row) = Some (tx_from tx)
          \<and> (\<forall>r \<in> set before. \<not> (depositMethod r = method_id (nativeMethod ctx)
                \<and> map_option address (depositAddress r) = Some (tx_from tx))) \<longrightarrow>
          map orderId (issuedRequests w (snd (scanTxid ctx tx w))) = [order_id row])
    \<and> (\<forall>order oid order' oid' s. createdAt order' = createdAt order \<longrightarrow>
          issuedRequests w (snd (txMapper ctx order' oid' s w))
            = issuedRequests w (snd (txMapper ctx order oid s w)))
    \<and> (\<exists>ctx' oid' fuel getPage req.
          req \<in> set (issuedRequests noWorld (snd (orderTask fuel getPage ctx' oid' noWorld)))
          \<and> orderId req \<noteq> oid')"
proof -
  have n: "(\<forall>row \<in> set (db ctx). \<not> (depositMethod row = method_id (nativeMethod ctx)
                \<and> map_option address (depositAddress row) = Some (tx_from tx))) \<longrightarrow>
            scanTxid ctx tx w = (Inr False, w)"
  proof
    assume "\<forall>row \<in> set (db ctx). \<not> (depositMethod row = method_id (nativeMethod ctx)
                \<and> map_option address (depositAddress row) = Some (tx_from tx))"
    then have "fetchOrderForAddress ctx (tx_from tx) = None"
      by (rule fetchOrderForAddress_none)
    with assms show "scanTxid ctx tx w = (Inr False, w)"
      by (rule scanTxid_no_order)
  qed
  have f: "map orderId (issuedRequests w (snd (scanTxid ctx tx w))) = [order_id row]"
    if a: "db ctx = before @ row # after
          \<and> depositMethod row = method_id (nativeMethod ctx)
          \<and> map_option address (depositAddress row) = Some (tx_from tx)
          \<and> (\<forall>r \<in> set before. \<not> (depositMethod r = method_id (nativeMethod ctx)
                \<and> map_option address (depositAddress r) = Some (tx_from tx)))"
    for before row after
  proof -
    from a have "db ctx = before @ row # after"
      and "depositMethod row = method_id (nativeMethod ctx)"
      and "map_option address (depositAddress row) = Some (tx_from tx)"
      and "\<forall>r \<in> set before. \<not> (depositMethod r = method_id (nativeMethod ctx)
                \<and> map_option address (depositAddress r) = Some (tx_from tx))"
      by blast+
    then have "fetchOrderForAddress ctx (tx_from tx) = Some row"
      by (rule fetchOrderForAddress_first)
    from scanTxid_credit [OF assms this, of w] show ?thesis
      by (simp add: issuedRequests_def)
  qed
  have m: "issuedRequests w (snd (txMapper ctx order' oid' s w))
            = issuedRequests w (snd (txMapper ctx order oid s w))"
    if "createdAt order' = createdAt order" for order oid order' oid' s
    using that by (rule txMapper_scanned_order)
  have "\<lparr>orderId = ''o0'', txid = ''X'', amount = formatEther 42005, uniqueId = ''eth:X''\<rparr>
      \<in> set (issuedRequests noWorld (snd (orderTask 3 pagesA reassignedCtx ''o1'' noWorld)))"
    by (simp add: issuedRequests_def runB)
  moreover have "orderId \<lparr>orderId = ''o0'', txid = ''X'', amount = formatEther 42005,
      uniqueId = ''eth:X''\<rparr> \<noteq> ''o1''" by simp
  ultimately have x: "\<exists>ctx' oid' fuel getPage req.
      req \<in> set (issuedRequests noWorld (snd (orderTask fuel getPage ctx' oid' noWorld)))
      \<and> orderId req \<noteq> oid'" by blast
  show ?thesis
  proof (intro conjI allI impI)
    show "(\<forall>row \<in> set (db ctx). \<not> (depositMethod row = method_id (nativeMethod ctx)
                \<and> map_option address (depositAddress row) = Some (tx_from tx))) \<Longrightarrow>
            scanTxid ctx tx w = (Inr False, w)"
      using n by blast
    show "\<exists>ctx' oid' fuel getPage req.
      req \<in> set (issuedRequests noWorld (snd (orderTask fuel getPage ctx' oid' noWorld)))
      \<and> orderId req \<noteq> oid'" by (rule x)
  next
    fix before row after
    assume "db ctx = before @ row # after
          \<and> depositMethod row = method_id (nativeMethod ctx)
          \<and> map_option address (depositAddress row) = Some (tx_from tx)
          \<and> (\<forall>r \<in> set before. \<not> (depositMethod r = method_id (nativeMethod ctx)
                \<and> map_option address (depositAddress r) = Some (tx_from tx)))"
    then show "map orderId (issuedRequests w (snd (scanTxid ctx tx w))) = [order_id row]"
      by (rule f)
  next
    fix order :: Order and oid :: string and order' :: Order and oid' :: string
      and s :: etherscanTx
    assume "createdAt order' = createdAt order"
    then show "issuedRequests w (snd (txMapper ctx order' oid' s w))
            = issuedRequests w (snd (txMapper ctx order oid s w))"
      by (rule m)
  qed
qed

text \<open>
  With the reassigned deposit address the first row for the sender of \<open>X\<close> is \<open>o0\<close>,
  whichever order is scanned; with an empty table nothing happens.
\<close>

theorem credited_order_is_looked_up_by_sender_witness:
  "tx_from txX \<noteq> [] \<and> tx_blockHash txX = Some ''b105'' \<and> tx_to txX = Some ''0xACC''
   \<and> ''0xACC'' \<noteq> [] \<and> toLowerCase ''0xACC'' = toLowerCase (account reassignedCtx)
   \<and> toLowerCase ''0xACC'' = toLowerCase (account forgottenCtx)
   \<and> 0 < tx_value txX \<and> tx_gasPrice txX = Some 2
   \<and> db reassignedCtx = [] @ order0 # [order1]
   \<and> depositMethod order0 = method_id (nativeMethod reassignedCtx)
   \<and> map_option address (depositAddress order0) = Some (tx_from txX)
   \<and> map orderId (issuedRequests noWorld (snd (scanTxid reassignedCtx txX noWorld))) = [''o0'']
   \<and> db forgottenCtx = []
   \<and> scanTxid forgottenCtx txX noWorld = (Inr False, noWorld)"
proof -
  have h1: "tx_from txX \<noteq> []" by (simp add: txX_def)
  have h2: "tx_blockHash txX = Some ''b105''" by (simp add: txX_def)
  have h3: "tx_to txX = Some ''0xACC''" by (simp add: txX_def)
  have h4: "''0xACC'' \<noteq> []" by simp
  have h5: "toLowerCase ''0xACC'' = toLowerCase (account reassignedCtx)"
    by (simp add: reassignedCtx_def exampleCtx_def lower_acc)
  have h5': "toLowerCase ''0xACC'' = toLowerCase (account forgottenCtx)"
    by (simp add: forgottenCtx_def exampleCtx_def lower_acc)
  have h6: "0 < tx_value txX" by (simp add: txX_def)
  have h7: "tx_gasPrice txX = Some 2" by (simp add: txX_def)
  have r1: "db reassignedCtx = [] @ order0 # [order1]"
    by (simp add: reassignedCtx_def exampleCtx_def)
  have r2: "depositMethod order0 = method_id (nativeMethod reassignedCtx)"
    by (simp add: reassignedCtx_def exampleCtx_def order0_def)
  have r3: "map_option address (depositAddress order0) = Some (tx_from txX)"
    by (simp add: order0_def txX_def)
  have r4: "\<forall>r \<in> set []. \<not> (depositMethod r = method_id (nativeMethod reassignedCtx)
      \<and> map_option address (depositAddress r) = Some (tx_from txX))" by simp
  have e1: "db forgottenCtx = []" by (simp add: forgottenCtx_def exampleCtx_def)
  then have e2: "\<forall>row \<in> set (db forgottenCtx).
      \<not> (depositMethod row = method_id (nativeMethod forgottenCtx)
         \<and> map_option address (depositAddress row) = Some (tx_from txX))" by simp
  note t = credited_order_is_looked_up_by_sender [OF h1 h2 h3 h4 h5 h6 h7, of noWorld]
  from t have "\<forall>before row after. db reassignedCtx = before @ row # after
          \<and> depositMethod row = method_id (nativeMethod reassignedCtx)
          \<and> map_option address (depositAddress row) = Some (tx_from txX)
          \<and> (\<forall>r \<in> set before. \<not> (depositMethod r = method_id (nativeMethod reassignedCtx)
                \<and> map_option address (depositAddress r) = Some (tx_from txX))) \<longrightarrow>
          map orderId (issuedRequests noWorld (snd (scanTxid reassignedCtx txX noWorld)))
            = [order_id row]"
    by (elim conjE)
  from this [rule_format, of "[]" order0 "[order1]"] r1 r2 r3 r4
  have a: "map orderId (issuedRequests noWorld (snd (scanTxid reassignedCtx txX noWorld))) = [''o0'']"
    by (simp add: order0_def)
  have b: "scanTxid forgottenCtx txX noWorld = (Inr False, noWorld)"
    using credited_order_is_looked_up_by_sender [OF h1 h2 h3 h4 h5' h6 h7, of noWorld] e2
    by blast
  show ?thesis
    by (intro conjI h1 h2 h3 h4 h5 h5' h6 h7 r1 r2 r3 a e1 b)
qed

end
